(* ===== verification/Helix_Prelude.thy ===== *)
theory Helix_Prelude
  imports Complex_Main "HOL-Library.AList" "HOL-Library.Multiset" "HOL-Library.Sublist" "HOL-Library.Word"
begin

text \<open>
  Shared vocabulary of the Helix Gateway development: the Go types the components use (maps,
  strings, 64-bit integers, run-time panics), the functions of Go's standard library that the
  sources call on them, and the lemmas the component theories rely on.

  A Go map is an association list with distinct keys (\<open>gm_wf\<close>). Ranging over a map visits
  its entries in an order the run time chooses, so every definition that exposes that order takes
  it as an argument: a function that rearranges the entries (\<open>range_order\<close>).

  A Go string is its list of bytes (\<open>string\<close>). Case folding and white space follow Go on the
  ASCII range, the only one that HTTP tokens, header names and the configuration keys use.
\<close>

named_theorems gomap_simps \<open>lookup and shape of updated and shortened Go maps\<close>
named_theorems gostring_simps \<open>evaluation of the string functions\<close>

section \<open>Go maps\<close>

type_synonym ('k, 'v) gomap = "('k \<times> 'v) list"

definition gm_wf :: "('k, 'v) gomap \<Rightarrow> bool" where
  "gm_wf m \<longleftrightarrow> distinct (map fst m)"

text \<open>\<open>m[k] = v\<close> and \<open>delete(m, k)\<close>.\<close>

definition gm_put :: "'k \<Rightarrow> 'v \<Rightarrow> ('k, 'v) gomap \<Rightarrow> ('k, 'v) gomap" where
  "gm_put k v m = AList.update k v m"

definition gm_del :: "'k \<Rightarrow> ('k, 'v) gomap \<Rightarrow> ('k, 'v) gomap" where
  "gm_del k m = AList.delete k m"

text \<open>
  \<open>range_order \<sigma>\<close>: \<open>\<sigma>\<close> visits every entry of a map exactly once, in some order. Go promises no
  more of a \<open>for range\<close> loop over a map.
\<close>

definition range_order :: "(('k, 'v) gomap \<Rightarrow> ('k, 'v) gomap) \<Rightarrow> bool" where
  "range_order \<sigma> \<longleftrightarrow> (\<forall>m. mset (\<sigma> m) = mset m)"

definition same_map :: "('k, 'v) gomap \<Rightarrow> ('k, 'v) gomap \<Rightarrow> bool" where
  "same_map m n \<longleftrightarrow> map_of n = map_of m \<and> (gm_wf m \<longrightarrow> gm_wf n)"

section \<open>Run-time panics and 64-bit integers\<close>

datatype go_panic = DivideByZero | IndexOutOfRange | InvalidArgument | NilDereference | AbortHandler

text \<open>Go's \<open>int\<close> (64 bits, two's complement): the value that \<open>x\<close> wraps to.\<close>

definition wrap64 :: "int \<Rightarrow> int" where
  "wrap64 x = (x + 2 ^ 63) mod 2 ^ 64 - 2 ^ 63"

text \<open>
  The dynamic type \<open>any\<close> of plugin configuration values: what \<open>encoding/json\<close> decodes into an
  \<open>any\<close>, and the two integer types a Go caller may store in one.
\<close>

datatype any =
    AnyNil
  | AnyBool bool
  | AnyInt int
  | AnyInt64 int
  | AnyFloat rat
  | AnyString string
  | AnySlice "any list"
  | AnyMap "(string \<times> any) list"

section \<open>Strings\<close>

text \<open>\<open>strings.HasPrefix\<close>, \<open>strings.HasSuffix\<close>, \<open>strings.TrimPrefix\<close>.\<close>

definition HasPrefix :: "string \<Rightarrow> string \<Rightarrow> bool" where
  "HasPrefix s p \<longleftrightarrow> take (length p) s = p"

definition HasSuffix :: "string \<Rightarrow> string \<Rightarrow> bool" where
  "HasSuffix s p \<longleftrightarrow> length p \<le> length s \<and> drop (length s - length p) s = p"

definition TrimPrefix :: "string \<Rightarrow> string \<Rightarrow> string" where
  "TrimPrefix s p = (if HasPrefix s p then drop (length p) s else s)"

text \<open>\<open>strings.Split(s, sep)\<close> for a separator of one byte: never the empty list.\<close>

fun split_on :: "char \<Rightarrow> string \<Rightarrow> string list" where
  "split_on c [] = [[]]"
| "split_on c (x # xs) =
     (if x = c then [] # split_on c xs
      else (case split_on c xs of [] \<Rightarrow> [[x]] | y # ys \<Rightarrow> (x # y) # ys))"

text \<open>\<open>strings.Join(parts, sep)\<close> for a separator of one byte.\<close>

fun join_with :: "char \<Rightarrow> string list \<Rightarrow> string" where
  "join_with c [] = []"
| "join_with c [x] = x"
| "join_with c (x # y # ys) = x @ c # join_with c (y # ys)"

text \<open>\<open>strings.Cut(s, sep)\<close> for a separator of one byte: before, after, found.\<close>

definition go_Cut :: "char \<Rightarrow> string \<Rightarrow> string \<times> string \<times> bool" where
  "go_Cut c s =
     (let a = takeWhile (\<lambda>x. x \<noteq> c) s; b = dropWhile (\<lambda>x. x \<noteq> c) s
      in case b of [] \<Rightarrow> (s, [], False) | _ # t \<Rightarrow> (a, t, True))"

text \<open>\<open>strings.LastIndex(s, sep)\<close> for a separator of one byte; \<open>None\<close> is \<open>-1\<close>.\<close>

fun last_index :: "char \<Rightarrow> string \<Rightarrow> nat option" where
  "last_index c [] = None"
| "last_index c (x # xs) =
     (case last_index c xs of
        Some i \<Rightarrow> Some (Suc i)
      | None \<Rightarrow> if x = c then Some 0 else None)"

text \<open>White space of \<open>strings.TrimSpace\<close>: tab, newline, vertical tab, form feed, return, blank.\<close>

definition is_space :: "char \<Rightarrow> bool" where
  "is_space c \<longleftrightarrow> (let n = of_char c :: nat in n = 32 \<or> (9 \<le> n \<and> n \<le> 13))"

definition TrimSpace :: "string \<Rightarrow> string" where
  "TrimSpace s = rev (dropWhile is_space (rev (dropWhile is_space s)))"

definition is_upper :: "char \<Rightarrow> bool" where
  "is_upper c \<longleftrightarrow> (let n = of_char c :: nat in 65 \<le> n \<and> n \<le> 90)"

definition is_lower :: "char \<Rightarrow> bool" where
  "is_lower c \<longleftrightarrow> (let n = of_char c :: nat in 97 \<le> n \<and> n \<le> 122)"

definition is_digit :: "char \<Rightarrow> bool" where
  "is_digit c \<longleftrightarrow> (let n = of_char c :: nat in 48 \<le> n \<and> n \<le> 57)"

definition lower_char :: "char \<Rightarrow> char" where
  "lower_char c = (if is_upper c then char_of (of_char c + 32 :: nat) else c)"

definition upper_char :: "char \<Rightarrow> char" where
  "upper_char c = (if is_lower c then char_of (of_char c - 32 :: nat) else c)"

definition ToLower :: "string \<Rightarrow> string" where
  "ToLower s = map lower_char s"

definition hex_digit :: "nat \<Rightarrow> char" where
  "hex_digit n = ''0123456789abcdef'' ! n"

definition hex_encode :: "string \<Rightarrow> string" where
  "hex_encode bs = concat (map (\<lambda>b. let n = of_char b :: nat in [hex_digit (n div 16), hex_digit (n mod 16)]) bs)"

definition EqualFold :: "string \<Rightarrow> string \<Rightarrow> bool" where
  "EqualFold s t \<longleftrightarrow> ToLower s = ToLower t"

section \<open>Lemmas on Go maps\<close>

lemma gm_get_put [simp, gomap_simps]: "map_of (gm_put k v m) = (map_of m)(k \<mapsto> v)"
  by (simp add: gm_put_def update_conv')

lemma gm_get_del [simp, gomap_simps]: "map_of (gm_del k m) = (map_of m)(k := None)"
  by (simp add: gm_del_def delete_conv')

lemma gm_wf_Nil [simp]: "gm_wf []"
  by (simp add: gm_wf_def)

lemma gm_wf_put [simp, intro]: "gm_wf m \<Longrightarrow> gm_wf (gm_put k v m)"
  by (simp add: gm_wf_def gm_put_def distinct_update)

lemma gm_wf_del [simp, intro]: "gm_wf m \<Longrightarrow> gm_wf (gm_del k m)"
  by (simp add: gm_wf_def gm_del_def distinct_delete)

lemma gm_mem_iff: "gm_wf m \<Longrightarrow> (k, v) \<in> set m \<longleftrightarrow> map_of m k = Some v"
  by (auto simp: gm_wf_def intro: map_of_is_SomeI dest: map_of_SomeD)

lemma gm_keys: "fst ` set m = dom (map_of m)"
  by (simp add: dom_map_of_conv_image_fst)

text \<open>The undo steps of the store: each gives back the map it started from.\<close>

lemma gm_undo_create: "map_of m k = None \<Longrightarrow> gm_del k (gm_put k v m) = m"
  by (simp add: gm_del_def gm_put_def delete_update_same map_of_eq_None_iff)

lemma gm_undo_update: "map_of m k = Some v \<Longrightarrow> gm_put k v (gm_put k w m) = m"
  by (simp add: gm_put_def update_triv)

lemma gm_undo_delete: "map_of m k = Some v \<Longrightarrow> map_of (gm_put k v (gm_del k m)) = map_of m"
  by auto

text \<open>Two maps with the same entries: what an operation that failed leaves behind.\<close>

lemma same_map_refl [simp]: "same_map m m"
  by (simp add: same_map_def)

lemma same_map_undo_delete: "map_of m k = Some v \<Longrightarrow> same_map m (gm_put k v (gm_del k m))"
  by (auto simp: same_map_def)

lemma gm_wf_perm: "mset n = mset m \<Longrightarrow> gm_wf n \<longleftrightarrow> gm_wf m"
  by (metis gm_wf_def mset_eq_imp_distinct_iff mset_map)

lemma gm_get_perm:
  assumes "gm_wf m" and "mset n = mset m"
  shows "map_of n = map_of m"
proof -
  have "gm_wf n" using assms(1) gm_wf_perm [OF assms(2)] by blast
  moreover have "set n = set m" using assms(2) by (rule mset_eq_setD)
  ultimately show ?thesis
    using assms(1) by (simp add: gm_wf_def map_of_inject_set)
qed

lemma range_orderD: "range_order \<sigma> \<Longrightarrow> mset (\<sigma> m) = mset m"
  by (simp add: range_order_def)

lemma range_order_set [simp]: "range_order \<sigma> \<Longrightarrow> set (\<sigma> m) = set m"
  by (meson mset_eq_setD range_orderD)

lemma range_order_length [simp]: "range_order \<sigma> \<Longrightarrow> length (\<sigma> m) = length m"
  by (metis range_orderD size_mset)

lemma range_order_wf [simp]: "range_order \<sigma> \<Longrightarrow> gm_wf (\<sigma> m) = gm_wf m"
  by (meson gm_wf_perm range_orderD)

lemma range_order_get: "range_order \<sigma> \<Longrightarrow> gm_wf m \<Longrightarrow> map_of (\<sigma> m) = map_of m"
  by (rule gm_get_perm) (simp_all add: range_orderD)

lemma range_order_id: "range_order (\<lambda>m. m)"
  by (simp add: range_order_def)

lemma range_order_rev: "range_order rev"
  by (simp add: range_order_def)

section \<open>Lemmas on integers and strings\<close>

lemma wrap64_id: "- (2 ^ 63) \<le> x \<Longrightarrow> x < 2 ^ 63 \<Longrightarrow> wrap64 x = x"
  by (simp add: wrap64_def)

lemma wrap64_bounds: "- (2 ^ 63) \<le> wrap64 x \<and> wrap64 x < 2 ^ 63"
proof -
  have "0 \<le> (x + 2 ^ 63) mod 2 ^ 64" and "(x + 2 ^ 63) mod 2 ^ 64 < 2 ^ 64"
    by (rule pos_mod_sign pos_mod_bound; simp)+
  then show ?thesis by (simp add: wrap64_def)
qed

lemma HasPrefix_iff: "HasPrefix s p \<longleftrightarrow> (\<exists>t. s = p @ t)"
  by (metis HasPrefix_def append_eq_conv_conj append_take_drop_id)

lemma HasPrefix_append [simp]: "HasPrefix (p @ t) p"
  by (simp add: HasPrefix_def)

lemma HasPrefix_length: "HasPrefix s p \<Longrightarrow> length p \<le> length s"
  by (auto simp: HasPrefix_iff)

lemma TrimPrefix_append [simp]: "TrimPrefix (p @ t) p = t"
  by (simp add: TrimPrefix_def)

lemma TrimPrefix_parts: "HasPrefix s p \<Longrightarrow> p @ TrimPrefix s p = s"
  by (auto simp: HasPrefix_iff)

lemma split_on_nonempty [simp]: "split_on c s \<noteq> []"
  by (induction s) (auto split: list.splits)

lemma join_split [simp]: "join_with c (split_on c s) = s"
proof (induction s)
  case (Cons x xs)
  then show ?case
    by (cases "split_on c xs"; cases "tl (split_on c xs)") (auto split: list.splits)
qed simp

lemma last_index_None: "last_index c s = None \<longleftrightarrow> c \<notin> set s"
  by (induction s) (auto split: option.splits)

lemma last_index_append: "c \<notin> set b \<Longrightarrow> last_index c (a @ c # b) = Some (length a)"
  by (induction a) (auto simp: last_index_None [THEN iffD2])

lemma EqualFold_refl [simp]: "EqualFold s s"
  by (simp add: EqualFold_def)

lemma hex_digit_inj: "a < 16 \<Longrightarrow> b < 16 \<Longrightarrow> hex_digit a = hex_digit b \<longleftrightarrow> a = b"
  unfolding hex_digit_def by (rule nth_eq_iff_index_eq) simp_all

text \<open>The hexadecimal form determines the bytes.\<close>

lemma hex_encode_inj: "hex_encode xs = hex_encode ys \<longleftrightarrow> xs = ys"
proof (induction xs arbitrary: ys)
  case Nil
  then show ?case by (cases ys) (simp_all add: hex_encode_def Let_def)
next
  case (Cons x xs)
  have byte: "hex_digit (of_char x div 16) = hex_digit (of_char y div 16) \<and> hex_digit (of_char x mod 16) = hex_digit (of_char y mod 16) \<longleftrightarrow> x = y"
    for y :: char
  proof -
    have "(of_char c :: nat) div 16 < 16" "(of_char c :: nat) mod 16 < 16" for c :: char
      using nat_of_char_less_256 [of c] by (simp_all add: less_mult_imp_div_less del: nat_of_char_less_256)
    then show ?thesis by (metis hex_digit_inj div_mult_mod_eq of_char_eq_iff)
  qed
  show ?case using Cons.IH byte by (cases ys) (auto simp: hex_encode_def Let_def)
qed

end
