(* ===== verification/Store.thy ===== *)
theory Store
  imports Helix_Prelude
begin

text \<open>
  The configuration store of \<open>internal/store\<close>: the data model of \<open>model.go\<close> and every operation of
  \<open>store.go\<close>. Each operation takes what the run time supplies to one call (\<open>store_env\<close>: the clock,
  the identifier from \<open>uuid.NewString\<close>, the outcome of the file operations and the order of map
  iteration) and the store, and returns its result with the store after it. All operations hold the
  store's lock for their whole body, so a run of the program is a sequence of them.

  Routes, upstreams and policies are held by value: each stored object has one owner, its map. API
  keys are held by reference, because \<open>apiKeys\<close> and \<open>hashIndex\<close> share their objects and
  \<open>CreateAPIKey\<close> writes to an object after both maps point to it: \<open>st_heap\<close> holds the objects and
  the two maps hold their addresses.

  A file holds the JSON text of a snapshot or something that does not parse; decoding the text of a
  snapshot gives the snapshot back.
\<close>

section \<open>Data model\<close>

definition PathModePrefix :: string where "PathModePrefix = ''prefix''"
definition PathModeExact :: string where "PathModeExact = ''exact''"
definition PathModeRegex :: string where "PathModeRegex = ''regex''"

record WeightedUpstream =
  wu_UpstreamID :: string
  wu_Weight :: int

record MatchRule =
  m_Hosts :: "string list"
  m_Path :: string
  m_PathMode :: string
  m_Methods :: "string list"
  m_Headers :: "(string, string) gomap"

record PluginRef =
  p_Name :: string
  p_Config :: "(string, any) gomap"

record Route =
  r_ID :: string
  r_Name :: string
  r_Active :: bool
  r_Match :: MatchRule
  r_UpstreamID :: string
  r_Plugins :: "PluginRef list"
  r_StripPath :: bool
  r_WeightedUpstreams :: "WeightedUpstream list"
  r_CreatedAt :: int
  r_UpdatedAt :: int

record Upstream =
  u_ID :: string
  u_Name :: string
  u_URL :: string
  u_Protocol :: string
  u_Endpoints :: "string list"
  u_LBAlgorithm :: string
  u_HealthPath :: string
  u_CreatedAt :: int
  u_UpdatedAt :: int

record IPPolicy =
  ip_ID :: string
  ip_Name :: string
  ip_Mode :: string
  ip_CIDRs :: "string list"
  ip_Active :: bool
  ip_CreatedAt :: int
  ip_UpdatedAt :: int

record APIKey =
  k_ID :: string
  k_Name :: string
  k_KeyHash :: string
  k_Active :: bool
  k_Scopes :: "string list"
  k_CreatedAt :: int
  k_UpdatedAt :: int

record snapshot =
  sn_Version :: int
  sn_Routes :: "Route list"
  sn_Upstreams :: "Upstream list"
  sn_IPPolicies :: "IPPolicy list"
  sn_APIKeys :: "APIKey list"

section \<open>Errors and environment\<close>

datatype io_error = MarshalError | WriteError | RenameError | ReadError | ParseError | NotExist

text \<open>\<open>ErrUpstream\<close> is \<open>ErrNotFound\<close> wrapped with the identifier of the missing upstream.\<close>

datatype store_err =
  ErrNotFound | ErrInUse | ErrConflict | ErrUpstream string | ErrHashRequired | ErrIO io_error

datatype stored_file = JSON snapshot | Corrupt

text \<open>What the file operations of one call do; a failed write leaves anything in the temporary file.\<close>

datatype persist_io = IO_ok | IO_marshal_fails | IO_write_fails "stored_file option" | IO_rename_fails

record range_orders =
  ord_routes :: "(string, Route) gomap \<Rightarrow> (string, Route) gomap"
  ord_upstreams :: "(string, Upstream) gomap \<Rightarrow> (string, Upstream) gomap"
  ord_policies :: "(string, IPPolicy) gomap \<Rightarrow> (string, IPPolicy) gomap"
  ord_keys :: "(string, nat) gomap \<Rightarrow> (string, nat) gomap"

definition fair_orders :: "range_orders \<Rightarrow> bool" where
  "fair_orders os \<longleftrightarrow> range_order (ord_routes os) \<and> range_order (ord_upstreams os) \<and>
     range_order (ord_policies os) \<and> range_order (ord_keys os)"

record store_env =
  env_now :: int
  env_uuid :: string
  env_io :: persist_io
  env_orders :: range_orders

record store =
  st_routes :: "(string, Route) gomap"
  st_upstreams :: "(string, Upstream) gomap"
  st_policies :: "(string, IPPolicy) gomap"
  st_heap :: "APIKey list"
  st_apiKeys :: "(string, nat) gomap"
  st_hashIndex :: "(string, nat) gomap"
  st_filePath :: string
  st_fs :: "string \<rightharpoonup> stored_file"
  st_listeners :: "nat list"
  st_spawned :: "nat list"

section \<open>Persistence\<close>

definition Export :: "range_orders \<Rightarrow> store \<Rightarrow> snapshot" where
  "Export os s = \<lparr>
     sn_Version = 1,
     sn_Routes = map snd (ord_routes os (st_routes s)),
     sn_Upstreams = map snd (ord_upstreams os (st_upstreams s)),
     sn_IPPolicies = map snd (ord_policies os (st_policies s)),
     sn_APIKeys = map (\<lambda>(rid, a). st_heap s ! a) (ord_keys os (st_apiKeys s)) \<rparr>"

definition tmp_path :: "store \<Rightarrow> string" where
  "tmp_path s = st_filePath s @ ''.tmp''"

definition persist :: "store_env \<Rightarrow> store \<Rightarrow> io_error option \<times> store" where
  "persist e s =
     (if st_filePath s = '''' then (None, s)
      else let snap = Export (env_orders e) s in
        case env_io e of
          IO_marshal_fails \<Rightarrow> (Some MarshalError, s)
        | IO_write_fails junk \<Rightarrow> (Some WriteError, s\<lparr> st_fs := (st_fs s)(tmp_path s := junk) \<rparr>)
        | IO_rename_fails \<Rightarrow>
            (Some RenameError, s\<lparr> st_fs := (st_fs s)(tmp_path s \<mapsto> JSON snap) \<rparr>)
        | IO_ok \<Rightarrow>
            (None, s\<lparr> st_fs := (st_fs s)(tmp_path s := None, st_filePath s \<mapsto> JSON snap) \<rparr>))"

definition notify :: "store \<Rightarrow> store" where
  "notify s = s\<lparr> st_spawned := st_spawned s @ st_listeners s \<rparr>"

definition OnChange :: "nat \<Rightarrow> store \<Rightarrow> store" where
  "OnChange fn s = s\<lparr> st_listeners := st_listeners s @ [fn] \<rparr>"

text \<open>\<open>load\<close> and \<open>New\<close>: the maps filled from the lists of a snapshot, in their order.\<close>

definition load_key :: "APIKey \<Rightarrow> store \<Rightarrow> store" where
  "load_key k s =
     (let a = length (st_heap s);
          s1 = s\<lparr> st_heap := st_heap s @ [k], st_apiKeys := gm_put (k_ID k) a (st_apiKeys s) \<rparr>
      in if k_KeyHash k \<noteq> '''' then s1\<lparr> st_hashIndex := gm_put (k_KeyHash k) a (st_hashIndex s1) \<rparr>
         else s1)"

definition load_snapshot :: "snapshot \<Rightarrow> store \<Rightarrow> store" where
  "load_snapshot snap s =
     fold load_key (sn_APIKeys snap)
       (s\<lparr> st_routes := fold (\<lambda>r. gm_put (r_ID r) r) (sn_Routes snap) (st_routes s),
           st_upstreams := fold (\<lambda>u. gm_put (u_ID u) u) (sn_Upstreams snap) (st_upstreams s),
           st_policies := fold (\<lambda>p. gm_put (ip_ID p) p) (sn_IPPolicies snap) (st_policies s) \<rparr>)"

definition load :: "bool \<Rightarrow> store \<Rightarrow> io_error option \<times> store" where
  "load readable s =
     (if st_filePath s = '''' then (None, s)
      else case st_fs s (st_filePath s) of
        None \<Rightarrow> (Some NotExist, s)
      | Some f \<Rightarrow>
          if \<not> readable then (Some ReadError, s)
          else (case f of Corrupt \<Rightarrow> (Some ParseError, s) | JSON snap \<Rightarrow> (None, load_snapshot snap s)))"

definition empty_store :: "string \<Rightarrow> (string \<rightharpoonup> stored_file) \<Rightarrow> store" where
  "empty_store path fs = \<lparr> st_routes = [], st_upstreams = [], st_policies = [], st_heap = [],
     st_apiKeys = [], st_hashIndex = [], st_filePath = path, st_fs = fs,
     st_listeners = [], st_spawned = [] \<rparr>"

definition New :: "bool \<Rightarrow> string \<Rightarrow> (string \<rightharpoonup> stored_file) \<Rightarrow> io_error + store" where
  "New readable path fs =
     (case load readable (empty_store path fs) of
        (None, s) \<Rightarrow> Inr s
      | (Some err, s) \<Rightarrow> if err \<noteq> NotExist then Inl err else Inr s)"

section \<open>Routes\<close>

definition ListRoutes :: "range_orders \<Rightarrow> store \<Rightarrow> Route list" where
  "ListRoutes os s = map snd (ord_routes os (st_routes s))"

definition GetRoute :: "string \<Rightarrow> store \<Rightarrow> store_err + Route" where
  "GetRoute rid s = (case map_of (st_routes s) rid of None \<Rightarrow> Inl ErrNotFound | Some r \<Rightarrow> Inr r)"

definition CreateRoute :: "store_env \<Rightarrow> Route \<Rightarrow> store \<Rightarrow> (store_err + Route) \<times> store" where
  "CreateRoute e r s =
     (if list_ex (\<lambda>(_, existing). r_Name existing = r_Name r) (st_routes s) then (Inl ErrConflict, s)
      else if r_UpstreamID r \<noteq> '''' \<and> map_of (st_upstreams s) (r_UpstreamID r) = None
      then (Inl (ErrUpstream (r_UpstreamID r)), s)
      else
        let cp = r\<lparr> r_ID := env_uuid e, r_CreatedAt := env_now e, r_UpdatedAt := env_now e \<rparr>;
            s1 = s\<lparr> st_routes := gm_put (env_uuid e) cp (st_routes s) \<rparr>
        in case persist e s1 of
             (Some err, s2) \<Rightarrow>
               (Inl (ErrIO err), s2\<lparr> st_routes := gm_del (env_uuid e) (st_routes s2) \<rparr>)
           | (None, s2) \<Rightarrow> (Inr cp, notify s2))"

definition UpdateRoute :: "store_env \<Rightarrow> string \<Rightarrow> Route \<Rightarrow> store \<Rightarrow> (store_err + Route) \<times> store" where
  "UpdateRoute e rid patch s =
     (case map_of (st_routes s) rid of
        None \<Rightarrow> (Inl ErrNotFound, s)
      | Some existing \<Rightarrow>
          if r_UpstreamID patch \<noteq> '''' \<and> map_of (st_upstreams s) (r_UpstreamID patch) = None
          then (Inl (ErrUpstream (r_UpstreamID patch)), s)
          else if list_ex (\<lambda>(k, r). r_Name r = r_Name patch \<and> k \<noteq> rid) (st_routes s)
          then (Inl ErrConflict, s)
          else
            let cp = patch\<lparr> r_ID := r_ID existing, r_CreatedAt := r_CreatedAt existing,
                            r_UpdatedAt := env_now e \<rparr>;
                s1 = s\<lparr> st_routes := gm_put rid cp (st_routes s) \<rparr>
            in case persist e s1 of
                 (Some err, s2) \<Rightarrow>
                   (Inl (ErrIO err), s2\<lparr> st_routes := gm_put rid existing (st_routes s2) \<rparr>)
               | (None, s2) \<Rightarrow> (Inr cp, notify s2))"

definition DeleteRoute :: "store_env \<Rightarrow> string \<Rightarrow> store \<Rightarrow> store_err option \<times> store" where
  "DeleteRoute e rid s =
     (case map_of (st_routes s) rid of
        None \<Rightarrow> (Some ErrNotFound, s)
      | Some backup \<Rightarrow>
          (case persist e (s\<lparr> st_routes := gm_del rid (st_routes s) \<rparr>) of
             (Some err, s2) \<Rightarrow>
               (Some (ErrIO err), s2\<lparr> st_routes := gm_put rid backup (st_routes s2) \<rparr>)
           | (None, s2) \<Rightarrow> (None, notify s2)))"

definition ToggleRoute :: "store_env \<Rightarrow> string \<Rightarrow> bool \<Rightarrow> store \<Rightarrow> (store_err + Route) \<times> store" where
  "ToggleRoute e rid active s =
     (case map_of (st_routes s) rid of
        None \<Rightarrow> (Inl ErrNotFound, s)
      | Some r \<Rightarrow>
          let r' = r\<lparr> r_Active := active, r_UpdatedAt := env_now e \<rparr>
          in case persist e (s\<lparr> st_routes := gm_put rid r' (st_routes s) \<rparr>) of
               (Some err, s2) \<Rightarrow> (Inl (ErrIO err), s2)
             | (None, s2) \<Rightarrow> (Inr r', notify s2))"

section \<open>Upstreams\<close>

definition ListUpstreams :: "range_orders \<Rightarrow> store \<Rightarrow> Upstream list" where
  "ListUpstreams os s = map snd (ord_upstreams os (st_upstreams s))"

definition GetUpstream :: "string \<Rightarrow> store \<Rightarrow> store_err + Upstream" where
  "GetUpstream rid s = (case map_of (st_upstreams s) rid of None \<Rightarrow> Inl ErrNotFound | Some u \<Rightarrow> Inr u)"

definition CreateUpstream :: "store_env \<Rightarrow> Upstream \<Rightarrow> store \<Rightarrow> (store_err + Upstream) \<times> store" where
  "CreateUpstream e u s =
     (if list_ex (\<lambda>(_, existing). u_Name existing = u_Name u) (st_upstreams s)
      then (Inl ErrConflict, s)
      else
        let cp = u\<lparr> u_ID := env_uuid e, u_CreatedAt := env_now e, u_UpdatedAt := env_now e \<rparr>;
            s1 = s\<lparr> st_upstreams := gm_put (env_uuid e) cp (st_upstreams s) \<rparr>
        in case persist e s1 of
             (Some err, s2) \<Rightarrow>
               (Inl (ErrIO err), s2\<lparr> st_upstreams := gm_del (env_uuid e) (st_upstreams s2) \<rparr>)
           | (None, s2) \<Rightarrow> (Inr cp, notify s2))"

definition UpdateUpstream ::
  "store_env \<Rightarrow> string \<Rightarrow> Upstream \<Rightarrow> store \<Rightarrow> (store_err + Upstream) \<times> store" where
  "UpdateUpstream e rid patch s =
     (case map_of (st_upstreams s) rid of
        None \<Rightarrow> (Inl ErrNotFound, s)
      | Some existing \<Rightarrow>
          if list_ex (\<lambda>(uid, u). u_Name u = u_Name patch \<and> uid \<noteq> rid) (st_upstreams s)
          then (Inl ErrConflict, s)
          else
            let cp = patch\<lparr> u_ID := u_ID existing, u_CreatedAt := u_CreatedAt existing,
                            u_UpdatedAt := env_now e \<rparr>;
                s1 = s\<lparr> st_upstreams := gm_put rid cp (st_upstreams s) \<rparr>
            in case persist e s1 of
                 (Some err, s2) \<Rightarrow>
                   (Inl (ErrIO err), s2\<lparr> st_upstreams := gm_put rid existing (st_upstreams s2) \<rparr>)
               | (None, s2) \<Rightarrow> (Inr cp, notify s2))"

definition DeleteUpstream :: "store_env \<Rightarrow> string \<Rightarrow> store \<Rightarrow> store_err option \<times> store" where
  "DeleteUpstream e rid s =
     (case map_of (st_upstreams s) rid of
        None \<Rightarrow> (Some ErrNotFound, s)
      | Some backup \<Rightarrow>
          if list_ex (\<lambda>(_, r). r_UpstreamID r = rid) (st_routes s) then (Some ErrInUse, s)
          else
            (case persist e (s\<lparr> st_upstreams := gm_del rid (st_upstreams s) \<rparr>) of
               (Some err, s2) \<Rightarrow>
                 (Some (ErrIO err), s2\<lparr> st_upstreams := gm_put rid backup (st_upstreams s2) \<rparr>)
             | (None, s2) \<Rightarrow> (None, notify s2)))"

section \<open>IP policies\<close>

definition ListIPPolicies :: "range_orders \<Rightarrow> store \<Rightarrow> IPPolicy list" where
  "ListIPPolicies os s = map snd (ord_policies os (st_policies s))"

definition GetIPPolicy :: "string \<Rightarrow> store \<Rightarrow> store_err + IPPolicy" where
  "GetIPPolicy rid s = (case map_of (st_policies s) rid of None \<Rightarrow> Inl ErrNotFound | Some p \<Rightarrow> Inr p)"

definition CreateIPPolicy :: "store_env \<Rightarrow> IPPolicy \<Rightarrow> store \<Rightarrow> (store_err + IPPolicy) \<times> store" where
  "CreateIPPolicy e p s =
     (if list_ex (\<lambda>(_, existing). ip_Name existing = ip_Name p) (st_policies s)
      then (Inl ErrConflict, s)
      else
        let cp = p\<lparr> ip_ID := env_uuid e, ip_CreatedAt := env_now e, ip_UpdatedAt := env_now e \<rparr>;
            s1 = s\<lparr> st_policies := gm_put (env_uuid e) cp (st_policies s) \<rparr>
        in case persist e s1 of
             (Some err, s2) \<Rightarrow>
               (Inl (ErrIO err), s2\<lparr> st_policies := gm_del (env_uuid e) (st_policies s2) \<rparr>)
           | (None, s2) \<Rightarrow> (Inr cp, notify s2))"

definition UpdateIPPolicy ::
  "store_env \<Rightarrow> string \<Rightarrow> IPPolicy \<Rightarrow> store \<Rightarrow> (store_err + IPPolicy) \<times> store" where
  "UpdateIPPolicy e rid patch s =
     (case map_of (st_policies s) rid of
        None \<Rightarrow> (Inl ErrNotFound, s)
      | Some existing \<Rightarrow>
          if list_ex (\<lambda>(pid, p). ip_Name p = ip_Name patch \<and> pid \<noteq> rid) (st_policies s)
          then (Inl ErrConflict, s)
          else
            let cp = patch\<lparr> ip_ID := ip_ID existing, ip_CreatedAt := ip_CreatedAt existing,
                            ip_UpdatedAt := env_now e \<rparr>;
                s1 = s\<lparr> st_policies := gm_put rid cp (st_policies s) \<rparr>
            in case persist e s1 of
                 (Some err, s2) \<Rightarrow>
                   (Inl (ErrIO err), s2\<lparr> st_policies := gm_put rid existing (st_policies s2) \<rparr>)
               | (None, s2) \<Rightarrow> (Inr cp, notify s2))"

definition DeleteIPPolicy :: "store_env \<Rightarrow> string \<Rightarrow> store \<Rightarrow> store_err option \<times> store" where
  "DeleteIPPolicy e rid s =
     (case map_of (st_policies s) rid of
        None \<Rightarrow> (Some ErrNotFound, s)
      | Some backup \<Rightarrow>
          (case persist e (s\<lparr> st_policies := gm_del rid (st_policies s) \<rparr>) of
             (Some err, s2) \<Rightarrow>
               (Some (ErrIO err), s2\<lparr> st_policies := gm_put rid backup (st_policies s2) \<rparr>)
           | (None, s2) \<Rightarrow> (None, notify s2)))"

definition ToggleIPPolicy ::
  "store_env \<Rightarrow> string \<Rightarrow> bool \<Rightarrow> store \<Rightarrow> (store_err + IPPolicy) \<times> store" where
  "ToggleIPPolicy e rid active s =
     (case map_of (st_policies s) rid of
        None \<Rightarrow> (Inl ErrNotFound, s)
      | Some p \<Rightarrow>
          let p' = p\<lparr> ip_Active := active, ip_UpdatedAt := env_now e \<rparr>
          in case persist e (s\<lparr> st_policies := gm_put rid p' (st_policies s) \<rparr>) of
               (Some err, s2) \<Rightarrow> (Inl (ErrIO err), s2)
             | (None, s2) \<Rightarrow> (Inr p', notify s2))"

section \<open>API keys\<close>

text \<open>
  \<open>hashKey\<close> and \<open>GenerateAPIKey\<close>. \<open>Sum256\<close> stands for \<open>sha256.Sum256\<close>, from bytes to bytes;
  \<open>rnd\<close> is what \<open>rand.Read\<close> puts into the 32-byte buffer, \<open>None\<close> when it fails.
\<close>

definition b64_alphabet :: string where
  "b64_alphabet = ''ABCDEFGHIJKLMNOPQRSTUVWXYZabcdefghijklmnopqrstuvwxyz0123456789-_''"

definition b64_digit :: "nat \<Rightarrow> char" where
  "b64_digit n = b64_alphabet ! (n mod 64)"

fun RawURLEncoding :: "string \<Rightarrow> string" where
  "RawURLEncoding [] = []"
| "RawURLEncoding [a] =
     (let n = (of_char a :: nat) * 65536 in [b64_digit (n div 262144), b64_digit (n div 4096)])"
| "RawURLEncoding [a, b] =
     (let n = (of_char a :: nat) * 65536 + of_char b * 256
      in [b64_digit (n div 262144), b64_digit (n div 4096), b64_digit (n div 64)])"
| "RawURLEncoding (a # b # c # cs) =
     (let n = (of_char a :: nat) * 65536 + of_char b * 256 + of_char c
      in b64_digit (n div 262144) # b64_digit (n div 4096) # b64_digit (n div 64) # b64_digit n #
         RawURLEncoding cs)"

definition hashKey :: "(string \<Rightarrow> string) \<Rightarrow> string \<Rightarrow> string" where
  "hashKey Sum256 plaintext = hex_encode (Sum256 plaintext)"

definition GenerateAPIKey :: "(string \<Rightarrow> string) \<Rightarrow> string option \<Rightarrow> (string \<times> string) option" where
  "GenerateAPIKey Sum256 rnd =
     (case rnd of
        None \<Rightarrow> None
      | Some b \<Rightarrow>
          let plaintext = RawURLEncoding b
          in Some (plaintext, hex_encode (Sum256 plaintext)))"

definition ListAPIKeys :: "range_orders \<Rightarrow> store \<Rightarrow> APIKey list" where
  "ListAPIKeys os s =
     map (\<lambda>(rid, a). (st_heap s ! a)\<lparr> k_KeyHash := '''' \<rparr>) (ord_keys os (st_apiKeys s))"

definition GetAPIKey :: "string \<Rightarrow> store \<Rightarrow> store_err + APIKey" where
  "GetAPIKey rid s =
     (case map_of (st_apiKeys s) rid of
        None \<Rightarrow> Inl ErrNotFound
      | Some a \<Rightarrow> Inr ((st_heap s ! a)\<lparr> k_KeyHash := '''' \<rparr>))"

definition CreateAPIKey :: "store_env \<Rightarrow> APIKey \<Rightarrow> store \<Rightarrow> (store_err + APIKey) \<times> store" where
  "CreateAPIKey e k s =
     (if list_ex (\<lambda>(_, a). k_Name (st_heap s ! a) = k_Name k) (st_apiKeys s) then (Inl ErrConflict, s)
      else if k_KeyHash k = '''' then (Inl ErrHashRequired, s)
      else
        let cp = k\<lparr> k_ID := env_uuid e, k_CreatedAt := env_now e, k_UpdatedAt := env_now e \<rparr>;
            a = length (st_heap s);
            s1 = s\<lparr> st_heap := st_heap s @ [cp],
                    st_apiKeys := gm_put (env_uuid e) a (st_apiKeys s),
                    st_hashIndex := gm_put (k_KeyHash k) a (st_hashIndex s) \<rparr>
        in case persist e s1 of
             (Some err, s2) \<Rightarrow>
               (Inl (ErrIO err),
                s2\<lparr> st_apiKeys := gm_del (env_uuid e) (st_apiKeys s2),
                    st_hashIndex := gm_del (k_KeyHash k) (st_hashIndex s2) \<rparr>)
           | (None, s2) \<Rightarrow>
               (let cp' = cp\<lparr> k_KeyHash := '''' \<rparr>
                in (Inr cp', s2\<lparr> st_heap := (st_heap s2)[a := cp'] \<rparr>)))"

definition DeleteAPIKey :: "store_env \<Rightarrow> string \<Rightarrow> store \<Rightarrow> store_err option \<times> store" where
  "DeleteAPIKey e rid s =
     (case map_of (st_apiKeys s) rid of
        None \<Rightarrow> (Some ErrNotFound, s)
      | Some a \<Rightarrow>
          let h = k_KeyHash (st_heap s ! a);
              s1 = s\<lparr> st_hashIndex := gm_del h (st_hashIndex s),
                      st_apiKeys := gm_del rid (st_apiKeys s) \<rparr>
          in case persist e s1 of
               (Some err, s2) \<Rightarrow>
                 (Some (ErrIO err),
                  s2\<lparr> st_apiKeys := gm_put rid a (st_apiKeys s2),
                      st_hashIndex := gm_put h a (st_hashIndex s2) \<rparr>)
             | (None, s2) \<Rightarrow> (None, s2))"

definition ToggleAPIKey :: "store_env \<Rightarrow> string \<Rightarrow> bool \<Rightarrow> store \<Rightarrow> (store_err + APIKey) \<times> store" where
  "ToggleAPIKey e rid active s =
     (case map_of (st_apiKeys s) rid of
        None \<Rightarrow> (Inl ErrNotFound, s)
      | Some a \<Rightarrow>
          let k = (st_heap s ! a)\<lparr> k_Active := active, k_UpdatedAt := env_now e \<rparr>
          in case persist e (s\<lparr> st_heap := (st_heap s)[a := k] \<rparr>) of
               (Some err, s2) \<Rightarrow> (Inl (ErrIO err), s2)
             | (None, s2) \<Rightarrow> (Inr (k\<lparr> k_KeyHash := '''' \<rparr>), s2))"

definition ValidateAPIKey :: "(string \<Rightarrow> string) \<Rightarrow> string \<Rightarrow> store \<Rightarrow> APIKey option" where
  "ValidateAPIKey Sum256 plaintext s =
     (case map_of (st_hashIndex s) (hashKey Sum256 plaintext) of
        None \<Rightarrow> None
      | Some a \<Rightarrow>
          if \<not> k_Active (st_heap s ! a) then None else Some ((st_heap s ! a)\<lparr> k_KeyHash := '''' \<rparr>))"

end
