(* ===== verification/Health.thy ===== *)
theory Health
  imports Store
begin

text \<open>
  The health checker of \<open>internal/health/checker.go\<close>: its table of endpoint states, one round of probes
  (\<open>probeAll\<close>) and the reading operations. \<open>Start\<close> runs \<open>probeAll\<close> at once and then on every tick of a
  timer, so its effect is a sequence of rounds. The HTTP client is the parameter \<open>Get\<close>: the error text
  of a failed request, or the status of the response.
\<close>

section \<open>State and operations\<close>

record State =
  hs_Healthy :: bool
  hs_LastCheck :: int
  hs_Error :: string

type_synonym checker = "(string, State) gomap"

definition health_New :: checker where
  "health_New = []"

definition markHealthy :: "int \<Rightarrow> string \<Rightarrow> checker \<Rightarrow> checker" where
  "markHealthy now url c = gm_put url \<lparr> hs_Healthy = True, hs_LastCheck = now, hs_Error = '''' \<rparr> c"

definition markUnhealthy :: "int \<Rightarrow> string \<Rightarrow> string \<Rightarrow> checker \<Rightarrow> checker" where
  "markUnhealthy now url errMsg c = gm_put url \<lparr> hs_Healthy = False, hs_LastCheck = now, hs_Error = errMsg \<rparr> c"

text \<open>Decimal digits of a number, as \<open>%d\<close> prints it.\<close>

fun nat_digits :: "nat \<Rightarrow> string" where
  "nat_digits n = (if n < 10 then [char_of (48 + n)] else nat_digits (n div 10) @ [char_of (48 + n mod 10)])"

definition int_digits :: "int \<Rightarrow> string" where
  "int_digits i = (if i < 0 then CHR ''-'' # nat_digits (nat (- i)) else nat_digits (nat i))"

text \<open>\<open>None\<close> is a nil error.\<close>

definition probe :: "(string \<Rightarrow> string + int) \<Rightarrow> string \<Rightarrow> string option" where
  "probe Get url =
     (case Get url of
        Inl err \<Rightarrow> Some err
      | Inr status \<Rightarrow> if status \<ge> 500 then Some (''status '' @ int_digits status) else None)"

definition upstreamURLs :: "Upstream \<Rightarrow> string list" where
  "upstreamURLs u = (if u_Endpoints u \<noteq> [] then u_Endpoints u else if u_URL u \<noteq> '''' then [u_URL u] else [])"

definition probe_one :: "int \<Rightarrow> (string \<Rightarrow> string + int) \<Rightarrow> Upstream \<Rightarrow> string \<Rightarrow> checker \<Rightarrow> checker" where
  "probe_one now Get u url c =
     (if u_HealthPath u = '''' then markHealthy now url c
      else case probe Get (url @ u_HealthPath u) of
             Some err \<Rightarrow> markUnhealthy now url err c
           | None \<Rightarrow> markHealthy now url c)"

definition probeAll :: "int \<Rightarrow> (string \<Rightarrow> string + int) \<Rightarrow> range_orders \<Rightarrow> store \<Rightarrow> checker \<Rightarrow> checker" where
  "probeAll now Get os s c =
     fold (\<lambda>u. fold (probe_one now Get u) (upstreamURLs u)) (ListUpstreams os s) c"

definition IsHealthy :: "string \<Rightarrow> checker \<Rightarrow> bool" where
  "IsHealthy url c = (case map_of c url of None \<Rightarrow> True | Some st \<Rightarrow> hs_Healthy st)"

definition States :: "((string, State) gomap \<Rightarrow> (string, State) gomap) \<Rightarrow> checker \<Rightarrow> (string, State) gomap" where
  "States order c = fold (\<lambda>(k, v). gm_put k v) (order c) []"

text \<open>
  \<open>Start\<close>: one round at once, then one for every tick until the context is done. A round sees the store, the
  clock and the network as they are at the time. The interval is that of the ticker.
\<close>

record probe_round =
  pr_now :: int
  pr_Get :: "string \<Rightarrow> string + int"
  pr_orders :: range_orders
  pr_store :: store

definition run_round :: "probe_round \<Rightarrow> checker \<Rightarrow> checker" where
  "run_round p c = probeAll (pr_now p) (pr_Get p) (pr_orders p) (pr_store p) c"

datatype checker_event = Ticked probe_round | CtxDone

fun checker_loop :: "checker_event list \<Rightarrow> checker \<Rightarrow> checker" where
  "checker_loop [] c = c"
| "checker_loop (CtxDone # evs) c = c"
| "checker_loop (Ticked p # evs) c = checker_loop evs (run_round p c)"

definition start_interval :: "int \<Rightarrow> int" where
  "start_interval interval = (if interval \<le> 0 then 10000000000 else interval)"

definition checker_Start :: "probe_round \<Rightarrow> checker_event list \<Rightarrow> checker \<Rightarrow> checker" where
  "checker_Start first evs c = checker_loop evs (run_round first c)"

section \<open>Lemmas\<close>

text \<open>What one probe says of an endpoint of an upstream.\<close>

definition endpoint_up :: "(string \<Rightarrow> string + int) \<Rightarrow> Upstream \<Rightarrow> string \<Rightarrow> bool" where
  "endpoint_up Get u url \<longleftrightarrow> u_HealthPath u = '''' \<or> probe Get (url @ u_HealthPath u) = None"

lemma probe_one_IsHealthy:
  "IsHealthy x (probe_one now Get u url c) = (if x = url then endpoint_up Get u url else IsHealthy x c)"
  by (auto simp: IsHealthy_def probe_one_def markHealthy_def markUnhealthy_def endpoint_up_def split: option.split)

lemma probe_urls_IsHealthy:
  "IsHealthy x (fold (probe_one now Get u) urls c) = (if x \<in> set urls then endpoint_up Get u x else IsHealthy x c)"
  by (induction urls arbitrary: c) (auto simp: probe_one_IsHealthy)

text \<open>A round over a list of upstreams: the last one that lists the endpoint decides.\<close>

lemma probe_round_IsHealthy:
  "IsHealthy x (fold (\<lambda>u. fold (probe_one now Get u) (upstreamURLs u)) us c) =
     (case filter (\<lambda>u. x \<in> set (upstreamURLs u)) us of
        [] \<Rightarrow> IsHealthy x c
      | vs \<Rightarrow> endpoint_up Get (last vs) x)"
  by (induction us arbitrary: c) (auto simp: probe_urls_IsHealthy split: list.split)

section \<open>Properties\<close>

text \<open>
  After a round of probes an endpoint is healthy exactly when its probe succeeded, provided the
  upstreams that list it agree; an endpoint of no upstream keeps its state, and one that was never probed
  counts as healthy. The order in which the upstreams are visited does not matter.
\<close>
theorem probe_round_sets_health:
  assumes "fair_orders os" and "gm_wf (st_upstreams s)"
    and "\<And>k u. map_of (st_upstreams s) k = Some u \<Longrightarrow> url \<in> set (upstreamURLs u) \<Longrightarrow> endpoint_up Get u url = up"
  defines "listed \<equiv> \<exists>k u. map_of (st_upstreams s) k = Some u \<and> url \<in> set (upstreamURLs u)"
  shows "IsHealthy url (probeAll now Get os s c) = (if listed then up else IsHealthy url c) \<and> IsHealthy url health_New"
proof -
  let ?us = "ListUpstreams os s"
  have mem: "u \<in> set ?us \<longleftrightarrow> (\<exists>k. map_of (st_upstreams s) k = Some u)" for u
    using assms(1,2) by (force simp: ListUpstreams_def fair_orders_def image_iff gm_mem_iff [symmetric])
  let ?vs = "filter (\<lambda>u. url \<in> set (upstreamURLs u)) ?us"
  have "IsHealthy url (probeAll now Get os s c) = (if listed then up else IsHealthy url c)"
  proof (cases "?vs = []")
    case True
    then have "\<not> listed" using mem by (auto simp: listed_def filter_empty_conv)
    with True show ?thesis by (simp add: probeAll_def probe_round_IsHealthy)
  next
    case False
    then have "last ?vs \<in> set ?vs" by (rule last_in_set)
    then obtain k where k: "map_of (st_upstreams s) k = Some (last ?vs)" "url \<in> set (upstreamURLs (last ?vs))"
      using mem by auto
    then have "listed" "endpoint_up Get (last ?vs) url = up" using assms(3) by (auto simp: listed_def)
    moreover have "IsHealthy url (probeAll now Get os s c) = endpoint_up Get (last ?vs) url"
      using False by (cases ?vs) (simp_all add: probeAll_def probe_round_IsHealthy)
    ultimately show ?thesis by simp
  qed
  then show ?thesis by (simp add: IsHealthy_def health_New_def)
qed

text \<open>What a round says of an endpoint: whether some upstream lists it, and whether its probe succeeds.\<close>

definition round_lists :: "probe_round \<Rightarrow> string \<Rightarrow> bool" where
  "round_lists p url \<longleftrightarrow> (\<exists>k u. map_of (st_upstreams (pr_store p)) k = Some u \<and> url \<in> set (upstreamURLs u))"

definition round_says_up :: "probe_round \<Rightarrow> string \<Rightarrow> bool" where
  "round_says_up p url \<longleftrightarrow> (\<exists>k u. map_of (st_upstreams (pr_store p)) k = Some u \<and> url \<in> set (upstreamURLs u) \<and> endpoint_up (pr_Get p) u url)"

text \<open>A round over a well-formed store in which the upstreams that list the endpoint probe it alike.\<close>

definition round_ok :: "string \<Rightarrow> probe_round \<Rightarrow> bool" where
  "round_ok url p \<longleftrightarrow> fair_orders (pr_orders p) \<and> gm_wf (st_upstreams (pr_store p)) \<and>
     (\<forall>k u. map_of (st_upstreams (pr_store p)) k = Some u \<and> url \<in> set (upstreamURLs u) \<longrightarrow>
        (endpoint_up (pr_Get p) u url \<longleftrightarrow> round_says_up p url))"

text \<open>The specification: the last round that lists the endpoint decides, and without one it is healthy.\<close>

fun last_word :: "probe_round list \<Rightarrow> string \<Rightarrow> bool" where
  "last_word [] url \<longleftrightarrow> True"
| "last_word (p # ps) url \<longleftrightarrow> (if \<exists>q \<in> set ps. round_lists q url then last_word ps url
     else round_lists p url \<longrightarrow> round_says_up p url)"

lemma run_round_IsHealthy:
  assumes "round_ok url p"
  shows "IsHealthy url (run_round p c) = (if round_lists p url then round_says_up p url else IsHealthy url c)"
  using probe_round_sets_health [of "pr_orders p" "pr_store p" url "pr_Get p" "round_says_up p url" "pr_now p" c] assms
  by (simp add: round_ok_def run_round_def round_lists_def)

lemma checker_loop_rounds: "checker_loop (map Ticked ps @ evs) c = checker_loop evs (fold run_round ps c)"
  by (induction ps arbitrary: c) simp_all

lemma rounds_last_word:
  assumes "\<forall>p \<in> set ps. round_ok url p"
  shows "IsHealthy url (fold run_round ps c) = (if \<exists>q \<in> set ps. round_lists q url then last_word ps url else IsHealthy url c)"
  using assms
proof (induction ps arbitrary: c)
  case (Cons p ps)
  then show ?case using Cons.IH [of "run_round p c"] run_round_IsHealthy [of url p c] by auto
qed simp

text \<open>
  C24. The health of an endpoint is what the last round that listed it found. From the start of the checker until
  its context is done, after any number of rounds over a changing store, an endpoint is healthy exactly when the
  last round in which some upstream listed it could reach it; an endpoint that was never listed counts as healthy.
  In particular an endpoint that has left the store keeps the health it had, and has it again when it returns.
\<close>
theorem health_is_last_word:
  assumes "\<forall>p \<in> set (first # ps). round_ok url p"
  shows "IsHealthy url (checker_Start first (map Ticked ps @ CtxDone # evs) health_New) = last_word (first # ps) url"
proof -
  have "checker_Start first (map Ticked ps @ CtxDone # evs) health_New = fold run_round (first # ps) health_New"
    by (simp add: checker_Start_def checker_loop_rounds)
  moreover have "IsHealthy url health_New" by (simp add: IsHealthy_def health_New_def)
  moreover have "last_word qs url" if "\<not> (\<exists>q \<in> set qs. round_lists q url)" for qs using that by (cases qs) auto
  ultimately show ?thesis using rounds_last_word [OF assms, of health_New] by metis
qed

text \<open>One upstream with a health path, for the witness.\<close>

definition probed_upstream :: Upstream where
  "probed_upstream = \<lparr> u_ID = ''u'', u_Name = ''n'', u_URL = ''http://a'', u_Protocol = '''', u_Endpoints = [],
     u_LBAlgorithm = '''', u_HealthPath = ''/health'', u_CreatedAt = 0, u_UpdatedAt = 0 \<rparr>"

definition probed_store :: store where
  "probed_store = (empty_store '''' Map.empty)\<lparr> st_upstreams := [(''u'', probed_upstream)] \<rparr>"

definition reversed_orders :: range_orders where
  "reversed_orders = \<lparr> ord_routes = rev, ord_upstreams = rev, ord_policies = rev, ord_keys = rev \<rparr>"

text \<open>A round that finds it down, and a later one over a store without upstreams.\<close>

definition failed_round :: probe_round where
  "failed_round = \<lparr> pr_now = 1, pr_Get = (\<lambda>_. Inr 503), pr_orders = reversed_orders, pr_store = probed_store \<rparr>"

definition empty_round :: probe_round where
  "empty_round = failed_round\<lparr> pr_now := 2, pr_store := empty_store '''' Map.empty \<rparr>"

theorem health_is_last_word_witness:
  "\<not> IsHealthy ''http://a'' (checker_Start failed_round [Ticked empty_round, CtxDone] health_New)"
proof -
  have orders: "fair_orders reversed_orders" by (simp add: reversed_orders_def fair_orders_def range_order_rev)
  have up: "map_of (st_upstreams (pr_store failed_round)) k = Some u \<longleftrightarrow> k = ''u'' \<and> u = probed_upstream" for k u
    by (auto simp: failed_round_def probed_store_def)
  have none: "map_of (st_upstreams (pr_store empty_round)) k = None" for k by (simp add: empty_round_def empty_store_def)
  have urls: "upstreamURLs probed_upstream = [''http://a'']" "\<not> endpoint_up (pr_Get failed_round) probed_upstream url" for url
    by (simp_all add: upstreamURLs_def endpoint_up_def probe_def probed_upstream_def failed_round_def)
  have says: "round_lists failed_round ''http://a''" "\<not> round_says_up failed_round ''http://a''" "\<not> round_lists empty_round ''http://a''"
    by (simp_all add: round_lists_def round_says_up_def up none urls)
  have wf: "gm_wf (st_upstreams (pr_store failed_round))" "gm_wf (st_upstreams (pr_store empty_round))"
    "fair_orders (pr_orders failed_round)" "fair_orders (pr_orders empty_round)"
    by (simp_all add: failed_round_def empty_round_def probed_store_def empty_store_def gm_wf_def orders)
  then have "\<forall>p \<in> set [failed_round, empty_round]. round_ok ''http://a'' p"
    using says by (simp add: round_ok_def up none urls)
  from health_is_last_word [OF this, of "[]"] says show ?thesis by simp
qed

end
