(* ===== verification/Circuit_Breaker.thy ===== *)
theory Circuit_Breaker
  imports Helix_Prelude Complex_Main
begin

text \<open>
  The circuit breaker of \<open>internal/plugin/builtin/circuitbreaker.go\<close>: its state, \<open>allow\<close> and
  \<open>record\<close>, and the interleavings of the two that concurrent requests produce. Both methods hold the
  breaker's mutex, so each is one atomic step; a request that was admitted records its outcome in a
  later step, with any number of other steps in between (\<open>cb_step\<close>).

  The failure rate is a quotient of two counters. The source computes it in 64-bit floating point,
  which orders it against the threshold as exact division does for counters below \<open>2^53\<close>.
\<close>

section \<open>State and operations\<close>

datatype cbState = CbClosed | CbOpen | CbHalfOpen

record CircuitBreakerConfig =
  Threshold :: real
  Window :: int
  Timeout :: int
  ProbeCount :: int

text \<open>Durations are nanoseconds.\<close>

definition DefaultCircuitBreakerConfig :: CircuitBreakerConfig where
  "DefaultCircuitBreakerConfig =
     \<lparr> Threshold = 1 / 2, Window = 10 * 10 ^ 9, Timeout = 30 * 10 ^ 9, ProbeCount = 3 \<rparr>"

record circuitBreaker =
  cb_cfg :: CircuitBreakerConfig
  cb_state :: cbState
  cb_failures :: nat
  cb_total :: nat
  cb_openedAt :: int
  cb_probes :: int

definition new_breaker :: "CircuitBreakerConfig \<Rightarrow> circuitBreaker" where
  "new_breaker cfg = \<lparr> cb_cfg = cfg, cb_state = CbClosed, cb_failures = 0, cb_total = 0,
                       cb_openedAt = 0, cb_probes = 0 \<rparr>"

definition cb_allow :: "int \<Rightarrow> circuitBreaker \<Rightarrow> bool \<times> circuitBreaker" where
  "cb_allow now cb =
     (case cb_state cb of
        CbOpen \<Rightarrow>
          if now - cb_openedAt cb \<ge> Timeout (cb_cfg cb)
          then (True, cb\<lparr> cb_state := CbHalfOpen, cb_probes := 0 \<rparr>)
          else (False, cb)
      | CbHalfOpen \<Rightarrow>
          if cb_probes cb \<ge> ProbeCount (cb_cfg cb) then (False, cb)
          else (True, cb\<lparr> cb_probes := cb_probes cb + 1 \<rparr>)
      | CbClosed \<Rightarrow> (True, cb))"

definition cb_record :: "int \<Rightarrow> bool \<Rightarrow> circuitBreaker \<Rightarrow> circuitBreaker" where
  "cb_record now failed cb0 =
     (let cb1 = cb0\<lparr> cb_total := cb_total cb0 + 1 \<rparr>;
          cb = (if failed then cb1\<lparr> cb_failures := cb_failures cb1 + 1 \<rparr> else cb1)
      in case cb_state cb of
           CbHalfOpen \<Rightarrow>
             if failed then cb\<lparr> cb_state := CbOpen, cb_openedAt := now \<rparr>
             else if cb_probes cb \<ge> ProbeCount (cb_cfg cb) \<and> cb_failures cb = 0
             then cb\<lparr> cb_state := CbClosed, cb_failures := 0, cb_total := 0 \<rparr>
             else cb
         | CbClosed \<Rightarrow>
             if cb_total cb \<ge> 10 \<and> real (cb_failures cb) / real (cb_total cb) \<ge> Threshold (cb_cfg cb)
             then cb\<lparr> cb_state := CbOpen, cb_openedAt := now \<rparr>
             else cb
         | CbOpen \<Rightarrow> cb)"

section \<open>Concurrent requests\<close>

text \<open>
  A breaker and the number of admitted requests that have not recorded their outcome yet. A step is
  an admitted request, a refused one, or the outcome of a request in flight.
\<close>

record cb_system =
  sys_cb :: circuitBreaker
  sys_inflight :: nat

datatype cb_event = Admitted int | Refused int | Outcome int bool

inductive cb_step :: "cb_system \<Rightarrow> cb_event \<Rightarrow> cb_system \<Rightarrow> bool" where
  admit: "cb_allow now (sys_cb s) = (True, cb') \<Longrightarrow>
     cb_step s (Admitted now) (s\<lparr> sys_cb := cb', sys_inflight := Suc (sys_inflight s) \<rparr>)"
| refuse: "cb_allow now (sys_cb s) = (False, cb') \<Longrightarrow>
     cb_step s (Refused now) (s\<lparr> sys_cb := cb' \<rparr>)"
| outcome: "sys_inflight s = Suc n \<Longrightarrow>
     cb_step s (Outcome now failed)
       (s\<lparr> sys_cb := cb_record now failed (sys_cb s), sys_inflight := n \<rparr>)"

inductive cb_steps :: "cb_system \<Rightarrow> cb_event list \<Rightarrow> cb_system \<Rightarrow> bool" where
  none: "cb_steps s [] s"
| more: "cb_step s e t \<Longrightarrow> cb_steps t es u \<Longrightarrow> cb_steps s (e # es) u"

definition cb_start :: "CircuitBreakerConfig \<Rightarrow> cb_system" where
  "cb_start cfg = \<lparr> sys_cb = new_breaker cfg, sys_inflight = 0 \<rparr>"

definition cb_reachable :: "CircuitBreakerConfig \<Rightarrow> cb_system \<Rightarrow> bool" where
  "cb_reachable cfg s \<longleftrightarrow> (\<exists>es. cb_steps (cb_start cfg) es s)"

text \<open>
  The invariant of the code: a breaker that is not closed has failures on its counter, because only a
  closed breaker with failures trips and nothing but the move back to closed resets the counter.
\<close>

definition cb_inv :: "circuitBreaker \<Rightarrow> bool" where
  "cb_inv cb \<longleftrightarrow> cb_failures cb \<le> cb_total cb \<and> (cb_state cb \<noteq> CbClosed \<longrightarrow> 0 < cb_failures cb)"

text \<open>A half-open breaker whose probes are spent and with nothing in flight.\<close>

definition cb_wedged :: "cb_system \<Rightarrow> bool" where
  "cb_wedged s \<longleftrightarrow> cb_state (sys_cb s) = CbHalfOpen \<and>
     ProbeCount (cb_cfg (sys_cb s)) \<le> cb_probes (sys_cb s) \<and> sys_inflight s = 0"

text \<open>Runs as a function, for evaluation: \<open>None\<close> when the first event that cannot happen comes.\<close>

fun cb_exec :: "cb_system \<Rightarrow> cb_event list \<Rightarrow> cb_system option" where
  "cb_exec s [] = Some s"
| "cb_exec s (Admitted now # es) =
     (case cb_allow now (sys_cb s) of
        (True, cb') \<Rightarrow> cb_exec (s\<lparr> sys_cb := cb', sys_inflight := Suc (sys_inflight s) \<rparr>) es
      | (False, _) \<Rightarrow> None)"
| "cb_exec s (Refused now # es) =
     (case cb_allow now (sys_cb s) of
        (True, _) \<Rightarrow> None
      | (False, cb') \<Rightarrow> cb_exec (s\<lparr> sys_cb := cb' \<rparr>) es)"
| "cb_exec s (Outcome now failed # es) =
     (case sys_inflight s of
        0 \<Rightarrow> None
      | Suc n \<Rightarrow> cb_exec (s\<lparr> sys_cb := cb_record now failed (sys_cb s), sys_inflight := n \<rparr>) es)"

text \<open>How many requests a run admits, and whether all its outcomes are successes.\<close>

fun admissions :: "cb_event list \<Rightarrow> nat" where
  "admissions [] = 0"
| "admissions (Admitted now # es) = Suc (admissions es)"
| "admissions (e # es) = admissions es"

fun all_succeed :: "cb_event list \<Rightarrow> bool" where
  "all_succeed [] = True"
| "all_succeed (Outcome now failed # es) = (\<not> failed \<and> all_succeed es)"
| "all_succeed (e # es) = all_succeed es"

text \<open>The outcomes a run records, the failed ones among them, and the condition to trip on them.\<close>

fun outcomes :: "cb_event list \<Rightarrow> nat" where
  "outcomes [] = 0"
| "outcomes (Outcome now failed # es) = Suc (outcomes es)"
| "outcomes (e # es) = outcomes es"

fun failed_outcomes :: "cb_event list \<Rightarrow> nat" where
  "failed_outcomes [] = 0"
| "failed_outcomes (Outcome now failed # es) = (if failed then 1 else 0) + failed_outcomes es"
| "failed_outcomes (e # es) = failed_outcomes es"

definition trips :: "CircuitBreakerConfig \<Rightarrow> cb_event list \<Rightarrow> bool" where
  "trips cfg es \<longleftrightarrow> outcomes es \<ge> 10 \<and>
     real (failed_outcomes es) / real (outcomes es) \<ge> Threshold cfg"

text \<open>Requests served one at a time, all of them successes.\<close>

definition good_requests :: "nat \<Rightarrow> int \<Rightarrow> cb_event list" where
  "good_requests k now = concat (replicate k [Admitted now, Outcome now False])"

section \<open>Lemmas\<close>

inductive_simps cb_step_Admitted: "cb_step s (Admitted now) t"
inductive_simps cb_step_Refused: "cb_step s (Refused now) t"
inductive_simps cb_step_Outcome: "cb_step s (Outcome now failed) t"
inductive_cases cb_steps_ConsE: "cb_steps s (e # es) u"

lemmas cb_step_simps = cb_step_Admitted cb_step_Refused cb_step_Outcome

lemma cb_steps_Nil [simp]: "cb_steps s [] t \<longleftrightarrow> t = s"
  by (auto elim: cb_steps.cases intro: cb_steps.none)

lemma cb_steps_Cons: "cb_steps s (e # es) u \<longleftrightarrow> (\<exists>t. cb_step s e t \<and> cb_steps t es u)"
  by (auto elim: cb_steps_ConsE intro: cb_steps.more)

lemma cb_steps_append: "cb_steps s es t \<Longrightarrow> cb_steps t fs u \<Longrightarrow> cb_steps s (es @ fs) u"
  by (induction rule: cb_steps.induct) (auto intro: cb_steps.more)

lemma cb_allow_cfg: "cb_allow now cb = (r, cb') \<Longrightarrow> cb_cfg cb' = cb_cfg cb"
  by (auto simp: cb_allow_def split: cbState.splits if_splits)

lemma cb_record_cfg [simp]: "cb_cfg (cb_record now failed cb) = cb_cfg cb"
  by (simp add: cb_record_def Let_def split: cbState.split)

lemma cb_allow_inv: "cb_allow now cb = (r, cb') \<Longrightarrow> cb_inv cb \<Longrightarrow> cb_inv cb'"
  by (auto simp: cb_allow_def cb_inv_def split: cbState.splits if_splits)

lemma cb_trip_failures:
  assumes "thr \<le> real f / d" and "0 < thr"
  shows "0 < f"
proof (rule ccontr)
  assume "\<not> 0 < f"
  with assms show False by simp
qed

lemma cb_record_inv:
  assumes "0 < Threshold (cb_cfg cb)" and "cb_inv cb"
  shows "cb_inv (cb_record now failed cb)"
  using assms by (auto simp: cb_inv_def cb_record_def Let_def split: cbState.splits
      dest: cb_trip_failures)

lemma cb_allow_keeps_open:
  "cb_allow now cb = (r, cb') \<Longrightarrow> cb_state cb \<noteq> CbClosed \<Longrightarrow> cb_state cb' \<noteq> CbClosed"
  by (auto simp: cb_allow_def split: cbState.splits if_splits)

lemma cb_record_keeps_open:
  "cb_inv cb \<Longrightarrow> cb_state cb \<noteq> CbClosed \<Longrightarrow> cb_state (cb_record now failed cb) \<noteq> CbClosed"
  by (auto simp: cb_inv_def cb_record_def Let_def split: cbState.splits)

lemma cb_step_cfg: "cb_step s e t \<Longrightarrow> cb_cfg (sys_cb t) = cb_cfg (sys_cb s)"
  by (induction rule: cb_step.induct) (auto dest: cb_allow_cfg)

lemma cb_step_inv:
  "cb_step s e t \<Longrightarrow> 0 < Threshold (cb_cfg (sys_cb s)) \<Longrightarrow> cb_inv (sys_cb s) \<Longrightarrow> cb_inv (sys_cb t)"
  by (induction rule: cb_step.induct) (auto dest: cb_allow_inv simp: cb_record_inv)

lemma cb_step_keeps_open:
  "cb_step s e t \<Longrightarrow> cb_inv (sys_cb s) \<Longrightarrow> cb_state (sys_cb s) \<noteq> CbClosed \<Longrightarrow>
    cb_state (sys_cb t) \<noteq> CbClosed"
  by (induction rule: cb_step.induct) (auto dest: cb_allow_keeps_open simp: cb_record_keeps_open)

lemma cb_steps_cfg: "cb_steps s es t \<Longrightarrow> cb_cfg (sys_cb t) = cb_cfg (sys_cb s)"
  by (induction rule: cb_steps.induct) (auto dest: cb_step_cfg)

lemma cb_steps_inv:
  "cb_steps s es t \<Longrightarrow> 0 < Threshold (cb_cfg (sys_cb s)) \<Longrightarrow> cb_inv (sys_cb s) \<Longrightarrow> cb_inv (sys_cb t)"
  by (induction rule: cb_steps.induct) (simp, metis cb_step_inv cb_step_cfg)

lemma cb_inv_start [simp]: "cb_inv (sys_cb (cb_start cfg))"
  by (simp add: cb_start_def new_breaker_def cb_inv_def)

lemma cb_cfg_start [simp]: "cb_cfg (sys_cb (cb_start cfg)) = cfg"
  by (simp add: cb_start_def new_breaker_def)

lemma cb_reachable_inv: "cb_reachable cfg s \<Longrightarrow> 0 < Threshold cfg \<Longrightarrow> cb_inv (sys_cb s)"
  unfolding cb_reachable_def by (metis cb_cfg_start cb_inv_start cb_steps_inv)

lemma cb_reachable_cfg: "cb_reachable cfg s \<Longrightarrow> cb_cfg (sys_cb s) = cfg"
  unfolding cb_reachable_def by (metis cb_cfg_start cb_steps_cfg)

lemma cb_steps_keep_open:
  "cb_steps s es t \<Longrightarrow> 0 < Threshold (cb_cfg (sys_cb s)) \<Longrightarrow> cb_inv (sys_cb s) \<Longrightarrow>
    cb_state (sys_cb s) \<noteq> CbClosed \<Longrightarrow> cb_state (sys_cb t) \<noteq> CbClosed"
proof (induction rule: cb_steps.induct)
  case (more s e t es u)
  then have "cb_inv (sys_cb t)" and "cb_state (sys_cb t) \<noteq> CbClosed"
    by (auto dest: cb_step_inv cb_step_keeps_open)
  with more show ?case by (simp add: cb_step_cfg)
qed simp

lemma cb_wedged_step:
  "cb_wedged s \<Longrightarrow> cb_step s e t \<longleftrightarrow> (\<exists>now. e = Refused now) \<and> t = s"
  by (cases e) (auto simp: cb_wedged_def cb_step_simps cb_allow_def)

lemma cb_wedged_steps:
  "cb_steps s es t \<Longrightarrow> cb_wedged s \<Longrightarrow> t = s \<and> (\<forall>e \<in> set es. \<exists>now. e = Refused now)"
  by (induction rule: cb_steps.induct) (auto simp: cb_wedged_step)

lemma cb_exec_steps: "cb_exec s es = Some t \<longleftrightarrow> cb_steps s es t"
proof (induction s es rule: cb_exec.induct)
  case (2 s now es)
  then show ?case
    by (cases "cb_allow now (sys_cb s)") (auto simp: cb_steps_Cons cb_step_simps split: bool.splits)
next
  case (3 s now es)
  then show ?case
    by (cases "cb_allow now (sys_cb s)") (auto simp: cb_steps_Cons cb_step_simps split: bool.splits)
next
  case (4 s now failed es)
  then show ?case
    by (cases "sys_inflight s") (auto simp: cb_steps_Cons cb_step_simps)
qed auto

text \<open>What a breaker may still admit before an outcome fails.\<close>

definition cb_budget :: "circuitBreaker \<Rightarrow> int" where
  "cb_budget cb = (case cb_state cb of
     CbOpen \<Rightarrow> ProbeCount (cb_cfg cb) + 1
   | _ \<Rightarrow> max 0 (ProbeCount (cb_cfg cb) - cb_probes cb))"

lemma cb_record_success_open:
  assumes "cb_inv cb" and "cb_state cb \<noteq> CbClosed"
  shows "cb_record now False cb = cb\<lparr> cb_total := cb_total cb + 1 \<rparr>"
  using assms by (auto simp: cb_inv_def cb_record_def Let_def split: cbState.splits)

lemma cb_step_budget:
  assumes "cb_step s e t" and "cb_inv (sys_cb s)" and "cb_state (sys_cb s) \<noteq> CbClosed"
    and "0 \<le> ProbeCount (cb_cfg (sys_cb s))" and "all_succeed [e]"
  shows "int (admissions [e]) + cb_budget (sys_cb t) \<le> cb_budget (sys_cb s)"
  using assms
  by (induction rule: cb_step.induct)
    (auto simp: cb_record_success_open cb_allow_def cb_budget_def split: cbState.splits if_splits)

lemma admissions_Cons: "admissions (e # es) = admissions [e] + admissions es"
  by (cases e) auto

lemma all_succeed_Cons: "all_succeed (e # es) \<longleftrightarrow> all_succeed [e] \<and> all_succeed es"
  by (cases e) auto

lemma cb_steps_budget:
  "cb_steps s es t \<Longrightarrow> cb_inv (sys_cb s) \<Longrightarrow> cb_state (sys_cb s) \<noteq> CbClosed \<Longrightarrow>
    0 < Threshold (cb_cfg (sys_cb s)) \<Longrightarrow> 0 \<le> ProbeCount (cb_cfg (sys_cb s)) \<Longrightarrow> all_succeed es \<Longrightarrow>
    int (admissions es) + cb_budget (sys_cb t) \<le> cb_budget (sys_cb s)"
proof (induction rule: cb_steps.induct)
  case (more s e t es u)
  have "all_succeed [e]" and "all_succeed es"
    using more.prems all_succeed_Cons by blast+
  then have "int (admissions es) + cb_budget (sys_cb u) \<le> cb_budget (sys_cb t)"
    using more cb_step_inv cb_step_keeps_open by (auto simp: cb_step_cfg)
  moreover have "int (admissions [e]) + cb_budget (sys_cb t) \<le> cb_budget (sys_cb s)"
    using more \<open>all_succeed [e]\<close> by (intro cb_step_budget)
  ultimately show ?case by (subst admissions_Cons) simp
qed simp

lemma good_requests_Suc:
  "good_requests (Suc k) now = Admitted now # Outcome now False # good_requests k now"
  by (simp add: good_requests_def)

text \<open>Successful probes only use up the probe budget of a half-open breaker.\<close>

lemma cb_good_probes:
  assumes "cb_inv (sys_cb s)" and "cb_state (sys_cb s) = CbHalfOpen" and "sys_inflight s = 0"
    and "cb_probes (sys_cb s) + int k = ProbeCount (cb_cfg (sys_cb s))"
  shows "\<exists>u. cb_steps s (good_requests k now) u \<and> cb_wedged u"
  using assms
proof (induction k arbitrary: s)
  case 0
  then show ?case by (auto simp: good_requests_def cb_wedged_def)
next
  case (Suc k)
  define t where "t = s\<lparr> sys_cb := (sys_cb s)\<lparr> cb_probes := cb_probes (sys_cb s) + 1,
                                              cb_total := cb_total (sys_cb s) + 1 \<rparr> \<rparr>"
  let ?m = "s\<lparr> sys_cb := (sys_cb s)\<lparr> cb_probes := cb_probes (sys_cb s) + 1 \<rparr>, sys_inflight := 1 \<rparr>"
  have 1: "cb_step s (Admitted now) ?m"
    using Suc.prems by (auto simp: cb_step_simps cb_allow_def)
  have "cb_record now False (sys_cb ?m) = sys_cb t"
    using Suc.prems by (subst cb_record_success_open) (auto simp: cb_inv_def t_def)
  then have 2: "cb_step ?m (Outcome now False) t"
    using Suc.prems by (auto simp: cb_step_simps t_def)
  have "\<exists>u. cb_steps t (good_requests k now) u \<and> cb_wedged u"
    using Suc.prems by (intro Suc.IH) (auto simp: t_def cb_inv_def)
  with 1 2 show ?case by (auto simp: good_requests_Suc intro: cb_steps.more)
qed

lemma cb_steps_snoc: "cb_steps s (es @ [e]) u \<longleftrightarrow> (\<exists>t. cb_steps s es t \<and> cb_step t e u)"
  by (induction es arbitrary: s) (auto simp: cb_steps_Cons)

lemma outcomes_append [simp]: "outcomes (es @ fs) = outcomes es + outcomes fs"
  by (induction es rule: outcomes.induct) auto

lemma failed_outcomes_append [simp]:
  "failed_outcomes (es @ fs) = failed_outcomes es + failed_outcomes fs"
  by (induction es rule: failed_outcomes.induct) auto

text \<open>One step moves the counters by what it records, as long as the breaker cannot close.\<close>

lemma cb_step_counters:
  assumes "cb_step s e t" and "cb_inv (sys_cb s)"
  shows "cb_total (sys_cb t) = cb_total (sys_cb s) + outcomes [e]"
    and "cb_failures (sys_cb t) = cb_failures (sys_cb s) + failed_outcomes [e]"
  using assms
  by (induction rule: cb_step.induct)
    (auto simp: cb_allow_def cb_record_def cb_inv_def Let_def split: cbState.splits if_splits)

lemma cb_step_closed:
  assumes "cb_step s e t" and "cb_inv (sys_cb s)"
  shows "cb_state (sys_cb t) = CbClosed \<longleftrightarrow> cb_state (sys_cb s) = CbClosed \<and>
    (outcomes [e] = 0 \<or> \<not> (cb_total (sys_cb t) \<ge> 10 \<and>
      real (cb_failures (sys_cb t)) / real (cb_total (sys_cb t)) \<ge> Threshold (cb_cfg (sys_cb s))))"
  using assms
  by (induction rule: cb_step.induct)
    (auto simp: cb_allow_def cb_record_def cb_inv_def Let_def split: cbState.splits if_splits)

lemma cb_run_counters:
  assumes "cb_steps (cb_start cfg) es s" and "0 < Threshold cfg"
  shows "cb_total (sys_cb s) = outcomes es \<and> cb_failures (sys_cb s) = failed_outcomes es"
  using assms(1)
proof (induction es arbitrary: s rule: rev_induct)
  case Nil
  then show ?case by (simp add: cb_start_def new_breaker_def)
next
  case (snoc e es)
  then obtain t where t: "cb_steps (cb_start cfg) es t" "cb_step t e s"
    by (auto simp: cb_steps_snoc)
  then have "cb_inv (sys_cb t)"
    using assms(2) cb_reachable_def cb_reachable_inv by blast
  with t snoc.IH [OF t(1)] show ?case by (simp add: cb_step_counters)
qed

lemma trips_snoc_no_outcome: "outcomes [e] = 0 \<Longrightarrow> trips cfg (es @ [e]) = trips cfg es"
  by (cases e) (auto simp: trips_def)

lemma all_take_snoc:
  "(\<forall>k \<le> length (es @ [e]). P (take k (es @ [e]))) \<longleftrightarrow>
   (\<forall>k \<le> length es. P (take k es)) \<and> P (es @ [e])"
  by (auto simp: le_Suc_eq)

section \<open>Properties\<close>

text \<open>
  C8. A breaker that has tripped never closes again: from a reachable state that is open or
  half-open, no interleaving of admissions, refusals and outcomes leads to the closed state. The
  source resets the failure counter only on the way to closed and requires it to be zero there.
\<close>

theorem breaker_never_recloses:
  assumes "cb_reachable cfg s" and "0 < Threshold cfg"
    and "cb_state (sys_cb s) \<noteq> CbClosed" and "cb_steps s es t"
  shows "cb_state (sys_cb t) \<noteq> CbClosed"
  using cb_steps_keep_open [OF assms(4)] assms(1-3) by (simp add: cb_reachable_inv cb_reachable_cfg)

text \<open>
  C9. When a tripped breaker with nothing in flight has waited for its timeout and every probe then
  succeeds, it ends half-open with its probes spent, and from there every request is refused
  forever and nothing changes its state.
\<close>

theorem breaker_wedges_after_good_probes:
  assumes "cb_reachable cfg s" and "0 < Threshold cfg" and "0 \<le> ProbeCount cfg"
    and "cb_state (sys_cb s) = CbOpen" and "sys_inflight s = 0"
    and "now - cb_openedAt (sys_cb s) \<ge> Timeout cfg"
  shows "\<exists>u. cb_steps s (good_requests (Suc (nat (ProbeCount cfg))) now) u \<and>
    cb_state (sys_cb u) = CbHalfOpen \<and>
    (\<forall>es v. cb_steps u es v \<longrightarrow> v = u \<and> (\<forall>e \<in> set es. \<exists>tm. e = Refused tm))"
proof -
  have inv: "cb_inv (sys_cb s)" and cfg: "cb_cfg (sys_cb s) = cfg"
    using assms(1,2) by (auto dest: cb_reachable_inv cb_reachable_cfg)
  let ?m = "s\<lparr> sys_cb := (sys_cb s)\<lparr> cb_state := CbHalfOpen, cb_probes := 0 \<rparr>, sys_inflight := 1 \<rparr>"
  let ?t = "s\<lparr> sys_cb := (sys_cb s)\<lparr> cb_state := CbHalfOpen, cb_probes := 0,
                                     cb_total := cb_total (sys_cb s) + 1 \<rparr> \<rparr>"
  have 1: "cb_step s (Admitted now) ?m"
    using assms(4-6) cfg by (auto simp: cb_step_simps cb_allow_def)
  have "cb_record now False (sys_cb ?m) = sys_cb ?t"
    using inv assms(4) by (subst cb_record_success_open) (auto simp: cb_inv_def)
  then have 2: "cb_step ?m (Outcome now False) ?t"
    using assms(5) by (auto simp: cb_step_simps)
  have "\<exists>u. cb_steps ?t (good_requests (nat (ProbeCount cfg)) now) u \<and> cb_wedged u"
    using inv assms(3-5) cfg by (intro cb_good_probes) (auto simp: cb_inv_def)
  then obtain u where u: "cb_steps ?t (good_requests (nat (ProbeCount cfg)) now) u" "cb_wedged u"
    by blast
  then have "cb_steps s (good_requests (Suc (nat (ProbeCount cfg))) now) u"
    using 1 2 by (auto simp: good_requests_Suc intro: cb_steps.more)
  with u(2) show ?thesis
    by (intro exI [of _ u]) (auto simp: cb_wedged_def dest: cb_wedged_steps)
qed

text \<open>
  A breaker is closed after a run exactly when at no point of the run at least ten outcomes
  had been recorded with a failed share that reached the threshold. All outcomes since the breaker
  was made count: neither time nor the configured window enters.
\<close>

theorem breaker_trips_on_lifetime_counts:
  assumes "cb_steps (cb_start cfg) es s" and "0 < Threshold cfg"
  shows "cb_state (sys_cb s) = CbClosed \<longleftrightarrow> (\<forall>k \<le> length es. \<not> trips cfg (take k es))"
  using assms(1)
proof (induction es arbitrary: s rule: rev_induct)
  case Nil
  then show ?case by (simp add: cb_start_def new_breaker_def trips_def)
next
  case (snoc e es)
  then obtain t where t: "cb_steps (cb_start cfg) es t" "cb_step t e s"
    by (auto simp: cb_steps_snoc)
  have "cb_reachable cfg t"
    using t(1) by (auto simp: cb_reachable_def)
  then have "cb_inv (sys_cb t)" and cfg: "cb_cfg (sys_cb t) = cfg"
    using assms(2) by (auto dest: cb_reachable_inv cb_reachable_cfg)
  then have "cb_state (sys_cb s) = CbClosed \<longleftrightarrow> cb_state (sys_cb t) = CbClosed \<and>
      (outcomes [e] = 0 \<or> \<not> trips cfg (es @ [e]))"
    using t(2) cb_run_counters [OF snoc.prems assms(2)] by (simp add: cb_step_closed trips_def)
  then show ?case
    using snoc.IH [OF t(1)] trips_snoc_no_outcome [of e cfg es]
      all_take_snoc [of es e "\<lambda>x. \<not> trips cfg x"] by (metis order_refl take_all)
qed

text \<open>
  Between tripping and the first failed probe a breaker admits at most \<open>ProbeCount + 1\<close>
  requests, however many arrive and in whatever order their outcomes are recorded.
\<close>

theorem half_open_admission_bound:
  assumes "cb_reachable cfg s" and "0 < Threshold cfg" and "0 \<le> ProbeCount cfg"
    and "cb_state (sys_cb s) = CbOpen" and "cb_steps s es t" and "all_succeed es"
  shows "int (admissions es) \<le> ProbeCount cfg + 1"
proof -
  have "cb_inv (sys_cb s)" and cfg: "cb_cfg (sys_cb s) = cfg"
    using assms(1,2) by (auto dest: cb_reachable_inv cb_reachable_cfg)
  moreover have "0 \<le> cb_budget (sys_cb t)"
    using assms(3) cfg cb_steps_cfg [OF assms(5)] by (auto simp: cb_budget_def split: cbState.split)
  moreover have "cb_budget (sys_cb s) = ProbeCount cfg + 1"
    using assms(4) cfg by (simp add: cb_budget_def)
  ultimately show ?thesis
    using cb_steps_budget [OF assms(5)] assms by fastforce
qed

section \<open>Witnesses\<close>

text \<open>A breaker with the default configuration tripped by five failures and five successes.\<close>

definition trip_run :: "cb_event list" where
  "trip_run = concat (replicate 5 [Admitted 0, Outcome 1 True, Admitted 2, Outcome 3 False])"

definition tripped_system :: cb_system where
  "tripped_system =
     \<lparr> sys_cb = \<lparr> cb_cfg = DefaultCircuitBreakerConfig, cb_state = CbOpen, cb_failures = 5,
                 cb_total = 10, cb_openedAt = 3, cb_probes = 0 \<rparr>, sys_inflight = 0 \<rparr>"

lemma trip_run_steps: "cb_steps (cb_start DefaultCircuitBreakerConfig) trip_run tripped_system"
  unfolding cb_exec_steps [symmetric]
  by (simp add: trip_run_def numeral_eq_Suc tripped_system_def cb_start_def new_breaker_def cb_allow_def
      cb_record_def DefaultCircuitBreakerConfig_def)

lemma tripped_reachable: "cb_reachable DefaultCircuitBreakerConfig tripped_system"
  using trip_run_steps by (auto simp: cb_reachable_def)

lemma default_cfg_simps [simp]:
  "Threshold DefaultCircuitBreakerConfig = 1 / 2" "ProbeCount DefaultCircuitBreakerConfig = 3"
  "Timeout DefaultCircuitBreakerConfig = 30 * 10 ^ 9"
  by (simp_all add: DefaultCircuitBreakerConfig_def)

theorem breaker_never_recloses_witness:
  "cb_state (sys_cb tripped_system) \<noteq> CbClosed \<and>
   cb_steps tripped_system [Refused 5] tripped_system"
proof -
  have "cb_steps tripped_system [Refused 5] tripped_system"
    by (simp add: cb_steps_Cons cb_step_simps tripped_system_def cb_allow_def)
  moreover have "cb_state (sys_cb tripped_system) \<noteq> CbClosed"
    using breaker_never_recloses [OF tripped_reachable _ _ \<open>cb_steps tripped_system [Refused 5] _\<close>]
    by (simp add: tripped_system_def)
  ultimately show ?thesis by simp
qed

theorem breaker_wedges_after_good_probes_witness:
  "\<exists>u. cb_steps tripped_system (good_requests 4 (10 ^ 11)) u \<and> cb_state (sys_cb u) = CbHalfOpen"
  using breaker_wedges_after_good_probes [OF tripped_reachable, of "10 ^ 11"]
  by (auto simp: tripped_system_def)

theorem breaker_trips_on_lifetime_counts_witness:
  "\<exists>k \<le> length trip_run. trips DefaultCircuitBreakerConfig (take k trip_run)"
  using breaker_trips_on_lifetime_counts [OF trip_run_steps] by (auto simp: tripped_system_def)

theorem half_open_admission_bound_witness:
  "\<exists>u. cb_steps tripped_system (good_requests 4 (10 ^ 11)) u \<and>
     int (admissions (good_requests 4 (10 ^ 11))) \<le> 3 + 1"
proof -
  have "\<exists>u. cb_exec tripped_system (good_requests 4 (10 ^ 11)) = Some u"
    by (simp add: good_requests_def numeral_eq_Suc tripped_system_def cb_allow_def cb_record_def)
  then obtain u where u: "cb_steps tripped_system (good_requests 4 (10 ^ 11)) u"
    by (auto simp: cb_exec_steps)
  have "all_succeed (good_requests 4 (10 ^ 11))"
    by (simp add: good_requests_def numeral_eq_Suc)
  then show ?thesis
    using u half_open_admission_bound [OF tripped_reachable _ _ _ u]
    by (auto simp: tripped_system_def)
qed

end
