(* ===== verification/Load_Balancer.thy ===== *)
theory Load_Balancer
  imports Helix_Prelude
begin

text \<open>
  The balancers of \<open>internal/lb/lb.go\<close>. Each keeps its state in a record and has a \<open>Next\<close> that takes
  the health predicate, \<open>None\<close> for a nil function, and returns the endpoint or the run-time panic of
  the call with the state after it. The round-robin counter is a 64-bit word; the connection counters
  and the weights are 64-bit signed integers, kept in range by \<open>wrap64\<close>. \<open>rand.IntN\<close> is the argument
  \<open>IntN\<close> of the weighted balancer.

  Endpoint slices have fewer than \<open>2^63\<close> elements, as every Go slice has.
\<close>

section \<open>Round robin\<close>

type_synonym health = "(string \<Rightarrow> bool) option"

text \<open>The test \<open>isHealthy == nil || isHealthy(ep)\<close>.\<close>

definition passes :: "health \<Rightarrow> string \<Rightarrow> bool" where
  "passes h ep = (case h of None \<Rightarrow> True | Some f \<Rightarrow> f ep)"

record roundRobin =
  rr_endpoints :: "string list"
  rr_counter :: "64 word"

definition NewRoundRobin :: "string list \<Rightarrow> roundRobin" where
  "NewRoundRobin endpoints = \<lparr> rr_endpoints = endpoints, rr_counter = 0 \<rparr>"

definition rr_n :: "roundRobin \<Rightarrow> 64 word" where
  "rr_n rr = word_of_nat (length (rr_endpoints rr))"

definition rr_at :: "roundRobin \<Rightarrow> string" where
  "rr_at rr = rr_endpoints rr ! unat (rr_counter rr mod rr_n rr)"

fun rr_loop :: "nat \<Rightarrow> health \<Rightarrow> roundRobin \<Rightarrow> string option \<times> roundRobin" where
  "rr_loop 0 h rr = (None, rr)"
| "rr_loop (Suc i) h rr =
     (let rr' = rr\<lparr> rr_counter := rr_counter rr + 1 \<rparr>; ep = rr_at rr'
      in if passes h ep then (Some ep, rr') else rr_loop i h rr')"

definition rr_Next :: "health \<Rightarrow> roundRobin \<Rightarrow> (go_panic + string) \<times> roundRobin" where
  "rr_Next h rr =
     (case rr_loop (unat (rr_n rr)) h rr of
        (Some ep, rr') \<Rightarrow> (Inr ep, rr')
      | (None, rr') \<Rightarrow> if rr_n rr = 0 then (Inl DivideByZero, rr') else (Inr (rr_at rr'), rr'))"

text \<open>The results of a sequence of calls.\<close>

fun rr_calls :: "nat \<Rightarrow> health \<Rightarrow> roundRobin \<Rightarrow> (go_panic + string) list \<times> roundRobin" where
  "rr_calls 0 h rr = ([], rr)"
| "rr_calls (Suc i) h rr =
     (let (r, rr1) = rr_Next h rr; (rs, rr2) = rr_calls i h rr1 in (r # rs, rr2))"

section \<open>Weighted random choice\<close>

record WeightedEndpoint =
  we_URL :: string
  we_Weight :: int

record weightedBalancer =
  wb_endpoints :: "WeightedEndpoint list"
  wb_total :: int

definition NewWeighted :: "WeightedEndpoint list \<Rightarrow> weightedBalancer" where
  "NewWeighted endpoints = \<lparr> wb_endpoints = endpoints,
     wb_total = fold (\<lambda>e total. if we_Weight e > 0 then wrap64 (total + we_Weight e) else total) endpoints 0 \<rparr>"

definition wb_sum :: "WeightedEndpoint list \<Rightarrow> int" where
  "wb_sum es = fold (\<lambda>e sum. wrap64 (sum + we_Weight e)) es 0"

fun wb_scan :: "int \<Rightarrow> int \<Rightarrow> WeightedEndpoint list \<Rightarrow> WeightedEndpoint option" where
  "wb_scan r cum [] = None"
| "wb_scan r cum (e # es) =
     (let cum' = wrap64 (cum + we_Weight e) in if r < cum' then Some e else wb_scan r cum' es)"

definition wb_eligible :: "health \<Rightarrow> weightedBalancer \<Rightarrow> WeightedEndpoint list \<times> int" where
  "wb_eligible h wb =
     (case h of
        None \<Rightarrow> (wb_endpoints wb, wb_total wb)
      | Some f \<Rightarrow>
          let filtered = filter (\<lambda>e. f (we_URL e)) (wb_endpoints wb)
          in if filtered \<noteq> [] then (filtered, wb_sum filtered) else (wb_endpoints wb, wb_total wb))"

definition wb_Next :: "(int \<Rightarrow> int) \<Rightarrow> health \<Rightarrow> weightedBalancer \<Rightarrow> go_panic + string" where
  "wb_Next IntN h wb =
     (let (eligible, total) = wb_eligible h wb
      in if total \<le> 0 then Inr ''''
         else case wb_scan (IntN total) 0 eligible of
                Some e \<Rightarrow> Inr (we_URL e)
              | None \<Rightarrow> if eligible = [] then Inl IndexOutOfRange else Inr (we_URL (last eligible)))"

section \<open>Least connections\<close>

record LeastConn =
  lc_endpoints :: "string list"
  lc_conns :: "(string, int) gomap"

definition NewLeastConn :: "string list \<Rightarrow> LeastConn" where
  "NewLeastConn endpoints =
     fold (\<lambda>ep lc. lc\<lparr> lc_endpoints := lc_endpoints lc @ [ep], lc_conns := gm_put ep 0 (lc_conns lc) \<rparr>)
       endpoints \<lparr> lc_endpoints = [], lc_conns = [] \<rparr>"

fun lc_scan :: "health \<Rightarrow> (string, int) gomap \<Rightarrow> string list \<Rightarrow> string \<Rightarrow> int \<Rightarrow> go_panic + string" where
  "lc_scan h conns [] best bestCount = Inr best"
| "lc_scan h conns (ep # eps) best bestCount =
     (if \<not> passes h ep then lc_scan h conns eps best bestCount
      else case map_of conns ep of
             None \<Rightarrow> Inl NilDereference
           | Some c \<Rightarrow>
               if bestCount < 0 \<or> c < bestCount then lc_scan h conns eps ep c
               else lc_scan h conns eps best bestCount)"

definition lc_Next :: "health \<Rightarrow> LeastConn \<Rightarrow> (go_panic + string) \<times> LeastConn" where
  "lc_Next h lc =
     (case lc_scan h (lc_conns lc) (lc_endpoints lc) '''' (- 1) of
        Inl p \<Rightarrow> (Inl p, lc)
      | Inr b \<Rightarrow>
          let best = (if b = '''' \<and> lc_endpoints lc \<noteq> [] then hd (lc_endpoints lc) else b)
          in if best \<noteq> ''''
             then (case map_of (lc_conns lc) best of
                     None \<Rightarrow> (Inl NilDereference, lc)
                   | Some c \<Rightarrow> (Inr best, lc\<lparr> lc_conns := gm_put best (wrap64 (c + 1)) (lc_conns lc) \<rparr>))
             else (Inr best, lc))"

definition lc_Done :: "string \<Rightarrow> LeastConn \<Rightarrow> LeastConn" where
  "lc_Done url lc =
     (case map_of (lc_conns lc) url of
        None \<Rightarrow> lc
      | Some c \<Rightarrow> lc\<lparr> lc_conns := gm_put url (wrap64 (c - 1)) (lc_conns lc) \<rparr>)"

text \<open>
  A balancer with the requests it has handed out: \<open>lc_inflight\<close> holds the endpoint of each request
  that has not called \<open>Done\<close>.
\<close>

record lc_system =
  sys_lc :: LeastConn
  lc_inflight :: "string multiset"

inductive lc_step :: "lc_system \<Rightarrow> lc_system \<Rightarrow> bool" where
  lc_pick: "lc_Next h (sys_lc s) = (Inr ep, lc') \<Longrightarrow> ep \<noteq> '''' \<Longrightarrow>
     lc_step s (s\<lparr> sys_lc := lc', lc_inflight := add_mset ep (lc_inflight s) \<rparr>)"
| lc_finish: "ep \<in># lc_inflight s \<Longrightarrow>
     lc_step s (s\<lparr> sys_lc := lc_Done ep (sys_lc s), lc_inflight := lc_inflight s - {#ep#} \<rparr>)"

inductive lc_reachable :: "string list \<Rightarrow> lc_system \<Rightarrow> bool" for eps where
  lc_init: "lc_reachable eps \<lparr> sys_lc = NewLeastConn eps, lc_inflight = {#} \<rparr>"
| lc_next: "lc_reachable eps s \<Longrightarrow> lc_step s t \<Longrightarrow> lc_reachable eps t"

section \<open>Round robin: lemmas\<close>

text \<open>Below the wrap of the counter, the word arithmetic is arithmetic on naturals.\<close>

definition rr_safe :: "nat \<Rightarrow> roundRobin \<Rightarrow> bool" where
  "rr_safe k rr \<longleftrightarrow> rr_endpoints rr \<noteq> [] \<and> length (rr_endpoints rr) < 2 ^ 63 \<and> unat (rr_counter rr) + k < 2 ^ 64"

lemma rr_n_unat: "length (rr_endpoints rr) < 2 ^ 63 \<Longrightarrow> unat (rr_n rr) = length (rr_endpoints rr)"
  by (simp add: rr_n_def unat_of_nat)

lemma rr_at_nth:
  "length (rr_endpoints rr) < 2 ^ 63 \<Longrightarrow>
    rr_at rr = rr_endpoints rr ! (unat (rr_counter rr) mod length (rr_endpoints rr))"
  by (simp add: rr_at_def unat_mod rr_n_unat)

lemma rr_counter_inc: "unat (c :: 64 word) + k < 2 ^ 64 \<Longrightarrow> 0 < k \<Longrightarrow> unat (c + 1) = Suc (unat c)"
  by (simp add: unat_plus_if_size word_size)

lemma rr_safe_inc:
  "rr_safe (Suc k) rr \<Longrightarrow> rr_safe k (rr\<lparr> rr_counter := rr_counter rr + 1 \<rparr>) \<and>
    unat (rr_counter rr + 1) = Suc (unat (rr_counter rr))"
  using rr_counter_inc [of "rr_counter rr" "Suc k"] by (simp add: rr_safe_def)

text \<open>The loop visits the endpoints in rotation order after the counter.\<close>

definition rr_window :: "nat \<Rightarrow> roundRobin \<Rightarrow> string list" where
  "rr_window k rr = map (\<lambda>i. rr_endpoints rr ! ((unat (rr_counter rr) + i) mod length (rr_endpoints rr))) [1..<Suc k]"

lemma rr_window_Suc:
  assumes "rr_safe (Suc k) rr"
  defines "rr' \<equiv> rr\<lparr> rr_counter := rr_counter rr + 1 \<rparr>"
  shows "rr_window (Suc k) rr = rr_at rr' # rr_window k rr'"
proof -
  have "[1..<Suc (Suc k)] = 1 # map Suc [1..<Suc k]" by (simp add: upt_conv_Cons map_Suc_upt del: upt_Suc)
  moreover have "unat (rr_counter rr + 1) = Suc (unat (rr_counter rr))" using rr_safe_inc [OF assms(1)] by blast
  ultimately show ?thesis
    using assms(1) by (simp add: rr_window_def rr'_def rr_at_nth rr_safe_def del: upt_Suc)
qed

lemma rr_loop_spec:
  "rr_safe k rr \<Longrightarrow> fst (rr_loop k h rr) = find (passes h) (rr_window k rr) \<and>
    rr_endpoints (snd (rr_loop k h rr)) = rr_endpoints rr \<and>
    (fst (rr_loop k h rr) = None \<longrightarrow> unat (rr_counter (snd (rr_loop k h rr))) = unat (rr_counter rr) + k)"
proof (induction k arbitrary: rr)
  case 0
  then show ?case by (simp add: rr_window_def)
next
  case (Suc k)
  let ?r = "rr\<lparr> rr_counter := rr_counter rr + 1 \<rparr>"
  note safe = rr_safe_inc [OF Suc.prems]
  have "fst (rr_loop k h ?r) = find (passes h) (rr_window k ?r) \<and>
    rr_endpoints (snd (rr_loop k h ?r)) = rr_endpoints ?r \<and>
    (fst (rr_loop k h ?r) = None \<longrightarrow> unat (rr_counter (snd (rr_loop k h ?r))) = unat (rr_counter ?r) + k)"
    using safe by (intro Suc.IH) blast
  then show ?case using safe by (simp add: rr_window_Suc [OF Suc.prems] Let_def)
qed

lemma rr_window_rotate:
  assumes "rr_endpoints rr \<noteq> []"
  shows "rr_window (length (rr_endpoints rr)) rr = rotate (Suc (unat (rr_counter rr))) (rr_endpoints rr)"
proof (rule nth_equalityI)
  fix i
  assume "i < length (rr_window (length (rr_endpoints rr)) rr)"
  then show "rr_window (length (rr_endpoints rr)) rr ! i = rotate (Suc (unat (rr_counter rr))) (rr_endpoints rr) ! i"
    by (simp add: rr_window_def nth_rotate del: upt_Suc rotate_Suc)
next
  show "length (rr_window (length (rr_endpoints rr)) rr) = length (rotate (Suc (unat (rr_counter rr))) (rr_endpoints rr))"
    by (simp add: rr_window_def del: upt_Suc)
qed

text \<open>The window of a full turn holds every endpoint.\<close>

lemma rr_Next_spec:
  assumes "rr_safe (length (rr_endpoints rr)) rr"
  defines "turn \<equiv> rotate (Suc (unat (rr_counter rr))) (rr_endpoints rr)"
  shows "fst (rr_Next h rr) = Inr (case find (passes h) turn of Some ep \<Rightarrow> ep | None \<Rightarrow> last turn)"
    and "rr_endpoints (snd (rr_Next h rr)) = rr_endpoints rr"
proof -
  let ?n = "length (rr_endpoints rr)"
  have ne: "rr_endpoints rr \<noteq> []" and len: "?n < 2 ^ 63" using assms(1) by (auto simp: rr_safe_def)
  have n: "unat (rr_n rr) = ?n" using len by (rule rr_n_unat)
  then have n0: "rr_n rr \<noteq> 0" using ne by auto
  note loop = rr_loop_spec [OF assms(1), of h]
  have turn: "rr_window ?n rr = turn" unfolding turn_def using ne by (rule rr_window_rotate)
  have "last turn = turn ! (?n - 1)" using ne by (simp add: turn_def last_conv_nth del: rotate_Suc)
  also have "\<dots> = rr_endpoints rr ! ((Suc (unat (rr_counter rr)) + (?n - 1)) mod ?n)"
    unfolding turn_def using ne by (intro nth_rotate) simp
  also have "Suc (unat (rr_counter rr)) + (?n - 1) = unat (rr_counter rr) + ?n"
    using ne by (cases "rr_endpoints rr") auto
  finally have last: "last turn = rr_endpoints rr ! ((unat (rr_counter rr) + ?n) mod ?n)" .
  show "fst (rr_Next h rr) = Inr (case find (passes h) turn of Some ep \<Rightarrow> ep | None \<Rightarrow> last turn)"
    using loop len n0 by (auto simp: rr_Next_def n turn last rr_at_nth split: prod.split option.split)
  show "rr_endpoints (snd (rr_Next h rr)) = rr_endpoints rr"
    using loop n0 by (auto simp: rr_Next_def n split: prod.split option.split)
qed

lemma find_rotate: "find P (rotate k xs) = None \<longleftrightarrow> (\<forall>x \<in> set xs. \<not> P x)"
  by (auto simp: find_None_iff)

lemma find_mem: "find P xs = Some x \<Longrightarrow> x \<in> set xs \<and> P x"
  by (induction xs) (auto split: if_splits)

lemma rr_Next_all:
  assumes "rr_safe (Suc k) rr"
  shows "rr_Next None rr =
    (Inr (rr_endpoints rr ! (Suc (unat (rr_counter rr)) mod length (rr_endpoints rr))), rr\<lparr> rr_counter := rr_counter rr + 1 \<rparr>)"
proof -
  have "unat (rr_n rr) = length (rr_endpoints rr)" and ne: "rr_endpoints rr \<noteq> []"
    using assms by (auto simp: rr_safe_def intro: rr_n_unat)
  then obtain m where "unat (rr_n rr) = Suc m" by (cases "rr_endpoints rr") auto
  then show ?thesis
    using rr_safe_inc [OF assms] assms by (simp add: rr_Next_def Let_def passes_def rr_at_nth rr_safe_def)
qed

lemma rr_calls_all:
  "rr_safe k rr \<Longrightarrow> fst (rr_calls k None rr) = map Inr (rr_window k rr)"
proof (induction k arbitrary: rr)
  case 0
  then show ?case by (simp add: rr_window_def)
next
  case (Suc k)
  let ?r = "rr\<lparr> rr_counter := rr_counter rr + 1 \<rparr>"
  have safe: "rr_safe k ?r" and c: "unat (rr_counter rr + 1) = Suc (unat (rr_counter rr))"
    using rr_safe_inc [OF Suc.prems] by auto
  have "rr_at ?r = rr_endpoints rr ! (Suc (unat (rr_counter rr)) mod length (rr_endpoints rr))"
    using c Suc.prems by (simp add: rr_at_nth rr_safe_def)
  then show ?case
    using Suc.IH [OF safe]
    by (auto simp: rr_Next_all [OF Suc.prems] rr_window_Suc [OF Suc.prems] split: prod.split)
qed

section \<open>Round robin: properties\<close>


text \<open>
  With every endpoint healthy, one turn of round robin hands out every endpoint exactly once, in
  the order of the list, starting after the last pick.
\<close>
theorem round_robin_fair_turn:
  assumes "rr_endpoints rr \<noteq> []" and "length (rr_endpoints rr) < 2 ^ 63"
    and "unat (rr_counter rr) + length (rr_endpoints rr) < 2 ^ 64"
  shows "fst (rr_calls (length (rr_endpoints rr)) None rr) =
    map Inr (rotate (Suc (unat (rr_counter rr))) (rr_endpoints rr))"
  using assms rr_calls_all [of "length (rr_endpoints rr)" rr] by (simp add: rr_safe_def rr_window_rotate)


theorem round_robin_fair_turn_witness:
  "fst (rr_calls 3 None (NewRoundRobin [''a'', ''b'', ''c''])) = [Inr ''b'', Inr ''c'', Inr ''a'']"
  using round_robin_fair_turn [of "NewRoundRobin [''a'', ''b'', ''c'']"]
  by (simp add: NewRoundRobin_def numeral_3_eq_3 del: rr_calls.simps)

section \<open>Weighted choice\<close>

text \<open>
  A scan that walks a list, adds up weights and stops at the first element whose running sum exceeds
  the random number. The balancer and the router's traffic split both contain such a loop; the locale
  states the two equations that define it, and its lemmas give the distribution.
\<close>

locale weighted_choice =
  fixes weight :: "'a \<Rightarrow> int"
    and scan :: "int \<Rightarrow> int \<Rightarrow> 'a list \<Rightarrow> 'a option"
  assumes scan_Nil: "scan r cum [] = None"
    and scan_Cons: "scan r cum (e # es) =
      (if r < wrap64 (cum + weight e) then Some e else scan r (wrap64 (cum + weight e)) es)"
begin

lemma scan_mem: "scan r cum es = Some e \<Longrightarrow> e \<in> set es"
  by (induction es arbitrary: cum) (auto simp: scan_Nil scan_Cons split: if_splits)

lemma sum_list_weights_nonneg: "\<forall>e \<in> set es. 0 \<le> weight e \<Longrightarrow> 0 \<le> sum_list (map weight es)"
  by (induction es) auto

lemma scan_total:
  assumes "\<forall>e \<in> set es. 0 \<le> weight e" and "0 \<le> cum" and "cum + sum_list (map weight es) < 2 ^ 63"
    and "r < cum + sum_list (map weight es)" and "cum \<le> r"
  shows "\<exists>e. scan r cum es = Some e"
  using assms
proof (induction es arbitrary: cum)
  case (Cons e es)
  have "0 \<le> sum_list (map weight es)" using Cons.prems(1) by (simp add: sum_list_weights_nonneg)
  then have w: "wrap64 (cum + weight e) = cum + weight e" using Cons.prems by (simp add: wrap64_id)
  show ?case using Cons.IH [of "cum + weight e"] Cons.prems by (auto simp: scan_Cons w)
qed simp

text \<open>The random numbers that select an element: as many as its weight.\<close>

lemma scan_share:
  assumes "\<forall>e \<in> set es. 0 \<le> weight e" and "distinct es" and "x \<in> set es" and "0 \<le> cum"
    and "cum + sum_list (map weight es) < 2 ^ 63"
  shows "\<exists>lo. cum \<le> lo \<and> lo + weight x \<le> cum + sum_list (map weight es) \<and>
    {r. cum \<le> r \<and> r < cum + sum_list (map weight es) \<and> scan r cum es = Some x} = {lo..<lo + weight x}"
  using assms
proof (induction es arbitrary: cum)
  case (Cons e es)
  let ?c = "cum + weight e" and ?S = "sum_list (map weight es)"
  have nonneg: "0 \<le> ?S" "0 \<le> weight e" using Cons.prems(1) by (simp_all add: sum_list_weights_nonneg)
  then have w: "wrap64 ?c = ?c" using Cons.prems by (simp add: wrap64_id)
  show ?case
  proof (cases "x = e")
    case True
    have "e \<notin> set es" using Cons.prems(2) by simp
    then have sel: "scan r cum (e # es) = Some x \<longleftrightarrow> r < ?c" for r
      using scan_mem [of r ?c es e] True by (auto simp: scan_Cons w)
    have "{r. cum \<le> r \<and> r < cum + sum_list (map weight (e # es)) \<and> scan r cum (e # es) = Some x} = {cum..<?c}"
      unfolding sel using nonneg by (auto simp: set_eq_iff)
    then show ?thesis using nonneg True by (intro exI [of _ cum]) simp
  next
    case False
    then have "x \<in> set es" using Cons.prems(3) by simp
    then obtain lo where lo: "?c \<le> lo" "lo + weight x \<le> ?c + ?S"
      "{r. ?c \<le> r \<and> r < ?c + ?S \<and> scan r ?c es = Some x} = {lo..<lo + weight x}"
      using Cons.IH [of ?c] Cons.prems nonneg by (auto simp: add.assoc)
    have sc: "scan r cum (e # es) = (if r < ?c then Some e else scan r ?c es)" for r
      by (simp add: scan_Cons w)
    have "{r. cum \<le> r \<and> r < cum + sum_list (map weight (e # es)) \<and> scan r cum (e # es) = Some x} =
      {r. ?c \<le> r \<and> r < ?c + ?S \<and> scan r ?c es = Some x}"
      unfolding sc using False nonneg by (intro Collect_cong) (simp, linarith)
    then show ?thesis using lo nonneg by (intro exI [of _ lo]) (simp add: add.assoc)
  qed
qed simp

lemma scan_distribution:
  assumes "\<forall>e \<in> set es. 0 \<le> weight e" and "distinct es" and "x \<in> set es"
    and "sum_list (map weight es) < 2 ^ 63"
  shows "card {r. 0 \<le> r \<and> r < sum_list (map weight es) \<and> scan r 0 es = Some x} = nat (weight x)"
proof -
  obtain lo where "{r. 0 \<le> r \<and> r < sum_list (map weight es) \<and> scan r 0 es = Some x} = {lo..<lo + weight x}"
    using scan_share [of es x 0] assms by auto
  then show ?thesis by simp
qed

end

interpretation wb: weighted_choice we_Weight wb_scan
  by unfold_locales (simp_all add: Let_def)

lemma wb_fold_sum:
  fixes es :: "WeightedEndpoint list"
  shows "\<forall>e \<in> set es. 0 \<le> we_Weight e \<Longrightarrow> 0 \<le> t \<Longrightarrow> t + sum_list (map we_Weight es) < 2 ^ 63 \<Longrightarrow>
    fold (\<lambda>e s. wrap64 (s + we_Weight e)) es t = t + sum_list (map we_Weight es)"
proof (induction es arbitrary: t)
  case (Cons e es)
  have "0 \<le> sum_list (map we_Weight es)" using Cons.prems(1) by (intro wb.sum_list_weights_nonneg) simp
  then have "wrap64 (t + we_Weight e) = t + we_Weight e" using Cons.prems by (simp add: wrap64_id)
  then show ?case using Cons.IH [of "t + we_Weight e"] Cons.prems by (simp add: add.assoc)
qed simp

lemma wb_total_fold:
  fixes es :: "WeightedEndpoint list"
  shows "\<forall>e \<in> set es. 0 \<le> we_Weight e \<Longrightarrow> - (2 ^ 63) \<le> t \<Longrightarrow> t < 2 ^ 63 \<Longrightarrow>
    fold (\<lambda>e s. if we_Weight e > 0 then wrap64 (s + we_Weight e) else s) es t = fold (\<lambda>e s. wrap64 (s + we_Weight e)) es t"
proof (induction es arbitrary: t)
  case (Cons e es)
  have "(if we_Weight e > 0 then wrap64 (t + we_Weight e) else t) = wrap64 (t + we_Weight e)"
    using Cons.prems by (auto simp: wrap64_id)
  then show ?case using Cons wrap64_bounds [of "t + we_Weight e"] by simp
qed simp

lemma sum_list_filter_le:
  "\<forall>e \<in> set es. (0::int) \<le> f e \<Longrightarrow> sum_list (map f (filter P es)) \<le> sum_list (map f es)"
  by (induction es) auto

lemma wb_eligible_spec:
  assumes "\<forall>e \<in> set es. 0 \<le> we_Weight e" and "sum_list (map we_Weight es) < 2 ^ 63"
    and "\<exists>e \<in> set es. passes h (we_URL e)"
  shows "wb_eligible h (NewWeighted es) =
    (let el = filter (\<lambda>e. passes h (we_URL e)) es in (el, sum_list (map we_Weight el)))"
proof (cases h)
  case None
  then show ?thesis
    using assms wb_total_fold [of es 0] wb_fold_sum [of es 0]
    by (simp add: wb_eligible_def NewWeighted_def passes_def Let_def)
next
  case (Some f)
  let ?el = "filter (\<lambda>e. f (we_URL e)) es"
  have "sum_list (map we_Weight ?el) < 2 ^ 63"
    using sum_list_filter_le [of es we_Weight] assms(1,2) by (meson le_less_trans)
  then have "wb_sum ?el = sum_list (map we_Weight ?el)"
    unfolding wb_sum_def using wb_fold_sum [of ?el 0] assms(1) by simp
  moreover have "?el \<noteq> []" using assms(3) Some by (auto simp: passes_def filter_empty_conv)
  ultimately show ?thesis using Some by (simp add: wb_eligible_def NewWeighted_def passes_def Let_def)
qed



section \<open>Least connections: lemmas and properties\<close>

lemma wrap64_wrap64_add: "wrap64 (wrap64 x + y) = wrap64 (x + y)"
proof -
  have "wrap64 x + y + 2 ^ 63 = (x + 2 ^ 63) mod 2 ^ 64 + y" by (simp add: wrap64_def)
  moreover have "x + y + 2 ^ 63 = (x + 2 ^ 63) + y" by simp
  ultimately show ?thesis unfolding wrap64_def [of "wrap64 x + y"] wrap64_def [of "x + y"]
    by (simp only: mod_add_left_eq)
qed

lemma NewLeastConn_fields:
  "lc_endpoints (NewLeastConn eps) = eps"
  "map_of (lc_conns (NewLeastConn eps)) = (\<lambda>ep. if ep \<in> set eps then Some 0 else None)"
proof -
  have "lc_endpoints (fold (\<lambda>ep lc. lc\<lparr> lc_endpoints := lc_endpoints lc @ [ep], lc_conns := gm_put ep 0 (lc_conns lc) \<rparr>) eps lc)
      = lc_endpoints lc @ eps \<and>
    map_of (lc_conns (fold (\<lambda>ep lc. lc\<lparr> lc_endpoints := lc_endpoints lc @ [ep], lc_conns := gm_put ep 0 (lc_conns lc) \<rparr>) eps lc))
      = (\<lambda>ep. if ep \<in> set eps then Some 0 else map_of (lc_conns lc) ep)" for lc :: LeastConn
    by (induction eps arbitrary: lc) (auto simp: fun_eq_iff)
  then show "lc_endpoints (NewLeastConn eps) = eps"
    "map_of (lc_conns (NewLeastConn eps)) = (\<lambda>ep. if ep \<in> set eps then Some 0 else None)"
    by (simp_all add: NewLeastConn_def fun_eq_iff)
qed

text \<open>The counters are the numbers of requests in flight, modulo \<open>2^64\<close>.\<close>

definition lc_inv :: "string list \<Rightarrow> lc_system \<Rightarrow> bool" where
  "lc_inv eps s \<longleftrightarrow> lc_endpoints (sys_lc s) = eps \<and>
     map_of (lc_conns (sys_lc s)) =
       (\<lambda>ep. if ep \<in> set eps then Some (wrap64 (int (count (lc_inflight s) ep))) else None)"

lemma lc_Next_result:
  assumes "lc_Next h lc = (Inr ep, lc')" and "ep \<noteq> ''''"
  shows "\<exists>c. map_of (lc_conns lc) ep = Some c \<and> lc' = lc\<lparr> lc_conns := gm_put ep (wrap64 (c + 1)) (lc_conns lc) \<rparr>"
  using assms by (auto simp: lc_Next_def Let_def split: sum.splits option.splits if_splits)

lemma lc_step_inv:
  assumes "lc_step s t" and "lc_inv eps s"
  shows "lc_inv eps t"
  using assms(1)
proof cases
  case (lc_pick h ep lc')
  obtain c where c: "map_of (lc_conns (sys_lc s)) ep = Some c"
    "lc' = (sys_lc s)\<lparr> lc_conns := gm_put ep (wrap64 (c + 1)) (lc_conns (sys_lc s)) \<rparr>"
    using lc_Next_result [OF lc_pick(2,3)] by blast
  then have "c = wrap64 (int (count (lc_inflight s) ep))" "ep \<in> set eps"
    using assms(2) by (auto simp: lc_inv_def split: if_splits)
  then show ?thesis
    using assms(2) c lc_pick wrap64_wrap64_add [of "int (count (lc_inflight s) ep)" 1]
    by (auto simp: lc_inv_def fun_eq_iff add.commute)
next
  case (lc_finish ep)
  then obtain n where n: "count (lc_inflight s) ep = Suc n"
    by (metis Suc_pred count_greater_zero_iff)
  show ?thesis
  proof (cases "ep \<in> set eps")
    case True
    then have "wrap64 (wrap64 (int (count (lc_inflight s) ep)) - 1) = wrap64 (int n)"
      using n wrap64_wrap64_add [of "int (Suc n)" "- 1"] by simp
    then show ?thesis
      using True assms(2) lc_finish n by (auto simp: lc_inv_def lc_Done_def fun_eq_iff)
  next
    case False
    then show ?thesis using assms(2) lc_finish by (auto simp: lc_inv_def lc_Done_def fun_eq_iff)
  qed
qed

lemma lc_reachable_inv: "lc_reachable eps s \<Longrightarrow> lc_inv eps s"
  by (induction rule: lc_reachable.induct)
    (auto simp: lc_inv_def NewLeastConn_fields wrap64_def lc_step_inv[unfolded lc_inv_def])

text \<open>With counters that are present and not negative, the scan finds a least one.\<close>

lemma lc_scan_min:
  assumes "\<forall>ep \<in> set eps. \<exists>c \<ge> 0. map_of conns ep = Some c" and "map_of conns best = Some bc" and "0 \<le> bc"
  shows "\<exists>b. lc_scan h conns eps best bc = Inr b \<and> b \<in> insert best (set (filter (passes h) eps)) \<and>
    (\<forall>x \<in> insert best (set (filter (passes h) eps)). the (map_of conns b) \<le> the (map_of conns x))"
  using assms
proof (induction eps arbitrary: best bc)
  case (Cons ep eps)
  then obtain c where c: "map_of conns ep = Some c" "0 \<le> c" by auto
  show ?case
  proof (cases "passes h ep \<and> c < bc")
    case True
    with Cons.IH [of ep c] Cons.prems c obtain b where
      "lc_scan h conns eps ep c = Inr b" "b \<in> insert ep (set (filter (passes h) eps))"
      "\<forall>x \<in> insert ep (set (filter (passes h) eps)). the (map_of conns b) \<le> the (map_of conns x)"
      by auto
    then show ?thesis using True c Cons.prems by (intro exI [of _ b]) auto
  next
    case False
    with Cons.IH [of best bc] Cons.prems obtain b where
      "lc_scan h conns eps best bc = Inr b" "b \<in> insert best (set (filter (passes h) eps))"
      "\<forall>x \<in> insert best (set (filter (passes h) eps)). the (map_of conns b) \<le> the (map_of conns x)"
      by auto
    then show ?thesis using False c Cons.prems by (intro exI [of _ b]) auto
  qed
qed simp

lemma lc_scan_start:
  assumes "\<forall>ep \<in> set eps. \<exists>c \<ge> 0. map_of conns ep = Some c"
  shows "if filter (passes h) eps = [] then lc_scan h conns eps best (- 1) = Inr best
    else \<exists>b. lc_scan h conns eps best (- 1) = Inr b \<and> b \<in> set (filter (passes h) eps) \<and>
      (\<forall>x \<in> set (filter (passes h) eps). the (map_of conns b) \<le> the (map_of conns x))"
  using assms
proof (induction eps)
  case (Cons ep eps)
  then obtain c where c: "map_of conns ep = Some c" "0 \<le> c" by auto
  show ?case
  proof (cases "passes h ep")
    case True
    then show ?thesis using lc_scan_min [of eps conns ep c h] Cons.prems c by simp
  next
    case False
    then show ?thesis using Cons by (auto split: if_splits)
  qed
qed simp

text \<open>
  C20. In every reachable state of the least-connections balancer, with any interleaving of picks and
  completions and fewer than \<open>2^63\<close> requests in flight, the next pick succeeds, and while some endpoint
  is healthy it is a healthy one with the fewest requests in flight.
\<close>
theorem least_conn_picks_least_loaded:
  assumes "lc_reachable eps s" and "eps \<noteq> []" and "'''' \<notin> set eps" and "size (lc_inflight s) < 2 ^ 63"
  shows "\<exists>ep lc'. lc_Next h (sys_lc s) = (Inr ep, lc') \<and> ep \<in> set eps \<and>
    ((\<exists>x \<in> set eps. passes h x) \<longrightarrow> passes h ep \<and>
      (\<forall>x \<in> set eps. passes h x \<longrightarrow> count (lc_inflight s) ep \<le> count (lc_inflight s) x))"
proof -
  have inv: "lc_inv eps s" using assms(1) by (rule lc_reachable_inv)
  let ?m = "lc_conns (sys_lc s)"
  have lim: "int (count (lc_inflight s) x) < 2 ^ 63" for x
    using count_le_size [of "lc_inflight s" x] assms(4) by simp
  have cnt: "map_of ?m x = Some (int (count (lc_inflight s) x))" if "x \<in> set eps" for x
    using that inv lim [of x] by (simp add: lc_inv_def wrap64_id)
  have eps: "lc_endpoints (sys_lc s) = eps" using inv by (simp add: lc_inv_def)
  have "\<forall>ep \<in> set eps. \<exists>c \<ge> 0. map_of ?m ep = Some c" using cnt by auto
  note scan = lc_scan_start [OF this, of h "''''"]
  show ?thesis
  proof (cases "filter (passes h) eps = []")
    case True
    moreover have "hd eps \<in> set eps" "hd eps \<noteq> ''''" using assms(2,3) by (metis list.set_sel(1))+
    ultimately show ?thesis
      using scan eps assms(2) cnt by (auto simp: lc_Next_def Let_def filter_empty_conv)
  next
    case False
    with scan obtain b where b: "lc_scan h ?m eps '''' (- 1) = Inr b" "b \<in> set eps" "passes h b"
      "\<forall>x \<in> set eps. passes h x \<longrightarrow> the (map_of ?m b) \<le> the (map_of ?m x)"
      by auto
    moreover have "b \<noteq> ''''" using b(2) assms(3) by metis
    ultimately show ?thesis using eps cnt by (auto simp: lc_Next_def Let_def)
  qed
qed

theorem least_conn_picks_least_loaded_witness:
  "\<exists>ep lc'. lc_Next (Some (\<lambda>u. u \<noteq> ''a'')) (NewLeastConn [''a'', ''b'']) = (Inr ep, lc') \<and> ep = ''b''"
  using least_conn_picks_least_loaded [OF lc_init [of "[''a'', ''b'']"], of "Some (\<lambda>u. u \<noteq> ''a'')"]
  by (auto simp: passes_def)

end
