(* ===== verification/Observability.thy ===== *)
theory Observability
  imports Helix_Prelude
begin

text \<open>
  What the gateway remembers of its traffic and of its administration: the audit log of
  \<open>internal/audit/log.go\<close> and the route tracker of \<open>internal/metrics/tracker.go\<close>. Both keep a window
  of recent entries by dropping the oldest before they append; the locale \<open>window\<close> states that step
  and derives what the window holds after any sequence of entries.

  Latencies are integers, in milliseconds; averages and rates are exact quotients where the source
  has 64-bit floats. The index of the 99th percentile, \<open>int(float64(n) * 0.99)\<close>, is \<open>n * 99 div 100\<close>:
  the window holds at most 1000 entries, and for those the rounded product has that integer part.
\<close>

section \<open>Audit log\<close>

record Entry =
  a_Time :: "int option"
  a_Action :: string
  a_Resource :: string
  a_ResourceID :: string
  a_User :: string
  a_RemoteAddr :: string
  a_Details :: any

record audit_log =
  al_entries :: "Entry list"
  al_maxSize :: int

definition defaultMaxSize :: int where
  "defaultMaxSize = 2000"

definition audit_New :: "int \<Rightarrow> audit_log" where
  "audit_New maxSize = \<lparr> al_entries = [], al_maxSize = (if maxSize \<le> 0 then defaultMaxSize else maxSize) \<rparr>"

text \<open>\<open>a_Time = None\<close> is the zero time, which \<open>Record\<close> replaces by the clock.\<close>

definition audit_stamp :: "int \<Rightarrow> Entry \<Rightarrow> Entry" where
  "audit_stamp now e = (case a_Time e of None \<Rightarrow> e\<lparr> a_Time := Some now \<rparr> | Some _ \<Rightarrow> e)"

definition audit_push :: "int \<Rightarrow> Entry \<Rightarrow> Entry list \<Rightarrow> Entry list" where
  "audit_push maxSize e es = (if int (length es) \<ge> maxSize then drop 1 es else es) @ [e]"

definition audit_Record :: "int \<Rightarrow> Entry \<Rightarrow> audit_log \<Rightarrow> audit_log" where
  "audit_Record now e l = l\<lparr> al_entries := audit_push (al_maxSize l) (audit_stamp now e) (al_entries l) \<rparr>"

definition audit_List :: "int \<Rightarrow> audit_log \<Rightarrow> Entry list" where
  "audit_List limit l =
     (let n = int (length (al_entries l)); limit' = (if limit \<le> 0 \<or> limit > n then n else limit)
      in take (nat limit') (drop (nat (n - limit')) (al_entries l)))"

section \<open>Route tracker\<close>

record counter =
  c_name :: string
  c_requests :: int
  c_errors :: int
  c_latSum :: int
  c_latWindow :: "int list"

type_synonym tracker = "(string, counter) gomap"

record RouteSnapshot =
  rs_RouteID :: string
  rs_RouteName :: string
  rs_Requests :: int
  rs_Errors :: int
  rs_AvgLatencyMs :: rat
  rs_ErrorRate :: rat
  rs_P99LatencyMs :: int

record Snapshot =
  ss_Routes :: "RouteSnapshot list"
  ss_TotalReqs :: int
  ss_TotalErrs :: int

definition windowSize :: int where
  "windowSize = 1000"

definition recordLatency :: "int \<Rightarrow> int list \<Rightarrow> int list" where
  "recordLatency ms w = (if int (length w) \<ge> windowSize then drop 1 w else w) @ [ms]"

definition p99 :: "int list \<Rightarrow> int" where
  "p99 w =
     (if w = [] then 0
      else let cp = sort w; idx = length cp * 99 div 100
           in cp ! (if idx \<ge> length cp then length cp - 1 else idx))"

definition NewTracker :: tracker where
  "NewTracker = []"

definition getOrCreate :: "string \<Rightarrow> string \<Rightarrow> tracker \<Rightarrow> counter" where
  "getOrCreate routeID routeName t =
     (case map_of t routeID of
        Some c \<Rightarrow> c
      | None \<Rightarrow> \<lparr> c_name = routeName, c_requests = 0, c_errors = 0, c_latSum = 0, c_latWindow = [] \<rparr>)"

text \<open>\<open>latency.Milliseconds()\<close> truncates toward zero; latencies are not negative.\<close>

definition Track :: "string \<Rightarrow> string \<Rightarrow> int \<Rightarrow> int \<Rightarrow> tracker \<Rightarrow> tracker" where
  "Track routeID routeName statusCode latency t =
     (let c = getOrCreate routeID routeName t; ms = latency div 1000000
      in gm_put routeID
           \<lparr> c_name = c_name c, c_requests = c_requests c + 1,
             c_errors = (if statusCode \<ge> 400 then c_errors c + 1 else c_errors c),
             c_latSum = c_latSum c + ms, c_latWindow = recordLatency ms (c_latWindow c) \<rparr> t)"

definition route_snapshot :: "string \<Rightarrow> counter \<Rightarrow> RouteSnapshot" where
  "route_snapshot rid c = \<lparr> rs_RouteID = rid, rs_RouteName = c_name c, rs_Requests = c_requests c,
     rs_Errors = c_errors c,
     rs_AvgLatencyMs = (if c_requests c > 0 then of_int (c_latSum c) / of_int (c_requests c) else 0),
     rs_ErrorRate = (if c_requests c > 0 then of_int (c_errors c) / of_int (c_requests c) * 100 else 0),
     rs_P99LatencyMs = p99 (c_latWindow c) \<rparr>"

text \<open>
  \<open>order\<close> is the order of the range over the map and \<open>sorter\<close> the result of \<open>sort.Slice\<close> by name,
  which is not stable.
\<close>

definition tracker_Snapshot ::
  "((string, counter) gomap \<Rightarrow> (string, counter) gomap) \<Rightarrow> (RouteSnapshot list \<Rightarrow> RouteSnapshot list) \<Rightarrow> tracker \<Rightarrow> Snapshot" where
  "tracker_Snapshot order sorter t =
     (let es = order t
      in \<lparr> ss_Routes = sorter (map (\<lambda>(rid, c). route_snapshot rid c) es),
           ss_TotalReqs = sum_list (map (\<lambda>(rid, c). c_requests c) es),
           ss_TotalErrs = sum_list (map (\<lambda>(rid, c). c_errors c) es) \<rparr>)"

section \<open>Windows\<close>

text \<open>The last \<open>n\<close> elements of a list.\<close>

definition last_n :: "nat \<Rightarrow> 'a list \<Rightarrow> 'a list" where
  "last_n n xs = drop (length xs - n) xs"

lemma last_n_length [simp]: "length (last_n n xs) = min n (length xs)"
  by (simp add: last_n_def)

lemma last_n_snoc: "0 < n \<Longrightarrow> last_n n (xs @ [x]) = drop (if length (last_n n xs) \<ge> n then 1 else 0) (last_n n xs) @ [x]"
  by (auto simp: last_n_def min_def Suc_diff_le)

locale window =
  fixes push :: "'a \<Rightarrow> 'a list \<Rightarrow> 'a list"
    and capacity :: nat
  assumes capacity_pos: "0 < capacity"
    and push_full: "capacity \<le> length w \<Longrightarrow> push x w = drop 1 w @ [x]"
    and push_room: "length w < capacity \<Longrightarrow> push x w = w @ [x]"
begin

lemma push_last_n: "push x (last_n capacity xs) = last_n capacity (xs @ [x])"
  using push_full [of "last_n capacity xs" x] push_room [of "last_n capacity xs" x] capacity_pos
  by (cases "capacity \<le> length (last_n capacity xs)") (simp_all add: last_n_snoc del: last_n_length)

lemma fold_push: "fold push ys (last_n capacity xs) = last_n capacity (xs @ ys)"
proof (induction ys arbitrary: xs)
  case (Cons y ys)
  have "fold push (y # ys) (last_n capacity xs) = fold push ys (last_n capacity (xs @ [y]))"
    by (simp add: push_last_n)
  also have "\<dots> = last_n capacity ((xs @ [y]) @ ys)" by (rule Cons.IH)
  finally show ?case by simp
qed simp

lemma fold_push_Nil: "fold push ys [] = last_n capacity ys"
  using fold_push [of ys "[]"] by (simp add: last_n_def)

end

interpretation latencies: window recordLatency "nat windowSize"
  by unfold_locales (auto simp: recordLatency_def windowSize_def)

lemma audit_window: "0 < m \<Longrightarrow> window (audit_push m) (nat m)"
  by unfold_locales (auto simp: audit_push_def)

interpretation default_audit: window "audit_push defaultMaxSize" "nat defaultMaxSize"
  by (rule audit_window) (simp add: defaultMaxSize_def)

section \<open>Audit log: properties\<close>

lemma audit_Record_fold:
  "al_maxSize (fold (\<lambda>(now, e). audit_Record now e) es l) = al_maxSize l \<and>
   al_entries (fold (\<lambda>(now, e). audit_Record now e) es l) =
     fold (audit_push (al_maxSize l)) (map (\<lambda>(now, e). audit_stamp now e) es) (al_entries l)"
  by (induction es arbitrary: l) (auto simp: audit_Record_def)

lemma audit_List_last_n:
  "audit_List limit l = last_n (if limit \<le> 0 then length (al_entries l) else nat limit) (al_entries l)"
  by (auto simp: audit_List_def last_n_def Let_def nat_diff_distrib)

text \<open>
  The audit log holds the most recent entries up to its size (2000 when the configured size is not
  positive), oldest first and stamped, and \<open>List\<close> returns the newest of them: after any sequence of
  records nothing recent is lost and the log never grows beyond its bound.
\<close>
theorem audit_log_keeps_latest:
  "audit_List limit (fold (\<lambda>(now, e). audit_Record now e) es (audit_New m)) =
     (let kept = last_n (nat (if m \<le> 0 then 2000 else m)) (map (\<lambda>(now, e). audit_stamp now e) es)
      in last_n (if limit \<le> 0 then length kept else nat limit) kept)"
proof -
  let ?m = "if m \<le> 0 then defaultMaxSize else m"
  have "window (audit_push ?m) (nat ?m)" by (rule audit_window) (simp add: defaultMaxSize_def)
  then have "fold (audit_push ?m) xs [] = last_n (nat ?m) xs" for xs by (rule window.fold_push_Nil)
  then show ?thesis
    using audit_Record_fold [of es "audit_New m"]
    by (simp add: audit_List_last_n audit_New_def Let_def defaultMaxSize_def)
qed

section \<open>Tracker: properties\<close>

text \<open>A tracked request, and what the tracker should hold of a route after a history of them.\<close>

record tracked =
  tr_route :: string
  tr_name :: string
  tr_status :: int
  tr_latency :: int

definition track_event :: "tracked \<Rightarrow> tracker \<Rightarrow> tracker" where
  "track_event ev = Track (tr_route ev) (tr_name ev) (tr_status ev) (tr_latency ev)"

definition tracked_ms :: "tracked \<Rightarrow> int" where
  "tracked_ms ev = tr_latency ev div 1000000"

definition counter_of :: "tracked list \<Rightarrow> counter option" where
  "counter_of evs =
     (if evs = [] then None
      else Some \<lparr> c_name = tr_name (hd evs), c_requests = int (length evs),
        c_errors = int (length (filter (\<lambda>ev. tr_status ev \<ge> 400) evs)),
        c_latSum = sum_list (map tracked_ms evs),
        c_latWindow = last_n 1000 (map tracked_ms evs) \<rparr>)"

lemma recordLatency_last_n: "recordLatency x (last_n 1000 xs) = last_n 1000 (xs @ [x])"
  using latencies.push_last_n [of x xs] by (simp add: windowSize_def)

lemma last_n_Nil [simp]: "last_n n [] = []"
  by (simp add: last_n_def)

lemma track_event_other: "rid \<noteq> tr_route ev \<Longrightarrow> map_of (track_event ev t) rid = map_of t rid"
  by (simp add: track_event_def Track_def Let_def)

lemma track_event_same:
  assumes "map_of t (tr_route ev) = counter_of evs"
  shows "map_of (track_event ev t) (tr_route ev) = counter_of (evs @ [ev])"
  using assms recordLatency_last_n [of "tr_latency ev div 1000000" "map tracked_ms evs"]
    recordLatency_last_n [of "tr_latency ev div 1000000" "[]"]
  by (cases "evs = []")
    (simp_all add: counter_of_def track_event_def Track_def getOrCreate_def Let_def tracked_ms_def)

lemma tracker_history:
  "map_of (fold track_event evs NewTracker) rid = counter_of (filter (\<lambda>ev. tr_route ev = rid) evs)"
proof (induction evs rule: rev_induct)
  case Nil
  then show ?case by (simp add: NewTracker_def counter_of_def)
next
  case (snoc ev evs)
  then show ?case
    by (cases "tr_route ev = rid") (auto simp: track_event_other intro: track_event_same)
qed

text \<open>
  C23. The tracker is a function of the history of requests: after any sequence of them the counter of a
  route holds the number of its requests, of those with status 400 or above, the sum of its latencies and
  its last 1000 latencies, under the name it had first, and a route that was never tracked has no counter.
\<close>
theorem tracker_counts_history:
  "map_of (fold track_event evs NewTracker) rid = counter_of (filter (\<lambda>ev. tr_route ev = rid) evs)"
  by (rule tracker_history)

lemma tracker_wf: "gm_wf (fold track_event evs NewTracker)"
  by (induction evs rule: rev_induct) (auto simp: NewTracker_def track_event_def Track_def Let_def)

lemma sum_over_map:
  assumes "gm_wf m"
  shows "sum_list (map (\<lambda>(k, v). f k v) m) = (\<Sum>k \<in> dom (map_of m). f k (the (map_of m k)))"
proof -
  have keys: "distinct (map fst m)" using assms by (simp add: gm_wf_def)
  then have "sum_list (map (\<lambda>k. f k (the (map_of m k))) (map fst m)) = (\<Sum>k \<in> set (map fst m). f k (the (map_of m k)))"
    by (rule sum_list_distinct_conv_sum_set)
  moreover have "map (\<lambda>(k, v). f k v) m = map (\<lambda>k. f k (the (map_of m k))) (map fst m)"
    using assms by (auto simp: gm_mem_iff)
  ultimately show ?thesis by (simp only: dom_map_of_conv_image_fst set_map)
qed

lemma sum_list_perm: "mset xs = mset ys \<Longrightarrow> sum_list (map f xs) = sum_list (map f ys)" for f :: "'a \<Rightarrow> int"
  by (metis mset_map sum_mset_sum_list)

text \<open>Adding up a per-route count over the routes of a history counts the history.\<close>

lemma sum_routes_length:
  "(\<Sum>rid \<in> tr_route ` set evs. int (length (filter (\<lambda>ev. tr_route ev = rid \<and> P ev) evs))) = int (length (filter P evs))"
proof -
  have "(\<Sum>rid \<in> R. int (length (filter (\<lambda>ev. tr_route ev = rid \<and> P ev) es))) = int (length (filter P es))"
    if "finite R" "tr_route ` set es \<subseteq> R" for R es
    using that(2)
  proof (induction es)
    case (Cons e es)
    have "(\<Sum>rid \<in> R. int (length (filter (\<lambda>ev. tr_route ev = rid \<and> P ev) (e # es)))) =
      (\<Sum>rid \<in> R. (if rid = tr_route e then (if P e then 1 else 0) else 0) + int (length (filter (\<lambda>ev. tr_route ev = rid \<and> P ev) es)))"
      by (intro sum.cong) auto
    also have "\<dots> = (if P e then 1 else 0) + int (length (filter P es))"
      using Cons that(1) by (simp add: sum.distrib)
    finally show ?case by simp
  qed simp
  from this [of "tr_route ` set evs" evs] show ?thesis by simp
qed

text \<open>
  A snapshot adds up: whatever order the map is visited in, the totals are the numbers of requests and
  of failed requests tracked so far, and every route is reported with an error rate between 0 and 100.
\<close>
theorem snapshot_totals:
  assumes "range_order order" and "\<And>xs. mset (sorter xs) = mset xs"
  defines "snap \<equiv> (\<lambda>evs. tracker_Snapshot order sorter (fold track_event evs NewTracker))"
  shows "ss_TotalReqs (snap evs) = int (length evs) \<and>
    ss_TotalErrs (snap evs) = int (length (filter (\<lambda>ev. tr_status ev \<ge> 400) evs)) \<and>
    rs_RouteID ` set (ss_Routes (snap evs)) = tr_route ` set evs \<and>
    (\<forall>r \<in> set (ss_Routes (snap evs)). 0 \<le> rs_ErrorRate r \<and> rs_ErrorRate r \<le> 100)"
proof -
  let ?t = "fold track_event evs NewTracker"
  have wf: "gm_wf ?t" by (rule tracker_wf)
  have dom: "dom (map_of ?t) = tr_route ` set evs"
    by (auto simp: tracker_history counter_of_def filter_empty_conv split: if_splits)
  have cnt: "c_requests (the (map_of ?t rid)) = int (length (filter (\<lambda>ev. tr_route ev = rid \<and> True) evs)) \<and>
    c_errors (the (map_of ?t rid)) = int (length (filter (\<lambda>ev. tr_route ev = rid \<and> tr_status ev \<ge> 400) evs))"
    if "rid \<in> tr_route ` set evs" for rid
    using that by (auto simp: tracker_history counter_of_def filter_empty_conv conj_commute)
  have "sum_list (map (\<lambda>(rid, c). g c) (order ?t)) = (\<Sum>rid \<in> tr_route ` set evs. g (the (map_of ?t rid)))" for g :: "counter \<Rightarrow> int"
    using sum_list_perm [OF range_orderD [OF assms(1)], of "\<lambda>(rid, c). g c" ?t] sum_over_map [OF wf, of "\<lambda>_. g"]
    by (simp add: dom)
  then have tot: "ss_TotalReqs (snap evs) = int (length evs)"
    "ss_TotalErrs (snap evs) = int (length (filter (\<lambda>ev. tr_status ev \<ge> 400) evs))"
    using cnt sum_routes_length [of "\<lambda>_. True" evs] sum_routes_length [of "\<lambda>ev. tr_status ev \<ge> 400" evs]
    by (simp_all add: snap_def tracker_Snapshot_def Let_def)
  have rows: "set (ss_Routes (snap evs)) = (\<lambda>(rid, c). route_snapshot rid c) ` set ?t"
    using assms(1,2) by (simp add: snap_def tracker_Snapshot_def Let_def) (metis (no_types, lifting) list.set_map mset_eq_setD range_order_set)
  have ids: "rs_RouteID ` set (ss_Routes (snap evs)) = tr_route ` set evs"
    unfolding rows image_image using dom by (auto simp: route_snapshot_def dom_map_of_conv_image_fst split_beta image_iff)
  have rate: "0 \<le> rs_ErrorRate r \<and> rs_ErrorRate r \<le> 100" if r: "r \<in> set (ss_Routes (snap evs))" for r
  proof -
    obtain rid c where rc: "(rid, c) \<in> set ?t" "r = route_snapshot rid c" using r rows by auto
    then have "map_of ?t rid = Some c" using wf by (simp add: gm_mem_iff)
    then have "0 \<le> c_errors c" "c_errors c \<le> c_requests c"
      using length_filter_le [of "\<lambda>ev. 400 \<le> tr_status ev" "filter (\<lambda>ev. tr_route ev = rid) evs"]
      by (auto simp: tracker_history counter_of_def simp del: filter_filter split: if_splits)
    then show ?thesis by (simp add: rc(2) route_snapshot_def divide_le_eq)
  qed
  show ?thesis using tot ids rate by blast
qed

lemma sorted_count_le:
  assumes "i < length xs"
  shows "Suc i \<le> length (filter (\<lambda>y. y \<le> sort xs ! i) xs)" and "length (filter (\<lambda>y. y < sort xs ! i) xs) \<le> i"
proof -
  let ?s = "sort xs"
  have same: "length (filter P xs) = length (filter P ?s)" for P
    by (metis mset_filter mset_sort size_mset)
  have "\<forall>y \<in> set (take (Suc i) ?s). y \<le> ?s ! i"
    using assms by (auto simp: in_set_conv_nth intro!: sorted_nth_mono)
  then have "length (filter (\<lambda>y. y \<le> ?s ! i) (take (Suc i) ?s)) = Suc i" using assms by simp
  moreover have "filter (\<lambda>y. y \<le> ?s ! i) ?s =
      filter (\<lambda>y. y \<le> ?s ! i) (take (Suc i) ?s) @ filter (\<lambda>y. y \<le> ?s ! i) (drop (Suc i) ?s)"
    by (metis append_take_drop_id filter_append)
  ultimately show "Suc i \<le> length (filter (\<lambda>y. y \<le> ?s ! i) xs)" by (simp add: same)
  have "\<forall>y \<in> set (drop i ?s). \<not> y < ?s ! i"
    using assms by (auto simp: in_set_conv_nth not_less intro!: sorted_nth_mono)
  then have "filter (\<lambda>y. y < ?s ! i) (drop i ?s) = []" by (simp add: filter_empty_conv)
  moreover have "filter (\<lambda>y. y < ?s ! i) ?s = filter (\<lambda>y. y < ?s ! i) (take i ?s) @ filter (\<lambda>y. y < ?s ! i) (drop i ?s)"
    by (metis append_take_drop_id filter_append)
  moreover have "length (filter (\<lambda>y. y < ?s ! i) (take i ?s)) \<le> length (take i ?s)" by (rule length_filter_le)
  ultimately show "length (filter (\<lambda>y. y < ?s ! i) xs) \<le> i" using assms by (simp add: same)
qed

text \<open>
  The reported 99th percentile is a percentile: it is one of the latencies of the window, more than
  99 percent of the window is at most that large, and at most 99 percent is smaller.
\<close>
theorem p99_is_percentile:
  assumes "w \<noteq> []"
  shows "p99 w \<in> set w \<and> 99 * length w < 100 * length (filter (\<lambda>x. x \<le> p99 w) w) \<and>
    100 * length (filter (\<lambda>x. x < p99 w) w) \<le> 99 * length w"
proof -
  let ?i = "length w * 99 div 100"
  have i: "?i < length w" using assms by (cases w) auto
  then have p: "p99 w = sort w ! ?i" using assms by (simp add: p99_def Let_def)
  have "sort w ! ?i \<in> set (sort w)" using i by (intro nth_mem) simp
  moreover have "99 * length w < 100 * Suc ?i" "100 * ?i \<le> 99 * length w" by auto
  ultimately show ?thesis using sorted_count_le [OF i] unfolding p by (auto intro: less_le_trans order_trans)
qed

theorem snapshot_totals_witness:
  "ss_TotalReqs (tracker_Snapshot rev (\<lambda>xs. xs)
     (fold track_event [\<lparr> tr_route = ''r'', tr_name = ''n'', tr_status = 200, tr_latency = 5000000 \<rparr>,
        \<lparr> tr_route = ''q'', tr_name = ''m'', tr_status = 503, tr_latency = 0 \<rparr>] NewTracker)) = 2"
  using snapshot_totals [of rev "\<lambda>xs. xs" "[\<lparr> tr_route = ''r'', tr_name = ''n'', tr_status = 200, tr_latency = 5000000 \<rparr>,
        \<lparr> tr_route = ''q'', tr_name = ''m'', tr_status = 503, tr_latency = 0 \<rparr>]"]
  by (simp add: range_order_rev del: fold_simps)

theorem p99_is_percentile_witness: "p99 [3, 1, 2] \<in> {3, 1, 2}"
  using p99_is_percentile [of "[3, 1, 2]"] by simp

end
