(* ===== verification/Rate_Limit.thy ===== *)
theory Rate_Limit
  imports Helix_Prelude "HOL-Library.Finite_Map"
begin

text \<open>
  The rate limiter of \<open>internal/ratelimit\<close>: the two Lua scripts that run inside Redis, the Go calls
  that run them, and \<open>Limiter.check\<close> that combines their answers.

  Redis itself is a parameter: \<open>redis_api\<close> holds the commands the scripts use, on an abstract server
  state, and \<open>redis_laws\<close> says what Redis documents of them (hashes, sorted sets, expiry of keys).
  A script runs atomically, so one run is one function on the server state. Tokens and rates are exact
  fractions where Lua has 64-bit floats; times are milliseconds.
\<close>

section \<open>Redis\<close>

text \<open>
  \<open>rd_at now\<close> is the server when its clock reads \<open>now\<close>: keys whose time to live has run out are gone.
  \<open>rd_zset\<close> and \<open>rd_deadline\<close> do not occur in the scripts; they observe the server for the laws.
\<close>

record 'r redis_api =
  rd_at :: "int \<Rightarrow> 'r \<Rightarrow> 'r"
  rd_HMGET :: "'r \<Rightarrow> string \<Rightarrow> rat option \<times> rat option"
  rd_HMSET :: "string \<Rightarrow> rat \<Rightarrow> rat \<Rightarrow> 'r \<Rightarrow> 'r"
  rd_ZREMRANGEBYSCORE :: "string \<Rightarrow> int \<Rightarrow> 'r \<Rightarrow> 'r"
  rd_ZCARD :: "'r \<Rightarrow> string \<Rightarrow> int"
  rd_ZADD :: "string \<Rightarrow> int \<Rightarrow> string \<Rightarrow> 'r \<Rightarrow> 'r"
  rd_PEXPIRE :: "int \<Rightarrow> string \<Rightarrow> int \<Rightarrow> 'r \<Rightarrow> 'r"
  rd_zset :: "'r \<Rightarrow> string \<Rightarrow> (string \<rightharpoonup> int)"
  rd_deadline :: "'r \<Rightarrow> string \<Rightarrow> int option"

definition rd_expired :: "'r redis_api \<Rightarrow> int \<Rightarrow> 'r \<Rightarrow> string \<Rightarrow> bool" where
  "rd_expired api now r k = (case rd_deadline api r k of None \<Rightarrow> False | Some d \<Rightarrow> d \<le> now)"

definition redis_laws :: "'r redis_api \<Rightarrow> bool" where
  "redis_laws api \<longleftrightarrow>
     (\<forall>r k now. rd_zset api (rd_at api now r) k = (if rd_expired api now r k then Map.empty else rd_zset api r k)) \<and>
     (\<forall>r k now. rd_HMGET api (rd_at api now r) k = (if rd_expired api now r k then (None, None) else rd_HMGET api r k)) \<and>
     (\<forall>r k now. rd_deadline api (rd_at api now r) k = (if rd_expired api now r k then None else rd_deadline api r k)) \<and>
     (\<forall>r k t ts. rd_HMGET api (rd_HMSET api k t ts r) k = (Some t, Some ts)) \<and>
     (\<forall>r k mx. rd_zset api (rd_ZREMRANGEBYSCORE api k mx r) k =
        (\<lambda>m. case rd_zset api r k m of None \<Rightarrow> None | Some s \<Rightarrow> if s \<le> mx then None else Some s)) \<and>
     (\<forall>r k mx. rd_deadline api (rd_ZREMRANGEBYSCORE api k mx r) k = rd_deadline api r k) \<and>
     (\<forall>r k. finite (dom (rd_zset api r k)) \<and> rd_ZCARD api r k = int (card (dom (rd_zset api r k)))) \<and>
     (\<forall>r k s m. rd_zset api (rd_ZADD api k s m r) k = (rd_zset api r k)(m \<mapsto> s)) \<and>
     (\<forall>r k now ttl. rd_zset api (rd_PEXPIRE api now k ttl r) k = rd_zset api r k) \<and>
     (\<forall>r k now ttl. rd_HMGET api (rd_PEXPIRE api now k ttl r) k = rd_HMGET api r k) \<and>
     (\<forall>r k now ttl. rd_deadline api (rd_PEXPIRE api now k ttl r) k = Some (now + ttl))"

section \<open>The scripts\<close>

text \<open>
  A script returns its pair of integers, or \<open>None\<close> when Lua raises an error: reading \<open>ts\<close> of a hash
  that has \<open>t\<close> but no \<open>ts\<close> is arithmetic on nil.
\<close>

definition tokenBucketScript ::
  "'r redis_api \<Rightarrow> string \<Rightarrow> rat \<Rightarrow> rat \<Rightarrow> int \<Rightarrow> rat \<Rightarrow> 'r \<Rightarrow> (int \<times> int) option \<times> 'r" where
  "tokenBucketScript api key capacity rate now_ms cost r0 =
     (let r = rd_at api now_ms r0; (t, tm) = rd_HMGET api r key;
          start = (case t of None \<Rightarrow> Some (capacity, of_int now_ms)
                   | Some tokens \<Rightarrow> (case tm of None \<Rightarrow> None | Some ts \<Rightarrow> Some (tokens, ts)))
      in case start of
           None \<Rightarrow> (None, r)
         | Some (tokens0, ts0) \<Rightarrow>
             let elapsed = (of_int now_ms - ts0) / 1000;
                 tokens1 = min capacity (tokens0 + elapsed * rate);
                 allowed = tokens1 \<ge> cost;
                 tokens2 = (if allowed then tokens1 - cost else tokens1);
                 r1 = rd_HMSET api key tokens2 (of_int now_ms) r;
                 r2 = rd_PEXPIRE api now_ms key 3600000 r1
             in (Some (if allowed then 1 else 0, \<lfloor>tokens2\<rfloor>), r2))"

definition slidingWindowScript ::
  "'r redis_api \<Rightarrow> string \<Rightarrow> int \<Rightarrow> int \<Rightarrow> int \<Rightarrow> string \<Rightarrow> 'r \<Rightarrow> (int \<times> int) option \<times> 'r" where
  "slidingWindowScript api key now_ms win_ms limit req_id r0 =
     (let r = rd_ZREMRANGEBYSCORE api key (now_ms - win_ms) (rd_at api now_ms r0);
          n = rd_ZCARD api r key
      in if n < limit
         then let r1 = rd_ZADD api key now_ms req_id r; r2 = rd_PEXPIRE api now_ms key (win_ms + 1000) r1
              in (Some (1, limit - n - 1), r2)
         else (Some (0, 0), r))"

section \<open>The Go side\<close>

record TokenBucket =
  tb_capacity :: rat
  tb_rate :: rat

text \<open>The window is in milliseconds, as \<open>sw.window.Milliseconds()\<close> passes it.\<close>

record SlidingWindow =
  sw_window :: int
  sw_limit :: int

record Limiter =
  ipTB :: TokenBucket
  ipSW :: SlidingWindow
  userTB :: TokenBucket
  userSW :: SlidingWindow
  authTB :: TokenBucket
  authSW :: SlidingWindow

text \<open>
  How one \<open>script.Run\<close> ends: with the script's answer, with an error before the script ran, or with an
  error after it ran, as when the reply is lost.
\<close>

datatype script_io = Run_ok | Run_fails | Run_lost

definition run_script :: "script_io \<Rightarrow> ('r \<Rightarrow> (int \<times> int) option \<times> 'r) \<Rightarrow> 'r \<Rightarrow> (int \<times> int) option \<times> 'r" where
  "run_script io script r =
     (case io of Run_ok \<Rightarrow> script r | Run_fails \<Rightarrow> (None, r) | Run_lost \<Rightarrow> (None, snd (script r)))"

text \<open>\<open>allow\<close> returns whether the request is allowed, what remains, and whether there was an error.\<close>

definition tb_allow ::
  "'r redis_api \<Rightarrow> script_io \<Rightarrow> int \<Rightarrow> TokenBucket \<Rightarrow> string \<Rightarrow> 'r \<Rightarrow> (bool \<times> int \<times> bool) \<times> 'r" where
  "tb_allow api io now tb key r =
     (case run_script io (tokenBucketScript api (''rl:tb:'' @ key) (tb_capacity tb) (tb_rate tb) now 1) r of
        (None, r') \<Rightarrow> ((True, 0, True), r')
      | (Some (a, rem), r') \<Rightarrow> ((a = 1, rem, False), r'))"

text \<open>\<open>reqID\<close>: the member that a request adds to the sorted set, from the eight random bytes.\<close>

definition reqID :: "string \<Rightarrow> string" where
  "reqID b = hex_encode b"

definition sw_allow ::
  "'r redis_api \<Rightarrow> script_io \<Rightarrow> int \<Rightarrow> string \<Rightarrow> SlidingWindow \<Rightarrow> string \<Rightarrow> 'r \<Rightarrow> (bool \<times> int \<times> bool) \<times> 'r" where
  "sw_allow api io now member sw key r =
     (case run_script io (slidingWindowScript api (''rl:sw:'' @ key) now (sw_window sw) (sw_limit sw) member) r of
        (None, r') \<Rightarrow> ((True, 0, True), r')
      | (Some (a, rem), r') \<Rightarrow> ((a = 1, rem, False), r'))"

text \<open>What the run time supplies to one check: the clock at each call, the request id, the outcomes.\<close>

record check_env =
  ce_now_tb :: int
  ce_now_sw :: int
  ce_reqID :: string
  ce_tb :: script_io
  ce_sw :: script_io

definition limiter_check ::
  "'r redis_api \<Rightarrow> check_env \<Rightarrow> string \<Rightarrow> TokenBucket \<Rightarrow> SlidingWindow \<Rightarrow> 'r \<Rightarrow> bool \<times> 'r" where
  "limiter_check api e key tb sw r =
     (let ((tbOK, _, tbErr), r1) = tb_allow api (ce_tb e) (ce_now_tb e) tb key r;
          ((swOK, _, swErr), r2) = sw_allow api (ce_sw e) (ce_now_sw e) (ce_reqID e) sw key r1
      in (if tbErr \<and> swErr then True
          else if tbErr then swOK
          else if swErr then tbOK
          else tbOK \<and> swOK, r2))"

definition AllowIP :: "'r redis_api \<Rightarrow> check_env \<Rightarrow> Limiter \<Rightarrow> string \<Rightarrow> 'r \<Rightarrow> bool \<times> 'r" where
  "AllowIP api e l ip = limiter_check api e (''ip:'' @ ip) (ipTB l) (ipSW l)"

definition AllowUser :: "'r redis_api \<Rightarrow> check_env \<Rightarrow> Limiter \<Rightarrow> string \<Rightarrow> 'r \<Rightarrow> bool \<times> 'r" where
  "AllowUser api e l userID = limiter_check api e (''user:'' @ userID) (userTB l) (userSW l)"

definition AllowAuth :: "'r redis_api \<Rightarrow> check_env \<Rightarrow> Limiter \<Rightarrow> string \<Rightarrow> 'r \<Rightarrow> bool \<times> 'r" where
  "AllowAuth api e l ip = limiter_check api e (''auth:'' @ ip) (authTB l) (authSW l)"

section \<open>Runs of a script on one key\<close>

text \<open>The times of the calls and whether each was allowed.\<close>

fun tb_run :: "'r redis_api \<Rightarrow> string \<Rightarrow> rat \<Rightarrow> rat \<Rightarrow> int list \<Rightarrow> 'r \<Rightarrow> bool list" where
  "tb_run api key cap rate [] r = []"
| "tb_run api key cap rate (now # nows) r =
     (let (res, r') = tokenBucketScript api key cap rate now 1 r
      in (case res of Some (a, _) \<Rightarrow> a = 1 | None \<Rightarrow> False) # tb_run api key cap rate nows r')"

fun sw_run :: "'r redis_api \<Rightarrow> string \<Rightarrow> int \<Rightarrow> int \<Rightarrow> (int \<times> string) list \<Rightarrow> 'r \<Rightarrow> (int \<times> string) list" where
  "sw_run api key win limit [] r = []"
| "sw_run api key win limit ((now, rid) # calls) r =
     (let (res, r') = slidingWindowScript api key now win limit rid r
      in (case res of Some (a, _) \<Rightarrow> if a = 1 then [(now, rid)] else [] | None \<Rightarrow> []) @
         sw_run api key win limit calls r')"

text \<open>The requests of a history that fall into the window that ends at \<open>T\<close>.\<close>

definition in_window :: "int \<Rightarrow> int \<Rightarrow> (int \<times> string) list \<Rightarrow> (int \<times> string) list" where
  "in_window win T hist = filter (\<lambda>(t, _). T - win < t \<and> t \<le> T) hist"

text \<open>
  A concrete server, to show that the laws can hold: per key a hash, a sorted set and a deadline.
\<close>

type_synonym toy = "string \<Rightarrow> (rat \<times> rat) option \<times> (string, int) fmap \<times> int option"

definition toy_redis :: "toy redis_api" where
  "toy_redis = \<lparr>
     rd_at = (\<lambda>now r k. case snd (snd (r k)) of None \<Rightarrow> r k | Some d \<Rightarrow> if d \<le> now then (None, fmempty, None) else r k),
     rd_HMGET = (\<lambda>r k. case fst (r k) of None \<Rightarrow> (None, None) | Some (t, ts) \<Rightarrow> (Some t, Some ts)),
     rd_HMSET = (\<lambda>k t ts r. r(k := (Some (t, ts), snd (r k)))),
     rd_ZREMRANGEBYSCORE = (\<lambda>k mx r. r(k := (fst (r k),
        fmfilter (\<lambda>m. case fmlookup (fst (snd (r k))) m of None \<Rightarrow> False | Some s \<Rightarrow> \<not> s \<le> mx) (fst (snd (r k))),
        snd (snd (r k))))),
     rd_ZCARD = (\<lambda>r k. int (card (dom (fmlookup (fst (snd (r k))))))),
     rd_ZADD = (\<lambda>k s m r. r(k := (fst (r k), fmupd m s (fst (snd (r k))), snd (snd (r k))))),
     rd_PEXPIRE = (\<lambda>now k ttl r. r(k := (fst (r k), fst (snd (r k)), Some (now + ttl)))),
     rd_zset = (\<lambda>r k. fmlookup (fst (snd (r k)))),
     rd_deadline = (\<lambda>r k. snd (snd (r k))) \<rparr>"

section \<open>The laws, one by one\<close>

lemma redis_zset_at: "redis_laws api \<Longrightarrow> rd_zset api (rd_at api now r) k = (if rd_expired api now r k then Map.empty else rd_zset api r k)"
  by (simp add: redis_laws_def)

lemma redis_HMGET_at: "redis_laws api \<Longrightarrow> rd_HMGET api (rd_at api now r) k = (if rd_expired api now r k then (None, None) else rd_HMGET api r k)"
  by (simp add: redis_laws_def)

lemma redis_deadline_at: "redis_laws api \<Longrightarrow> rd_deadline api (rd_at api now r) k = (if rd_expired api now r k then None else rd_deadline api r k)"
  by (simp add: redis_laws_def)

lemma redis_HMSET: "redis_laws api \<Longrightarrow> rd_HMGET api (rd_HMSET api k t ts r) k = (Some t, Some ts)"
  by (simp add: redis_laws_def)

lemma redis_ZREM: "redis_laws api \<Longrightarrow> rd_zset api (rd_ZREMRANGEBYSCORE api k mx r) k =
    (\<lambda>m. case rd_zset api r k m of None \<Rightarrow> None | Some s \<Rightarrow> if s \<le> mx then None else Some s)"
  by (simp add: redis_laws_def)

lemma redis_ZREM_deadline: "redis_laws api \<Longrightarrow> rd_deadline api (rd_ZREMRANGEBYSCORE api k mx r) k = rd_deadline api r k"
  by (simp add: redis_laws_def)

lemma redis_ZCARD: "redis_laws api \<Longrightarrow> finite (dom (rd_zset api r k)) \<and> rd_ZCARD api r k = int (card (dom (rd_zset api r k)))"
  by (simp add: redis_laws_def)

lemma redis_ZADD: "redis_laws api \<Longrightarrow> rd_zset api (rd_ZADD api k s m r) k = (rd_zset api r k)(m \<mapsto> s)"
  by (simp add: redis_laws_def)

lemma redis_PEXPIRE:
  "redis_laws api \<Longrightarrow> rd_zset api (rd_PEXPIRE api now k ttl r) k = rd_zset api r k"
  "redis_laws api \<Longrightarrow> rd_HMGET api (rd_PEXPIRE api now k ttl r) k = rd_HMGET api r k"
  "redis_laws api \<Longrightarrow> rd_deadline api (rd_PEXPIRE api now k ttl r) k = Some (now + ttl)"
  by (simp_all add: redis_laws_def)

lemmas redis_simps = redis_zset_at redis_HMGET_at redis_deadline_at redis_HMSET redis_ZREM
  redis_ZREM_deadline redis_ZADD redis_PEXPIRE

lemma toy_redis_laws: "redis_laws toy_redis"
  unfolding redis_laws_def rd_expired_def
  by (auto simp: toy_redis_def fun_eq_iff split: option.split)

section \<open>Token bucket\<close>

text \<open>A bucket last touched at \<open>tm\<close>: its tokens are within bounds and the key lives for an hour.\<close>

definition tb_ok :: "'r redis_api \<Rightarrow> string \<Rightarrow> rat \<Rightarrow> int \<Rightarrow> rat \<Rightarrow> 'r \<Rightarrow> bool" where
  "tb_ok api key cap tm t r \<longleftrightarrow> rd_HMGET api r key = (Some t, Some (of_int tm)) \<and> 0 \<le> t \<and> t \<le> cap \<and>
     rd_deadline api r key = Some (tm + 3600000)"

lemma tb_script_fresh:
  assumes laws: "redis_laws api" and cap: "1 \<le> cap" and empty: "rd_HMGET api r key = (None, None)"
  shows "\<exists>r' rem. tokenBucketScript api key cap rate now 1 r = (Some (1, rem), r') \<and> tb_ok api key cap now (cap - 1) r'"
  using cap empty laws
  by (auto simp: tokenBucketScript_def Let_def redis_simps tb_ok_def redis_HMSET)

lemma tb_script_step:
  assumes laws: "redis_laws api" and cap: "1 \<le> cap" and rate: "0 \<le> rate" and hour: "cap \<le> 3600 * rate"
    and ok: "tb_ok api key cap tm t r" and le: "tm \<le> now"
  shows "\<exists>r' a rem t'. tokenBucketScript api key cap rate now 1 r = (Some (a, rem), r') \<and> tb_ok api key cap now t' r' \<and>
    (a = 1 \<or> a = 0) \<and> t' + of_int a \<le> t + of_int (now - tm) / 1000 * rate"
proof (cases "rd_expired api now r key")
  case True
  then have old: "3600000 \<le> now - tm" using ok by (simp add: rd_expired_def tb_ok_def)
  then have "3600 * rate \<le> of_int (now - tm) / 1000 * rate"
    using rate by (intro mult_right_mono) (simp_all add: le_divide_eq)
  then have "cap \<le> t + of_int (now - tm) / 1000 * rate" using hour ok by (simp add: tb_ok_def)
  moreover have "\<exists>r' rem. tokenBucketScript api key cap rate now 1 r = (Some (1, rem), r') \<and> tb_ok api key cap now (cap - 1) r'"
    using cap laws True by (auto simp: tokenBucketScript_def Let_def redis_simps tb_ok_def redis_HMSET)
  ultimately show ?thesis by fastforce
next
  case False
  let ?e = "of_int (now - tm) / 1000 * rate"
  let ?m = "min cap (t + ?e)"
  have pos: "0 \<le> ?e" using rate le by simp
  have m: "0 \<le> ?m" "?m \<le> cap" "?m \<le> t + ?e" using pos ok cap by (auto simp: tb_ok_def)
  have "tokenBucketScript api key cap rate now 1 r =
      (let a = ?m \<ge> 1; t' = (if a then ?m - 1 else ?m)
       in (Some (if a then 1 else 0, \<lfloor>t'\<rfloor>),
           rd_PEXPIRE api now key 3600000 (rd_HMSET api key t' (of_int now) (rd_at api now r))))"
    using ok laws False by (simp add: tokenBucketScript_def Let_def redis_simps tb_ok_def)
  then show ?thesis
    using m laws
    by (cases "?m \<ge> 1") (fastforce simp: Let_def tb_ok_def redis_simps redis_HMSET)+
qed

lemma tb_run_bound:
  assumes "redis_laws api" and "1 \<le> cap" and "0 \<le> rate" and "cap \<le> 3600 * rate"
    and "tb_ok api key cap tm t r" and "sorted (tm # nows)"
  shows "of_nat (length (filter (\<lambda>b. b) (tb_run api key cap rate nows r))) \<le> t + of_int (last (tm # nows) - tm) / 1000 * rate"
  using assms(5,6)
proof (induction nows arbitrary: tm t r)
  case Nil
  then show ?case by (simp add: tb_ok_def)
next
  case (Cons now nows)
  then obtain r' a rem t' where s: "tokenBucketScript api key cap rate now 1 r = (Some (a, rem), r')"
    "tb_ok api key cap now t' r'" "a = 1 \<or> a = 0" "t' + of_int a \<le> t + of_int (now - tm) / 1000 * rate"
    using tb_script_step [OF assms(1-4) Cons.prems(1), of now] by auto
  have "of_nat (length (filter (\<lambda>b. b) (tb_run api key cap rate nows r'))) \<le> t' + of_int (last (now # nows) - now) / 1000 * rate"
    using Cons.prems(2) by (intro Cons.IH s(2)) simp
  moreover have "of_nat (length (filter (\<lambda>b. b) (tb_run api key cap rate (now # nows) r))) =
      of_int a + (of_nat (length (filter (\<lambda>b. b) (tb_run api key cap rate nows r'))) :: rat)"
    using s(1,3) by auto
  moreover have "of_int (last (tm # now # nows) - tm) / 1000 * rate =
      of_int (last (now # nows) - now) / 1000 * rate + of_int (now - tm) / 1000 * rate"
    by (simp add: field_simps)
  ultimately show ?case using s(4) by linarith
qed


section \<open>Sliding window\<close>

text \<open>
  The server after a history of allowed requests, the last call at \<open>tm\<close>: every request still inside the
  window is a member of the sorted set with its time as score, and the key outlives all its members.
\<close>

definition sw_ok :: "'r redis_api \<Rightarrow> string \<Rightarrow> int \<Rightarrow> int \<Rightarrow> (int \<times> string) list \<Rightarrow> 'r \<Rightarrow> bool" where
  "sw_ok api key win tm hist r \<longleftrightarrow> distinct (map snd hist) \<and> (\<forall>(t, rid) \<in> set hist. t \<le> tm) \<and>
     (\<forall>(t, rid) \<in> set hist. tm - win < t \<longrightarrow> rd_zset api r key rid = Some t) \<and>
     (\<forall>rid s. rd_zset api r key rid = Some s \<longrightarrow> s \<le> tm \<and> (\<forall>d. rd_deadline api r key = Some d \<longrightarrow> s + win < d))"

lemma sw_members:
  assumes "distinct (map snd hist)" and "finite (dom z)" and "\<forall>(t, rid) \<in> set hist. P t \<longrightarrow> z rid = Some t"
  shows "length (filter (\<lambda>(t, _). P t) hist) \<le> card (dom z)"
proof -
  let ?in = "filter (\<lambda>(t, _). P t) hist"
  have "distinct (map snd ?in)" using assms(1) by (rule distinct_map_filter)
  then have "length ?in = card (set (map snd ?in))" by (metis distinct_card length_map)
  also have "\<dots> \<le> card (dom z)" using assms(2,3) by (intro card_mono) auto
  finally show ?thesis .
qed

text \<open>The server as the script's \<open>ZCARD\<close> sees it, after the expiry and the removal of old members.\<close>

lemma sw_pruned:
  assumes laws: "redis_laws api" and win: "0 < win" and ok: "sw_ok api key win tm hist r" and le: "tm \<le> now"
  defines "r' \<equiv> rd_ZREMRANGEBYSCORE api key (now - win) (rd_at api now r)"
  shows "sw_ok api key win now hist r'"
proof -
  have "rd_zset api r' key rid = Some t"
    if "(t, rid) \<in> set hist" "now - win < t" for t rid
  proof -
    have z: "rd_zset api r key rid = Some t" using ok that le by (auto simp: sw_ok_def)
    then have "\<not> rd_expired api now r key"
      using ok that(2) by (force simp: sw_ok_def rd_expired_def split: option.splits)
    then show ?thesis using laws z that(2) by (simp add: r'_def redis_simps)
  qed
  moreover have "s \<le> now \<and> (\<forall>d. rd_deadline api r' key = Some d \<longrightarrow> s + win < d)" if "rd_zset api r' key rid = Some s" for rid s
  proof -
    have "rd_zset api r key rid = Some s \<and> \<not> rd_expired api now r key"
      using laws that by (auto simp: r'_def redis_simps split: option.splits if_splits)
    then show ?thesis using ok le laws by (fastforce simp: r'_def redis_simps sw_ok_def)
  qed
  ultimately show ?thesis using ok le by (fastforce simp: sw_ok_def)
qed

lemma sw_added:
  assumes ok: "sw_ok api key win now hist r" and fresh: "rid \<notin> set (map snd hist)"
    and z: "rd_zset api r' key = (rd_zset api r key)(rid \<mapsto> now)" "rd_deadline api r' key = Some (now + win + 1000)"
  shows "sw_ok api key win now (hist @ [(now, rid)]) r'"
  unfolding sw_ok_def
proof (intro conjI)
  show "distinct (map snd (hist @ [(now, rid)]))" using ok fresh by (simp add: sw_ok_def)
  show "\<forall>(t, i) \<in> set (hist @ [(now, rid)]). t \<le> now" using ok by (simp add: sw_ok_def)
  have "i \<noteq> rid" if "(t, i) \<in> set hist" for t i using that fresh by force
  then show "\<forall>(t, i) \<in> set (hist @ [(now, rid)]). now - win < t \<longrightarrow> rd_zset api r' key i = Some t"
    using ok unfolding z sw_ok_def by auto
  have "s \<le> now" if "rd_zset api r' key i = Some s" for i s using that ok unfolding z sw_ok_def by (auto split: if_splits)
  then show "\<forall>i s. rd_zset api r' key i = Some s \<longrightarrow> s \<le> now \<and> (\<forall>d. rd_deadline api r' key = Some d \<longrightarrow> s + win < d)"
    unfolding z(2) by fastforce
qed

lemma sw_script_step:
  assumes laws: "redis_laws api" and win: "0 < win" and ok: "sw_ok api key win tm hist r" and le: "tm \<le> now"
    and fresh: "rid \<notin> set (map snd hist)"
  shows "\<exists>res r' hist'. slidingWindowScript api key now win limit rid r = (Some res, r') \<and>
    hist' = hist @ (if fst res = 1 then [(now, rid)] else []) \<and> sw_ok api key win now hist' r' \<and>
    (fst res = 1 \<longrightarrow> int (length (in_window win now hist)) < limit)"
proof -
  let ?r = "rd_ZREMRANGEBYSCORE api key (now - win) (rd_at api now r)"
  have pr: "sw_ok api key win now hist ?r" by (rule sw_pruned [OF laws win ok le])
  have card: "rd_ZCARD api ?r key = int (card (dom (rd_zset api ?r key)))" "finite (dom (rd_zset api ?r key))"
    using redis_ZCARD [OF laws] by blast+
  have "in_window win now hist = filter (\<lambda>(t, _). now - win < t \<and> t \<le> now) hist" by (simp add: in_window_def)
  then have le_card: "length (in_window win now hist) \<le> card (dom (rd_zset api ?r key))"
    using pr card(2) by (auto simp: sw_ok_def intro!: sw_members)
  show ?thesis
  proof (cases "rd_ZCARD api ?r key < limit")
    case True
    let ?r2 = "rd_PEXPIRE api now key (win + 1000) (rd_ZADD api key now rid ?r)"
    have z: "rd_zset api ?r2 key = (rd_zset api ?r key)(rid \<mapsto> now)" "rd_deadline api ?r2 key = Some (now + win + 1000)"
      using laws by (simp_all add: redis_simps)
    have "sw_ok api key win now (hist @ [(now, rid)]) ?r2" by (rule sw_added [OF pr fresh z])
    then show ?thesis using True le_card card by (auto simp: slidingWindowScript_def Let_def)
  next
    case False
    then show ?thesis using pr by (auto simp: slidingWindowScript_def Let_def)
  qed
qed

lemma in_window_append [simp]: "in_window win T (xs @ ys) = in_window win T xs @ in_window win T ys"
  by (simp add: in_window_def)

lemma in_window_Nil [simp]: "in_window win T [] = []"
  by (simp add: in_window_def)

text \<open>One more allowed request keeps every window within the limit.\<close>

lemma in_window_extend:
  assumes "\<forall>T. int (length (in_window win T hist)) \<le> limit" and "\<forall>(t, rid) \<in> set hist. t \<le> now"
    and "int (length (in_window win now hist)) < limit"
  shows "int (length (in_window win T (hist @ [(now, rid)]))) \<le> limit"
proof (cases "T - win < now \<and> now \<le> T")
  case True
  then have "set (in_window win T hist) \<subseteq> set hist" "in_window win T hist = in_window win T (in_window win now hist)"
    using assms(2) by (auto simp: in_window_def intro!: filter_cong)
  then have "length (in_window win T hist) \<le> length (in_window win now hist)"
    by (metis in_window_def length_filter_le)
  then show ?thesis using True assms(3) by (simp add: in_window_def)
next
  case False
  then show ?thesis using assms(1) by (auto simp: in_window_def)
qed

lemma sw_run_bound:
  assumes laws: "redis_laws api" and win: "0 < win"
  shows "sw_ok api key win tm hist r \<Longrightarrow> sorted (tm # map fst calls) \<Longrightarrow> distinct (map snd hist @ map snd calls) \<Longrightarrow>
    \<forall>T. int (length (in_window win T hist)) \<le> limit \<Longrightarrow>
    int (length (in_window win T (hist @ sw_run api key win limit calls r))) \<le> limit"
proof (induction calls arbitrary: tm hist r)
  case (Cons c calls)
  obtain now rid where c: "c = (now, rid)" by force
  have le: "tm \<le> now" and fresh: "rid \<notin> set (map snd hist)" using Cons.prems(2,3) by (auto simp: c)
  obtain res r' hist' where s: "slidingWindowScript api key now win limit rid r = (Some res, r')"
    "hist' = hist @ (if fst res = 1 then [(now, rid)] else [])" "sw_ok api key win now hist' r'"
    "fst res = 1 \<longrightarrow> int (length (in_window win now hist)) < limit"
    using sw_script_step [OF laws win Cons.prems(1) le fresh, of limit] by blast
  have hist: "\<forall>(t, rid) \<in> set hist. t \<le> now" using Cons.prems(1) le by (auto simp: sw_ok_def)
  have "\<forall>T. int (length (in_window win T hist')) \<le> limit"
    using s(2,4) in_window_extend [OF Cons.prems(4) hist] Cons.prems(4) by auto
  moreover have "distinct (map snd hist' @ map snd calls)" using Cons.prems(3) by (auto simp: s(2) c)
  ultimately have "int (length (in_window win T (hist' @ sw_run api key win limit calls r'))) \<le> limit"
    using Cons.prems(2) by (intro Cons.IH [OF s(3)]) (simp_all add: c)
  moreover have "hist @ sw_run api key win limit (c # calls) r = hist' @ sw_run api key win limit calls r'"
    by (cases res) (simp add: c s(1,2))
  ultimately show ?case by simp
qed simp


section \<open>The limiter\<close>

text \<open>
  The limiter fails open and only open: a request is refused exactly when a script that answered
  refused it. With both scripts failing it is allowed, with one failing the other decides, and with both
  answering both must allow.
\<close>
theorem check_refuses_only_on_answer:
  "\<not> fst (limiter_check api e key tb sw r) \<longleftrightarrow>
     (let (a, r1) = tb_allow api (ce_tb e) (ce_now_tb e) tb key r;
          (b, _) = sw_allow api (ce_sw e) (ce_now_sw e) (ce_reqID e) sw key r1
      in (\<not> fst a \<and> \<not> snd (snd a)) \<or> (\<not> fst b \<and> \<not> snd (snd b)))"
  by (auto simp: limiter_check_def tb_allow_def sw_allow_def Let_def split: prod.split option.split)



end
