(* ===== verification/Http.thy ===== *)
theory Http
  imports Store Health Circuit_Breaker Load_Balancer Observability Rate_Limit
begin

text \<open>
  The HTTP vocabulary of the gateway: headers, requests, response writers and handlers, and the plugin
  interface of \<open>internal/plugin\<close> (\<open>plugin.go\<close>, \<open>context.go\<close>, \<open>registry.go\<close>) on top of them.

  A handler takes a request and the world and returns the request's header map, which handlers share
  and change in place, with the world after it. The world holds what a handler can change: the response
  under construction with the writers wrapped around it, the state of the plugins and of the router, and
  the clock. A handler that panics leaves the panic in \<open>w_panic\<close>; \<open>call\<close> skips what the caller would do
  after it. Requests run one after the other here; the theories of the components treat interleavings.
\<close>

section \<open>Headers\<close>

type_synonym headers = "(string, string list) gomap"

definition token_char :: "char \<Rightarrow> bool" where
  "token_char c \<longleftrightarrow> is_upper c \<or> is_lower c \<or> is_digit c \<or> c \<in> set ''!#$%&*+-.^_`|~'' \<or> c = CHR 0x27"

fun canon :: "bool \<Rightarrow> string \<Rightarrow> string" where
  "canon up [] = []"
| "canon up (c # cs) = (if up then upper_char c else lower_char c) # canon (c = CHR ''-'') cs"

text \<open>\<open>textproto.CanonicalMIMEHeaderKey\<close>.\<close>

definition CanonicalKey :: "string \<Rightarrow> string" where
  "CanonicalKey s = (if list_all token_char s then canon True s else s)"

definition header_Get :: "headers \<Rightarrow> string \<Rightarrow> string" where
  "header_Get h k = (case map_of h (CanonicalKey k) of Some (v # _) \<Rightarrow> v | _ \<Rightarrow> '''')"

definition header_Set :: "string \<Rightarrow> string \<Rightarrow> headers \<Rightarrow> headers" where
  "header_Set k v h = gm_put (CanonicalKey k) [v] h"

definition header_Del :: "string \<Rightarrow> headers \<Rightarrow> headers" where
  "header_Del k h = gm_del (CanonicalKey k) h"

section \<open>Requests\<close>

record Claims =
  cl_Subject :: string
  cl_UUID :: string
  cl_Email :: string
  cl_Role :: string
  cl_ExpiresAt :: "int option"

definition UserID :: "Claims \<Rightarrow> string" where
  "UserID c = cl_Subject c"

record request =
  rq_Method :: string
  rq_Scheme :: string
  rq_URLHost :: string
  rq_Path :: string
  rq_RawPath :: string
  rq_RawQuery :: string
  rq_Host :: string
  rq_Header :: headers
  rq_RemoteAddr :: string
  rq_TLS :: bool
  rq_Claims :: "Claims option"

text \<open>\<open>StoreClaimsInContext\<close> with \<open>WithContext\<close>, and \<open>ClaimsFrom\<close>.\<close>

definition StoreClaimsInContext :: "Claims \<Rightarrow> request \<Rightarrow> request" where
  "StoreClaimsInContext c r = r\<lparr> rq_Claims := Some c \<rparr>"

definition ClaimsFrom :: "request \<Rightarrow> Claims option" where
  "ClaimsFrom r = rq_Claims r"

text \<open>The host part of \<open>net.SplitHostPort\<close>; empty when it returns an error.\<close>

definition SplitHostPort_host :: "string \<Rightarrow> string" where
  "SplitHostPort_host s =
     (case last_index CHR '':'' s of
        None \<Rightarrow> ''''
      | Some i \<Rightarrow>
          if s ! 0 = CHR ''[''
          then let e = length (takeWhile (\<lambda>c. c \<noteq> CHR '']'') s)
               in if e + 1 \<noteq> i \<or> CHR ''['' \<in> set (drop 1 s) \<or> CHR '']'' \<in> set (drop (e + 1) s) then ''''
                  else drop 1 (take e s)
          else let host = take i s
               in if CHR '':'' \<in> set host \<or> CHR ''['' \<in> set s \<or> CHR '']'' \<in> set s then '''' else host)"

definition ClientIP :: "request \<Rightarrow> string" where
  "ClientIP r =
     (let xff = header_Get (rq_Header r) ''X-Forwarded-For'';
          ip = TrimSpace (fst (go_Cut CHR '','' xff));
          xri = header_Get (rq_Header r) ''X-Real-IP''
      in if xff \<noteq> '''' \<and> ip \<noteq> '''' then ip
         else if xri \<noteq> '''' then xri
         else SplitHostPort_host (rq_RemoteAddr r))"

text \<open>\<open>Request.Cookie\<close>: the first cookie of that name whose value is valid.\<close>

definition cookie_value :: "string \<Rightarrow> string option" where
  "cookie_value raw =
     (let v = (if length raw > 1 \<and> hd raw = CHR 0x22 \<and> last raw = CHR 0x22 then butlast (tl raw) else raw)
      in if list_all (\<lambda>c. 32 \<le> (of_char c :: nat) \<and> (of_char c :: nat) < 127 \<and> c \<noteq> CHR 0x22 \<and> c \<noteq> CHR '';'' \<and> c \<noteq> CHR 0x5C) v
         then Some v else None)"

definition cookie_part :: "string \<Rightarrow> string \<Rightarrow> string option" where
  "cookie_part name part =
     (let (n, v, _) = go_Cut CHR ''='' (TrimSpace part)
      in if TrimSpace n = name \<and> name \<noteq> '''' \<and> list_all token_char name then cookie_value v else None)"

definition Cookie :: "request \<Rightarrow> string \<Rightarrow> string option" where
  "Cookie r name =
     (let lines = (case map_of (rq_Header r) ''Cookie'' of None \<Rightarrow> [] | Some ls \<Rightarrow> ls)
      in case List.map_filter (cookie_part name) (concat (map (split_on CHR '';'') lines)) of
           [] \<Rightarrow> None
         | v # _ \<Rightarrow> Some v)"

section \<open>Response writers\<close>

text \<open>
  The response under construction: the live header map, the status once it is sent with the headers of
  that moment, and the body. Writers that handlers wrap around it are layers, the innermost first: the
  recorder of the plugins (status and bytes written), the recorder of the router (status), and the
  transforming writer with its configuration.
\<close>

record URLRewriteConfig =
  uw_PrefixMatch :: string
  uw_Replacement :: string

record TransformConfig =
  tc_SetRequestHeaders :: "(string, string) gomap"
  tc_RemoveRequestHeaders :: "string list"
  tc_SetResponseHeaders :: "(string, string) gomap"
  tc_RemoveResponseHeaders :: "string list"
  tc_URLRewrite :: "URLRewriteConfig option"

record response =
  resp_header :: headers
  resp_status :: "int option"
  resp_sent :: headers
  resp_body :: string

datatype layer = Recorder int nat | RouterRecorder int | Transformer TransformConfig bool

definition set_headers :: "(string \<times> string) list \<Rightarrow> headers \<Rightarrow> headers" where
  "set_headers kvs h = fold (\<lambda>(k, v). header_Set k v) kvs h"

definition del_headers :: "string list \<Rightarrow> headers \<Rightarrow> headers" where
  "del_headers ks h = fold header_Del ks h"

text \<open>
  \<open>net/http\<close>'s own writer: the first \<open>WriteHeader\<close> fixes status and headers, later ones are ignored, and
  informational codes do not count.
\<close>

definition base_WriteHeader :: "int \<Rightarrow> response \<Rightarrow> response" where
  "base_WriteHeader code p =
     (if resp_status p \<noteq> None \<or> (100 \<le> code \<and> code \<le> 199 \<and> code \<noteq> 101) then p
      else p\<lparr> resp_status := Some code, resp_sent := resp_header p \<rparr>)"

definition base_Write :: "string \<Rightarrow> response \<Rightarrow> response" where
  "base_Write b p =
     (let p1 = (if resp_status p = None then base_WriteHeader 200 p else p)
      in p1\<lparr> resp_body := resp_body p1 @ b \<rparr>)"

fun layers_WriteHeader :: "int \<Rightarrow> layer list \<Rightarrow> response \<Rightarrow> layer list \<times> response" where
  "layers_WriteHeader code [] p = ([], base_WriteHeader code p)"
| "layers_WriteHeader code (Recorder st n # ls) p =
     (let (ls', p') = layers_WriteHeader code ls p in (Recorder code n # ls', p'))"
| "layers_WriteHeader code (RouterRecorder st # ls) p =
     (let (ls', p') = layers_WriteHeader code ls p in (RouterRecorder code # ls', p'))"
| "layers_WriteHeader code (Transformer cfg wrote # ls) p =
     (let p1 = (if wrote then p
                else p\<lparr> resp_header := del_headers (tc_RemoveResponseHeaders cfg)
                                        (set_headers (tc_SetResponseHeaders cfg) (resp_header p)) \<rparr>);
          (ls', p') = layers_WriteHeader code ls p1
      in (Transformer cfg True # ls', p'))"

lemma layers_WriteHeader_length [simp]: "length (fst (layers_WriteHeader code ls p)) = length ls"
  by (induction code ls p rule: layers_WriteHeader.induct) (auto simp: Let_def split: prod.split)

function layers_Write :: "string \<Rightarrow> layer list \<Rightarrow> response \<Rightarrow> layer list \<times> response" where
  "layers_Write b [] p = ([], base_Write b p)"
| "layers_Write b (Recorder st n # ls) p =
     (let (ls', p') = layers_Write b ls p in (Recorder st (n + length b) # ls', p'))"
| "layers_Write b (RouterRecorder st # ls) p =
     (let (ls', p') = layers_Write b ls p in (RouterRecorder st # ls', p'))"
| "layers_Write b (Transformer cfg wrote # ls) p =
     (let lp = (if wrote then (Transformer cfg wrote # ls, p)
                else layers_WriteHeader 200 (Transformer cfg wrote # ls) p);
          (ls', p') = layers_Write b (tl (fst lp)) (snd lp)
      in (Transformer cfg True # ls', p'))"
  by pat_completeness auto
termination
  by (relation "measure (\<lambda>(b, ls, p). length ls)") (auto simp: Let_def split: prod.split simp del: layers_WriteHeader.simps)

section \<open>The world\<close>

datatype balancer = RoundRobin roundRobin | Weighted weightedBalancer | LeastConnections LeastConn

text \<open>The per-client limiters of one \<open>RouteRateLimit\<close> plugin: handle of the limiter and last use.\<close>

record client_entry =
  ce_lim :: nat
  ce_lastSeen :: int

record route_limit =
  rl_rps :: int
  rl_burst :: int
  rl_clients :: "(string, client_entry) gomap"

text \<open>The collectors of \<open>internal/telemetry/metrics.go\<close>, as counts per label combination.\<close>

record prom =
  pm_active :: int
  pm_requests :: "(string \<times> string \<times> string) multiset"
  pm_durations :: "(string \<times> string \<times> int) list"
  pm_rejects :: "string multiset"

text \<open>A line of the request log, and a finished span.\<close>

datatype log_level = LevelInfo | LevelWarn | LevelError

record log_line =
  lg_level :: log_level
  lg_method :: string
  lg_path :: string
  lg_status :: int
  lg_duration :: int
  lg_size :: nat
  lg_ip :: string
  lg_correlation :: string

text \<open>A finished span; \<open>sn_status\<close> is missing when the request panicked.\<close>

record span =
  sn_name :: string
  sn_method :: string
  sn_path :: string
  sn_address :: string
  sn_status :: "int option"
  sn_user :: "(string \<times> string) option"
  sn_error :: bool

record 'x world =
  w_now :: int
  w_layers :: "layer list"
  w_resp :: response
  w_panic :: "go_panic option"
  w_store :: store
  w_health :: checker
  w_tracker :: tracker
  w_breakers :: "circuitBreaker list"
  w_balancers :: "balancer list"
  w_limits :: "route_limit list"
  w_prom :: prom
  w_log :: "log_line list"
  w_spans :: "span list"
  w_draws :: nat
  w_ext :: 'x

text \<open>
  What the handlers use of code outside the gateway: Redis, the limiters of \<open>golang.org/x/time/rate\<close>
  behind handles, random numbers and identifiers (the argument counts the draws), and the environment of
  each rate-limit check.
\<close>

record 'x ext_api =
  ex_redis :: "'x redis_api"
  ex_NewLimiter :: "int \<Rightarrow> int \<Rightarrow> 'x \<Rightarrow> nat \<times> 'x"
  ex_Allow :: "nat \<Rightarrow> int \<Rightarrow> 'x \<Rightarrow> bool \<times> 'x"
  ex_IntN :: "nat \<Rightarrow> int \<Rightarrow> int"
  ex_uuid :: "nat \<Rightarrow> string"
  ex_check :: "nat \<Rightarrow> check_env"
  ex_orders :: range_orders

type_synonym 'x handler = "request \<Rightarrow> 'x world \<Rightarrow> headers \<times> 'x world"

definition WriteHeader :: "int \<Rightarrow> 'x world \<Rightarrow> 'x world" where
  "WriteHeader code w =
     (let (ls, p) = layers_WriteHeader code (w_layers w) (w_resp w) in w\<lparr> w_layers := ls, w_resp := p \<rparr>)"

definition Write_body :: "string \<Rightarrow> 'x world \<Rightarrow> 'x world" where
  "Write_body b w =
     (let (ls, p) = layers_Write b (w_layers w) (w_resp w) in w\<lparr> w_layers := ls, w_resp := p \<rparr>)"

definition set_header :: "string \<Rightarrow> string \<Rightarrow> 'x world \<Rightarrow> 'x world" where
  "set_header k v w = w\<lparr> w_resp := (w_resp w)\<lparr> resp_header := header_Set k v (resp_header (w_resp w)) \<rparr> \<rparr>"

text \<open>\<open>next.ServeHTTP(w, r)\<close> followed by more work: a panic skips the rest.\<close>

definition call :: "'x handler \<Rightarrow> request \<Rightarrow> 'x world \<Rightarrow> (headers \<Rightarrow> 'x world \<Rightarrow> headers \<times> 'x world) \<Rightarrow> headers \<times> 'x world" where
  "call h r w k = (let (hd', w') = h r w in if w_panic w' \<noteq> None then (hd', w') else k hd' w')"

text \<open>Wrapping a writer around the current one for the duration of a call, and reading it back.\<close>

definition push_layer :: "layer \<Rightarrow> 'x world \<Rightarrow> 'x world" where
  "push_layer l w = w\<lparr> w_layers := l # w_layers w \<rparr>"

definition pop_layer :: "'x world \<Rightarrow> 'x world" where
  "pop_layer w = w\<lparr> w_layers := tl (w_layers w) \<rparr>"

fun recorded :: "layer list \<Rightarrow> int \<times> nat" where
  "recorded (Recorder st n # ls) = (st, n)"
| "recorded (RouterRecorder st # ls) = (st, 0)"
| "recorded ls = (0, 0)"

section \<open>Plugins\<close>

record 'x Plugin =
  pl_Name :: string
  pl_Handler :: "'x handler \<Rightarrow> 'x handler"

definition plugin_New :: "string \<Rightarrow> ('x handler \<Rightarrow> 'x handler) \<Rightarrow> 'x Plugin" where
  "plugin_New name fn = \<lparr> pl_Name = name, pl_Handler = fn \<rparr>"

text \<open>The loop from the last plugin to the first.\<close>

definition Chain :: "'x handler \<Rightarrow> 'x Plugin list \<Rightarrow> 'x handler" where
  "Chain h plugins = fold (\<lambda>p h. pl_Handler p h) (rev plugins) h"

definition WriteJSON :: "int \<Rightarrow> string \<Rightarrow> 'x world \<Rightarrow> 'x world" where
  "WriteJSON status body w = Write_body body (WriteHeader status (set_header ''Content-Type'' ''application/json'' w))"

text \<open>The answer of a handler that does not call the next one.\<close>

definition reply :: "request \<Rightarrow> 'x world \<Rightarrow> headers \<times> 'x world" where
  "reply r w = (rq_Header r, w)"

text \<open>
  The registry. A factory may allocate state (a breaker, a limiter), so it takes the world; \<open>None\<close> is an
  error.
\<close>

type_synonym 'x Factory = "(string, any) gomap \<Rightarrow> 'x world \<Rightarrow> 'x Plugin option \<times> 'x world"
type_synonym 'x Registry = "(string, 'x Factory) gomap"

definition NewRegistry :: "'x Registry" where
  "NewRegistry = []"

definition Register :: "string \<Rightarrow> 'x Factory \<Rightarrow> 'x Registry \<Rightarrow> 'x Registry" where
  "Register name f reg = gm_put name f reg"

definition Build :: "'x Registry \<Rightarrow> string \<Rightarrow> (string, any) gomap \<Rightarrow> 'x world \<Rightarrow> 'x Plugin option \<times> 'x world" where
  "Build reg name config w = (case map_of reg name of None \<Rightarrow> (None, w) | Some f \<Rightarrow> f config w)"

end
