(* ===== verification/Net_IP.thy ===== *)
theory Net_IP
  imports Helix_Prelude
begin

text \<open>
  The part of Go's \<open>net\<close> package that the IP policies use: \<open>ParseIP\<close>, \<open>ParseCIDR\<close> and
  \<open>IPNet.Contains\<close>, and \<open>cidrContains\<close> of \<open>internal/plugin/builtin/ippolicy.go\<close> on top of them. An
  address is its list of bytes, 4 or 16 of them.
\<close>

unbundle bit_operations_syntax

type_synonym ip_bytes = "8 word list"

section \<open>Parsing\<close>

definition digit_val :: "char \<Rightarrow> nat" where
  "digit_val c = of_char c - 48"

definition digits_val :: "string \<Rightarrow> nat" where
  "digits_val s = foldl (\<lambda>n c. n * 10 + digit_val c) 0 s"

text \<open>A field of a dotted address: digits, no leading zero, at most 255.\<close>

definition v4_field :: "string \<Rightarrow> 8 word option" where
  "v4_field s =
     (if s = '''' \<or> \<not> list_all is_digit s \<or> (length s > 1 \<and> hd s = CHR ''0'') \<or> digits_val s > 255 then None
      else Some (word_of_nat (digits_val s)))"

definition sequence_opt :: "'a option list \<Rightarrow> 'a list option" where
  "sequence_opt xs = (if None \<in> set xs then None else Some (map the xs))"

definition parse_v4 :: "string \<Rightarrow> ip_bytes option" where
  "parse_v4 s = (let fs = split_on CHR ''.'' s in if length fs \<noteq> 4 then None else sequence_opt (map v4_field fs))"

definition is_hex :: "char \<Rightarrow> bool" where
  "is_hex c \<longleftrightarrow> is_digit c \<or> (let n = of_char c :: nat in (97 \<le> n \<and> n \<le> 102) \<or> (65 \<le> n \<and> n \<le> 70))"

definition hex_val :: "char \<Rightarrow> nat" where
  "hex_val c = (let n = of_char c :: nat in if is_digit c then n - 48 else if n \<ge> 97 then n - 87 else n - 55)"

definition hex_num :: "string \<Rightarrow> nat" where
  "hex_num s = foldl (\<lambda>n c. n * 16 + hex_val c) 0 s"

text \<open>
  The loop of \<open>parseIPv6\<close>: the bytes so far, the position of the ellipsis and the rest of the text. Each
  turn adds two bytes, so eight turns are enough.
\<close>

fun v6_loop :: "nat \<Rightarrow> ip_bytes \<Rightarrow> nat option \<Rightarrow> string \<Rightarrow> (ip_bytes \<times> nat option) option" where
  "v6_loop 0 bs ell s = (if s = '''' then Some (bs, ell) else None)"
| "v6_loop (Suc k) bs ell s =
     (let g = takeWhile is_hex s; rest = dropWhile is_hex s; n = hex_num g
      in if g = '''' \<or> length g > 4 then None
         else if rest \<noteq> '''' \<and> hd rest = CHR ''.''
         then (if (ell = None \<and> length bs \<noteq> 12) \<or> length bs + 4 > 16 then None
               else case parse_v4 s of None \<Rightarrow> None | Some f \<Rightarrow> Some (bs @ f, ell))
         else let bs' = bs @ [word_of_nat (n div 256), word_of_nat (n mod 256)]
              in if rest = '''' then Some (bs', ell)
                 else if hd rest \<noteq> CHR '':'' \<or> length rest = 1 then None
                 else let s' = tl rest
                      in if hd s' = CHR '':''
                         then (if ell \<noteq> None then None
                               else if tl s' = '''' then Some (bs', Some (length bs'))
                               else v6_loop k bs' (Some (length bs')) (tl s'))
                         else v6_loop k bs' ell s')"

definition v6_finish :: "ip_bytes \<times> nat option \<Rightarrow> ip_bytes option" where
  "v6_finish r =
     (case r of (bs, ell) \<Rightarrow>
        if length bs < 16
        then (case ell of None \<Rightarrow> None
              | Some e \<Rightarrow> Some (take e bs @ replicate (16 - length bs) 0 @ drop e bs))
        else if ell \<noteq> None then None else Some bs)"

definition parse_v6 :: "string \<Rightarrow> ip_bytes option" where
  "parse_v6 s =
     (let start = (if take 2 s = ''::'' then (Some 0, drop 2 s) else (None, s))
      in if CHR ''%'' \<in> set s then None
         else if fst start = Some 0 \<and> snd start = '''' then Some (replicate 16 0)
         else case v6_loop 8 [] (fst start) (snd start) of None \<Rightarrow> None | Some r \<Rightarrow> v6_finish r)"

text \<open>\<open>netip.ParseAddr\<close> without zones: the first dot or colon decides.\<close>

definition ParseAddr :: "string \<Rightarrow> ip_bytes option" where
  "ParseAddr s =
     (case dropWhile (\<lambda>c. c \<noteq> CHR ''.'' \<and> c \<noteq> CHR '':'' \<and> c \<noteq> CHR ''%'') s of
        [] \<Rightarrow> None
      | c # _ \<Rightarrow> if c = CHR ''.'' then parse_v4 s else if c = CHR '':'' then parse_v6 s else None)"

definition v4_prefix :: ip_bytes where
  "v4_prefix = replicate 10 0 @ [255, 255]"

definition To16 :: "ip_bytes \<Rightarrow> ip_bytes" where
  "To16 bs = (if length bs = 4 then v4_prefix @ bs else bs)"

definition To4 :: "ip_bytes \<Rightarrow> ip_bytes option" where
  "To4 bs = (if length bs = 4 then Some bs
             else if length bs = 16 \<and> take 12 bs = v4_prefix then Some (drop 12 bs) else None)"

definition ParseIP :: "string \<Rightarrow> ip_bytes option" where
  "ParseIP s = map_option To16 (ParseAddr s)"

section \<open>Networks\<close>

definition CIDRMask_byte :: "nat \<Rightarrow> 8 word" where
  "CIDRMask_byte n = (if n \<ge> 8 then 255 else NOT (drop_bit n 255))"

definition CIDRMask :: "nat \<Rightarrow> nat \<Rightarrow> ip_bytes" where
  "CIDRMask n len = map (\<lambda>i. CIDRMask_byte (n - 8 * i)) [0..<len]"

record IPNet =
  net_IP :: ip_bytes
  net_Mask :: ip_bytes

text \<open>\<open>IP.Mask\<close> for an address of 16 bytes, as \<open>ParseCIDR\<close> calls it.\<close>

definition mask_ip :: "ip_bytes \<Rightarrow> ip_bytes \<Rightarrow> ip_bytes" where
  "mask_ip m bs16 =
     (let bs = (if length m = 4 then (case To4 bs16 of Some b \<Rightarrow> b | None \<Rightarrow> bs16) else bs16)
      in if length bs \<noteq> length m then [] else map2 (AND) bs m)"

definition ParseCIDR :: "string \<Rightarrow> IPNet option" where
  "ParseCIDR s =
     (let (addr, msk, found) = go_Cut CHR ''/'' s
      in if \<not> found then None
         else case ParseAddr addr of
                None \<Rightarrow> None
              | Some bs \<Rightarrow>
                  if msk = '''' \<or> \<not> list_all is_digit msk \<or> digits_val msk > 8 * length bs then None
                  else let m = CIDRMask (digits_val msk) (length bs)
                       in Some \<lparr> net_IP = mask_ip m (To16 bs), net_Mask = m \<rparr>)"

definition Contains :: "IPNet \<Rightarrow> ip_bytes \<Rightarrow> bool" where
  "Contains n ip0 =
     (let nn = (case To4 (net_IP n) of Some b \<Rightarrow> b | None \<Rightarrow> net_IP n);
          m = (if length (net_Mask n) = 16 \<and> length nn = 4 then drop 12 (net_Mask n) else net_Mask n);
          ip = (case To4 ip0 of Some b \<Rightarrow> b | None \<Rightarrow> ip0)
      in length ip = length nn \<and> length m = length nn \<and>
         list_all2 (\<lambda>(a, k) b. a AND k = b AND k) (zip nn m) ip)"

definition cidrContains :: "string list \<Rightarrow> ip_bytes option \<Rightarrow> bool" where
  "cidrContains cidrs ip =
     (case ip of
        None \<Rightarrow> False
      | Some bs \<Rightarrow> list_ex (\<lambda>cidr. case ParseCIDR cidr of None \<Rightarrow> False | Some n \<Rightarrow> Contains n bs) cidrs)"

section \<open>Membership is agreement of the leading bits\<close>

text \<open>Bit \<open>p\<close> of an address, the most significant first.\<close>

definition addr_bit :: "ip_bytes \<Rightarrow> nat \<Rightarrow> bool" where
  "addr_bit bs p = bit (bs ! (p div 8)) (7 - p mod 8)"

lemma bit_mask_byte: "bit (CIDRMask_byte n) i \<longleftrightarrow> i < 8 \<and> 8 \<le> n + i"
proof -
  have ff: "(255 :: 8 word) = mask 8" by (simp add: mask_eq_exp_minus_1)
  show ?thesis
    unfolding CIDRMask_byte_def ff
    by (auto simp: bit_mask_iff bit_not_iff bit_drop_bit_eq possible_bit_word simp del: mask_numeral)
qed

lemma masked_byte_eq:
  "a AND CIDRMask_byte n = b AND CIDRMask_byte n \<longleftrightarrow> (\<forall>j < 8. j < n \<longrightarrow> bit a (7 - j) = bit b (7 - j))"
proof -
  have "a AND CIDRMask_byte n = b AND CIDRMask_byte n \<longleftrightarrow> (\<forall>i < 8. 8 \<le> n + i \<longrightarrow> bit a i = bit b i)"
    by (auto simp: bit_eq_iff bit_and_iff bit_mask_byte possible_bit_word)
  also have "\<dots> \<longleftrightarrow> (\<forall>j < 8. j < n \<longrightarrow> bit a (7 - j) = bit b (7 - j))"
  proof safe
    fix j :: nat
    assume "\<forall>i < 8. 8 \<le> n + i \<longrightarrow> bit a i = bit b i" and "j < 8" and "j < n"
    moreover from this have "7 - j < 8" "8 \<le> n + (7 - j)" by auto
    ultimately show "bit a (7 - j) \<Longrightarrow> bit b (7 - j)" and "bit b (7 - j) \<Longrightarrow> bit a (7 - j)" by blast+
  next
    fix i :: nat
    assume *: "\<forall>j < 8. j < n \<longrightarrow> bit a (7 - j) = bit b (7 - j)" and i: "i < 8" "8 \<le> n + i"
    then have "bit a (7 - (7 - i)) = bit b (7 - (7 - i))" by (intro * [rule_format]) auto
    then show "bit a i \<Longrightarrow> bit b i" and "bit b i \<Longrightarrow> bit a i" using i by auto
  qed
  finally show ?thesis .
qed

lemma CIDRMask_length [simp]: "length (CIDRMask n len) = len"
  by (simp add: CIDRMask_def)

lemma masked_list_eq:
  assumes "length a = len" and "length b = len" and "n \<le> 8 * len"
  shows "list_all2 (\<lambda>(x, k) y. x AND k = y AND k) (zip a (CIDRMask n len)) b \<longleftrightarrow> (\<forall>p < n. addr_bit a p = addr_bit b p)"
proof -
  have "list_all2 (\<lambda>(x, k) y. x AND k = y AND k) (zip a (CIDRMask n len)) b \<longleftrightarrow>
      (\<forall>i < len. \<forall>j < 8. j < n - 8 * i \<longrightarrow> bit (a ! i) (7 - j) = bit (b ! i) (7 - j))"
    using assms(1,2) by (simp add: list_all2_conv_all_nth CIDRMask_def masked_byte_eq)
  also have "\<dots> \<longleftrightarrow> (\<forall>p < n. addr_bit a p = addr_bit b p)"
  proof
    assume *: "\<forall>i < len. \<forall>j < 8. j < n - 8 * i \<longrightarrow> bit (a ! i) (7 - j) = bit (b ! i) (7 - j)"
    show "\<forall>p < n. addr_bit a p = addr_bit b p"
    proof clarify
      fix p
      assume p: "p < n"
      have dm: "p = 8 * (p div 8) + p mod 8" by simp
      have "p div 8 < len" "p mod 8 < 8" "p mod 8 < n - 8 * (p div 8)" using p assms(3) dm by linarith+
      with * show "addr_bit a p = addr_bit b p" by (simp add: addr_bit_def)
    qed
  next
    assume *: "\<forall>p < n. addr_bit a p = addr_bit b p"
    show "\<forall>i < len. \<forall>j < 8. j < n - 8 * i \<longrightarrow> bit (a ! i) (7 - j) = bit (b ! i) (7 - j)"
    proof clarify
      fix i j :: nat
      assume "j < 8" and "j < n - 8 * i"
      then have "(8 * i + j) div 8 = i" "(8 * i + j) mod 8 = j" "8 * i + j < n" by auto
      with * [rule_format, of "8 * i + j"] show "bit (a ! i) (7 - j) = bit (b ! i) (7 - j)" by (simp add: addr_bit_def)
    qed
  qed
  finally show ?thesis .
qed

lemma sequence_opt_length: "sequence_opt xs = Some ys \<Longrightarrow> length ys = length xs"
  by (auto simp: sequence_opt_def split: if_splits)

lemma parse_v4_length: "parse_v4 s = Some bs \<Longrightarrow> length bs = 4"
  by (auto simp: parse_v4_def Let_def split: if_splits dest: sequence_opt_length)

lemma To4_v4 [simp]: "length bs = 4 \<Longrightarrow> To4 bs = Some bs" and To4_To16 [simp]: "length bs = 4 \<Longrightarrow> To4 (v4_prefix @ bs) = Some bs"
  by (simp_all add: To4_def v4_prefix_def)

lemma addr_bit_masked:
  assumes "length bs = len" and "p < n" and "n \<le> 8 * len"
  shows "addr_bit (map2 (AND) bs (CIDRMask n len)) p = addr_bit bs p"
proof -
  have i: "p div 8 < len" using assms(2,3) by linarith
  have dm: "p = 8 * (p div 8) + p mod 8" by simp
  then have "8 \<le> n - 8 * (p div 8) + (7 - p mod 8)" using assms(2) by linarith
  then have "bit (CIDRMask_byte (n - 8 * (p div 8))) (7 - p mod 8)" by (simp only: bit_mask_byte) simp
  then show ?thesis
    using i assms(1) by (simp add: addr_bit_def CIDRMask_def bit_and_iff)
qed

lemma split_on_chars:
  assumes "\<forall>f \<in> set (split_on c s). list_all P f"
  shows "\<forall>x \<in> set s. x = c \<or> P x"
proof -
  have "\<forall>x \<in> set (join_with c fs). x = c \<or> (\<exists>f \<in> set fs. x \<in> set f)" for fs
    by (induction c fs rule: join_with.induct) auto
  from this [of "split_on c s"] show ?thesis using assms by (auto simp: list_all_iff)
qed

lemma split_on_absent: "c \<notin> set s \<Longrightarrow> split_on c s = [s]"
  by (induction s) auto

lemma parse_v4_chars:
  assumes "parse_v4 s = Some bs"
  shows "\<forall>x \<in> set s. x = CHR ''.'' \<or> is_digit x" and "CHR ''.'' \<in> set s"
proof -
  have fs: "length (split_on CHR ''.'' s) = 4" "None \<notin> v4_field ` set (split_on CHR ''.'' s)"
    using assms by (auto simp: parse_v4_def sequence_opt_def Let_def split: if_splits)
  have "list_all is_digit f" if "f \<in> set (split_on CHR ''.'' s)" for f
    using that fs(2) by (force simp: v4_field_def image_iff split: if_splits)
  then show "\<forall>x \<in> set s. x = CHR ''.'' \<or> is_digit x" by (intro split_on_chars) blast
  show "CHR ''.'' \<in> set s" using fs(1) split_on_absent [of "CHR ''.''" s] by fastforce
qed

lemma ParseAddr_v4:
  assumes "parse_v4 s = Some bs"
  shows "ParseAddr s = Some bs"
proof -
  let ?P = "\<lambda>c. c \<noteq> CHR ''.'' \<and> c \<noteq> CHR '':'' \<and> c \<noteq> CHR ''%''"
  have "dropWhile ?P s \<noteq> []" using parse_v4_chars(2) [OF assms] by (auto simp: dropWhile_eq_Nil_conv)
  then obtain c t where ct: "dropWhile ?P s = c # t" by (cases "dropWhile ?P s") auto
  then have "\<not> ?P c" by (simp add: dropWhile_eq_Cons_conv)
  moreover have "c = CHR ''.'' \<or> is_digit c"
    using ct set_dropWhileD [of c ?P s] by (intro parse_v4_chars(1) [OF assms, rule_format]) simp
  moreover have "is_digit CHR '':'' = False" "is_digit CHR ''%'' = False" by (simp_all add: is_digit_def)
  ultimately have "c = CHR ''.''" by (elim disjE) auto
  then show ?thesis using ct assms by (simp add: ParseAddr_def)
qed

lemma go_Cut_parts: "c \<notin> set a \<Longrightarrow> go_Cut c (a @ c # b) = (a, b, True)"
  by (induction a) (auto simp: go_Cut_def Let_def split: list.splits)

lemma ParseCIDR_v4:
  assumes "parse_v4 addr = Some net" and "list_all is_digit msk" and "msk \<noteq> []" and "digits_val msk \<le> 32"
  shows "ParseCIDR (addr @ ''/'' @ msk) =
    Some \<lparr> net_IP = map2 (AND) net (CIDRMask (digits_val msk) 4), net_Mask = CIDRMask (digits_val msk) 4 \<rparr>"
proof -
  have len: "length net = 4" using assms(1) by (rule parse_v4_length)
  have "\<not> is_digit CHR ''/''" "CHR ''/'' \<noteq> CHR ''.''" by code_simp+
  then have "CHR ''/'' \<notin> set addr" using parse_v4_chars(1) [OF assms(1)] by blast
  then have "go_Cut CHR ''/'' (addr @ ''/'' @ msk) = (addr, msk, True)" using go_Cut_parts [of "CHR ''/''" addr msk] by simp
  then show ?thesis
    using assms(2-4) len ParseAddr_v4 [OF assms(1)] by (simp add: ParseCIDR_def mask_ip_def To16_def Let_def)
qed

text \<open>
  A CIDR of a dotted address with \<open>n\<close> mask bits contains an IPv4 address exactly when the two agree on
  their first \<open>n\<close> bits, and it contains no IPv6 address.
\<close>
theorem ipv4_cidr_membership:
  assumes "parse_v4 addr = Some net" and "list_all is_digit msk" and "msk \<noteq> []" and "digits_val msk \<le> 32"
  shows "\<exists>n. ParseCIDR (addr @ CHR 0x2F # msk) = Some n \<and>
    (\<forall>ip. length ip = 4 \<longrightarrow> Contains n (To16 ip) = (\<forall>p < digits_val msk. addr_bit net p = addr_bit ip p)) \<and>
    (\<forall>ip. length ip = 16 \<and> To4 ip = None \<longrightarrow> \<not> Contains n ip)"
proof -
  let ?n = "digits_val msk" and ?m = "CIDRMask (digits_val msk) 4"
  let ?net = "\<lparr> net_IP = map2 (AND) net ?m, net_Mask = ?m \<rparr>"
  have len: "length net = 4" using assms(1) by (rule parse_v4_length)
  have "Contains ?net (To16 ip) = (\<forall>p < ?n. addr_bit net p = addr_bit ip p)" if ip: "length ip = 4" for ip
  proof -
    have "Contains ?net (To16 ip) = (\<forall>p < ?n. addr_bit (map2 (AND) net ?m) p = addr_bit ip p)"
      using ip len masked_list_eq [of "map2 (AND) net ?m" 4 ip ?n] assms(4) by (simp add: Contains_def To16_def Let_def)
    then show ?thesis using addr_bit_masked [OF len] assms(4) by simp
  qed
  moreover have "\<not> Contains ?net ip" if "length ip = 16" "To4 ip = None" for ip
    using that len by (simp add: Contains_def Let_def)
  ultimately show ?thesis using ParseCIDR_v4 [OF assms] by auto
qed

theorem ipv4_cidr_membership_witness:
  "\<exists>n. ParseCIDR ''10.0.0.0/8'' = Some n \<and> Contains n (To16 [10, 1, 2, 3]) =
    (\<forall>p < 8. addr_bit [10, 0, 0, 0] p = addr_bit [10, 1, 2, 3] p)"
proof -
  have "parse_v4 ''10.0.0.0'' = Some [10, 0, 0, 0]" "list_all is_digit ''8''" "digits_val ''8'' = 8" by code_simp+
  with ipv4_cidr_membership [of "''10.0.0.0''" "[10, 0, 0, 0]" "''8''"] show ?thesis by auto
qed

end
