(* ===== verification/Request_Filter.thy ===== *)
theory Request_Filter
  imports Helix_Prelude
begin

text \<open>
  The request filter of \<open>internal/plugin/builtin/security.go\<close>: the patterns for SQL injection, script
  injection and path traversal, \<open>url.QueryUnescape\<close>, and the decision on a request. A pattern is a value of
  the datatype \<open>re\<close>, which covers the operators the source uses; \<open>rx r s i\<close> lists the positions at which a
  match of \<open>r\<close> that starts at position \<open>i\<close> of \<open>s\<close> can end.
\<close>

section \<open>Regular expressions\<close>

datatype re =
    Eps
  | Sym "char \<Rightarrow> bool"
  | Seq re re
  | Alt re re
  | Star re
  | Boundary

definition word_char :: "char \<Rightarrow> bool" where
  "word_char c \<longleftrightarrow> is_upper c \<or> is_lower c \<or> is_digit c \<or> c = CHR ''_''"

definition at_boundary :: "string \<Rightarrow> nat \<Rightarrow> bool" where
  "at_boundary s i \<longleftrightarrow> (0 < i \<and> i \<le> length s \<and> word_char (s ! (i - 1))) \<noteq> (i < length s \<and> word_char (s ! i))"

fun star_from :: "(nat \<Rightarrow> nat list) \<Rightarrow> nat \<Rightarrow> nat \<Rightarrow> nat list" where
  "star_from f 0 i = [i]"
| "star_from f (Suc n) i = i # concat (map (star_from f n) (filter (\<lambda>j. i < j) (f i)))"

primrec rx :: "re \<Rightarrow> string \<Rightarrow> nat \<Rightarrow> nat list" where
  "rx Eps s i = [i]"
| "rx (Sym P) s i = (if i < length s \<and> P (s ! i) then [Suc i] else [])"
| "rx (Seq a b) s i = concat (map (rx b s) (rx a s i))"
| "rx (Alt a b) s i = rx a s i @ rx b s i"
| "rx (Star a) s i = star_from (rx a s) (length s) i"
| "rx Boundary s i = (if at_boundary s i then [i] else [])"

definition MatchString :: "re \<Rightarrow> string \<Rightarrow> bool" where
  "MatchString r s \<longleftrightarrow> list_ex (\<lambda>i. rx r s i \<noteq> []) [0..<Suc (length s)]"

text \<open>Literals (exact, and without regard to case), classes and repetition.\<close>

fun lit :: "string \<Rightarrow> re" where
  "lit [] = Eps"
| "lit (c # cs) = Seq (Sym (\<lambda>x. x = c)) (lit cs)"

fun lit_i :: "string \<Rightarrow> re" where
  "lit_i [] = Eps"
| "lit_i (c # cs) = Seq (Sym (\<lambda>x. lower_char x = lower_char c)) (lit_i cs)"

fun alts :: "re list \<Rightarrow> re" where
  "alts [] = Sym (\<lambda>_. False)"
| "alts [r] = r"
| "alts (r # rs) = Alt r (alts rs)"

fun seqs :: "re list \<Rightarrow> re" where
  "seqs [] = Eps"
| "seqs [r] = r"
| "seqs (r # rs) = Seq r (seqs rs)"

definition Plus :: "re \<Rightarrow> re" where
  "Plus r = Seq r (Star r)"

definition Opt :: "re \<Rightarrow> re" where
  "Opt r = Alt r Eps"

definition rx_space :: re where
  "rx_space = Sym (\<lambda>c. c \<in> {CHR '' '', CHR 0x09, CHR 0x0A, CHR 0x0C, CHR 0x0D})"

definition rx_digit :: re where "rx_digit = Sym is_digit"
definition rx_dot :: re where "rx_dot = Sym (\<lambda>c. c \<noteq> CHR 0x0A)"
definition not_char :: "char \<Rightarrow> re" where "not_char c = Sym (\<lambda>x. x \<noteq> c)"
definition quote :: char where "quote = CHR 0x27"

section \<open>The patterns\<close>

definition sp :: re where "sp = Plus rx_space"
definition sp0 :: re where "sp0 = Star rx_space"

definition sql_keywords :: re where
  "sql_keywords = seqs [Boundary, alts [
     seqs [lit_i ''UNION'', sp, lit_i ''SELECT''],
     seqs [lit_i ''SELECT'', sp, Star rx_dot, sp, lit_i ''FROM''],
     seqs [lit_i ''INSERT'', sp, lit_i ''INTO''],
     seqs [lit_i ''UPDATE'', sp, Star rx_dot, sp, lit_i ''SET''],
     seqs [lit_i ''DELETE'', sp, lit_i ''FROM''],
     seqs [lit_i ''DROP'', sp, lit_i ''TABLE''],
     seqs [lit_i ''DROP'', sp, lit_i ''DATABASE''],
     seqs [lit_i ''ALTER'', sp, lit_i ''TABLE''],
     seqs [lit_i ''EXEC'', sp0, lit ''(''],
     seqs [lit_i ''EXECUTE'', sp0, lit ''(''],
     seqs [lit_i ''CAST'', sp0, lit ''(''],
     seqs [lit_i ''CONVERT'', sp0, lit ''(''],
     seqs [lit_i ''WAITFOR'', sp, lit_i ''DELAY'']], Boundary]"

definition sql_comments :: re where
  "sql_comments = alts [seqs [lit ''--'', rx_space], lit '';--'', seqs [lit ''/*'', Star rx_dot, lit ''*/'']]"

definition sql_quotes :: re where
  "sql_quotes = (let nq = Star (not_char quote); q = lit [quote]
     in seqs [q, nq, q, nq, lit ''='', sp0, q, nq, q])"

definition sql_tautology :: re where
  "sql_tautology = seqs [Boundary, alts [lit ''OR'', lit ''AND''], sp, Plus rx_digit, lit ''='', Plus rx_digit]"

definition sqlPatterns :: "re list" where
  "sqlPatterns = [sql_keywords, sql_comments, sql_quotes, sql_tautology]"

text \<open>The event names of the third script pattern, with its alternatives multiplied out.\<close>

definition event_names :: "string list" where
  "event_names =
    [''abort'', ''animationcancel'', ''animationend'', ''animationiteration'', ''animationstart'', ''auxclick'',
     ''beforecopy'', ''beforecut'', ''beforepaste'', ''beforeunload'', ''blur'', ''cancel'', ''canplay'',
     ''canplaythrough'', ''change'', ''click'', ''close'', ''contextmenu'', ''copy'', ''cuechange'', ''cut'',
     ''dblclick'', ''drag'', ''dragend'', ''dragenter'', ''dragleave'', ''dragover'', ''dragstart'', ''drop'',
     ''durationchange'', ''emptied'', ''ended'', ''error'', ''focus'', ''fullscreenchange'', ''fullscreenerror'',
     ''hashchange'', ''input'', ''invalid'', ''keydown'', ''keypress'', ''keyup'', ''load'', ''loadstart'', ''loadend'',
     ''lostpointercapture'', ''message'', ''mousedown'', ''mouseenter'', ''mouseleave'', ''mousemove'', ''mouseout'',
     ''mouseover'', ''mouseup'', ''mousewheel'', ''offline'', ''online'', ''pagehide'', ''pageshow'', ''paste'', ''pause'',
     ''play'', ''playing'', ''pointercancel'', ''pointerdown'', ''pointerenter'', ''pointerleave'', ''pointermove'',
     ''pointerout'', ''pointerover'', ''pointerrawupdate'', ''pointerup'', ''popstate'', ''progress'', ''ratechange'',
     ''reset'', ''resize'', ''scroll'', ''securitypolicyviolation'', ''seeked'', ''seeking'', ''select'', ''slotchange'',
     ''stalled'', ''submit'', ''suspend'', ''timeupdate'', ''toggle'', ''touchcancel'', ''touchend'', ''touchmove'',
     ''touchstart'', ''transitioncancel'', ''transitionend'', ''transitionrun'', ''transitionstart'', ''unload'',
     ''volumechange'', ''waiting'', ''wheel'']"

definition xssPatterns :: "re list" where
  "xssPatterns =
    [seqs [lit ''<'', sp0, lit_i ''script'', Star (not_char CHR ''>''), lit ''>''],
     seqs [lit_i ''javascript'', sp0, lit '':''],
     seqs [Boundary, lit_i ''on'', alts (map lit_i event_names), sp0, lit ''=''],
     alts [lit_i ''vbscript'', lit_i ''data:text/html'']]"

definition pathTraversalPattern :: re where
  "pathTraversalPattern = (let up = seqs [lit ''..'', Sym (\<lambda>c. c = CHR ''/'' \<or> c = CHR 0x5C)]
     in seqs [up, up, Star up])"

section \<open>Query decoding\<close>

definition hex_digit_val :: "char \<Rightarrow> nat option" where
  "hex_digit_val c =
     (let n = of_char c :: nat
      in if 48 \<le> n \<and> n \<le> 57 then Some (n - 48)
         else if 97 \<le> n \<and> n \<le> 102 then Some (n - 87)
         else if 65 \<le> n \<and> n \<le> 70 then Some (n - 55) else None)"

text \<open>\<open>url.QueryUnescape\<close>; \<open>None\<close> is an error.\<close>

fun QueryUnescape :: "string \<Rightarrow> string option" where
  "QueryUnescape [] = Some []"
| "QueryUnescape (c # cs) =
     (if c = CHR ''%''
      then (case cs of
              a # b # rest \<Rightarrow>
                (case (hex_digit_val a, hex_digit_val b) of
                   (Some x, Some y) \<Rightarrow> map_option (\<lambda>t. char_of (16 * x + y) # t) (QueryUnescape rest)
                 | _ \<Rightarrow> None)
            | _ \<Rightarrow> None)
      else map_option (\<lambda>t. (if c = CHR ''+'' then CHR '' '' else c) # t) (QueryUnescape cs))"

section \<open>The decision\<close>

datatype filter_verdict = Pass | InvalidPath | InvalidQuery | InvalidRequest

definition filter_request :: "string \<Rightarrow> string \<Rightarrow> string \<Rightarrow> filter_verdict" where
  "filter_request meth path raw =
     (if meth = ''OPTIONS'' then Pass
      else if MatchString pathTraversalPattern path then InvalidPath
      else if raw = '''' then Pass
      else case QueryUnescape raw of
             None \<Rightarrow> InvalidQuery
           | Some d \<Rightarrow>
               let decoded = ToLower d
               in if list_ex (\<lambda>p. MatchString p decoded) sqlPatterns then InvalidRequest
                  else if list_ex (\<lambda>p. MatchString p decoded) xssPatterns then InvalidRequest
                  else Pass)"

section \<open>Lemmas\<close>

text \<open>A match never leaves the text and never moves back.\<close>

lemma star_from_mono:
  assumes "\<And>i j. j \<in> set (f i) \<Longrightarrow> i \<le> n \<Longrightarrow> i \<le> j \<and> j \<le> n"
  shows "j \<in> set (star_from f k i) \<Longrightarrow> i \<le> n \<Longrightarrow> i \<le> j \<and> j \<le> n"
proof (induction k arbitrary: i)
  case (Suc k)
  from Suc.prems(1) consider "j = i" | m where "m \<in> set (f i)" "j \<in> set (star_from f k m)" by auto
  then show ?case
  proof cases
    case 2
    with assms Suc.prems(2) have "i \<le> m" "m \<le> n" by blast+
    with Suc.IH [OF 2(2)] show ?thesis by auto
  qed (use Suc.prems(2) in simp)
qed simp

lemma rx_mono: "j \<in> set (rx r s i) \<Longrightarrow> i \<le> length s \<Longrightarrow> i \<le> j \<and> j \<le> length s"
proof (induction r arbitrary: i j)
  case (Star r)
  then show ?case using star_from_mono [of "rx r s" "length s" j "length s" i] by auto
next
  case (Seq a b)
  from Seq.prems(1) obtain m where "m \<in> set (rx a s i)" "j \<in> set (rx b s m)" by auto
  with Seq.IH Seq.prems(2) show ?case by (meson order_trans)
qed (auto split: if_splits)

text \<open>Lower-cased text has no capital letters.\<close>

lemma lower_char_not_upper: "\<not> is_upper (lower_char c)"
proof (cases "is_upper c")
  case True
  then have "(of_char c :: nat) \<le> 90" "65 \<le> (of_char c :: nat)" by (simp_all add: is_upper_def Let_def)
  then have "of_char (lower_char c) = (of_char c + 32 :: nat)"
    using True by (simp add: lower_char_def)
  with \<open>65 \<le> of_char c\<close> show ?thesis by (simp add: is_upper_def Let_def)
next
  case False
  then show ?thesis by (simp add: lower_char_def)
qed

lemma rx_lit_Cons:
  assumes "rx (lit (c # cs)) s i \<noteq> []"
  shows "i < length s \<and> s ! i = c"
  using assms by (auto split: if_splits)

lemma rx_Seq_first: "rx (Seq a b) s i \<noteq> [] \<Longrightarrow> \<exists>j. j \<in> set (rx a s i)"
  by (cases "rx a s i") auto

lemma sql_tautology_needs_capital:
  assumes "MatchString sql_tautology s"
  shows "\<exists>c \<in> set s. is_upper c"
proof -
  obtain i where "rx sql_tautology s i \<noteq> []" using assms by (auto simp: MatchString_def list_ex_iff)
  then obtain j where "j \<in> set (rx Boundary s i)" and tail: "rx (alts [lit ''OR'', lit ''AND'']) s j \<noteq> []"
    by (auto simp: sql_tautology_def split: if_splits)
  then have "j < length s \<and> (s ! j = CHR ''O'' \<or> s ! j = CHR ''A'')"
    using rx_lit_Cons [of "CHR ''O''" "''R''" s j] rx_lit_Cons [of "CHR ''A''" "''ND''" s j]
    by (auto simp del: lit.simps)
  then show ?thesis by (intro bexI [of _ "s ! j"]) (auto simp: is_upper_def)
qed

section \<open>Properties\<close>

text \<open>
  The filter's last SQL pattern is dead code. It looks for the capital keywords OR and AND, but it is
  applied to the query after \<open>strings.ToLower\<close>: it matches no request, whatever the query, so removing it
  changes no verdict.
\<close>
theorem tautology_pattern_never_matches:
  "\<not> MatchString sql_tautology (ToLower d) \<and>
   list_ex (\<lambda>p. MatchString p (ToLower d)) sqlPatterns =
     list_ex (\<lambda>p. MatchString p (ToLower d)) [sql_keywords, sql_comments, sql_quotes]"
proof -
  have "\<not> MatchString sql_tautology (ToLower d)"
    using sql_tautology_needs_capital [of "ToLower d"] lower_char_not_upper by (auto simp: ToLower_def)
  then show ?thesis by (simp add: sqlPatterns_def)
qed


text \<open>The traversal pattern, position by position.\<close>

definition slash :: "char \<Rightarrow> bool" where
  "slash c \<longleftrightarrow> c = CHR ''/'' \<or> c = CHR 0x5C"

lemma rx_up:
  "rx (seqs [lit ''..'', Sym (\<lambda>c. c = CHR ''/'' \<or> c = CHR 0x5C)]) s i =
     (if i + 2 < length s \<and> s ! i = CHR ''.'' \<and> s ! (i + 1) = CHR ''.'' \<and> slash (s ! (i + 2)) then [i + 3] else [])"
  by (auto simp: slash_def numeral_2_eq_2 numeral_3_eq_3)

lemma star_from_nonempty [simp]: "star_from f k i \<noteq> []"
  by (cases k) auto

lemma if_cases_concat: "concat (map f (if P then [x] else [])) = (if P then f x else [])"
  by simp

lemma rx_traversal:
  "rx pathTraversalPattern s i \<noteq> [] \<longleftrightarrow>
     i + 5 < length s \<and> s ! i = CHR ''.'' \<and> s ! (i + 1) = CHR ''.'' \<and> slash (s ! (i + 2)) \<and>
     s ! (i + 3) = CHR ''.'' \<and> s ! (i + 4) = CHR ''.'' \<and> slash (s ! (i + 5))"
proof -
  let ?up = "seqs [lit ''..'', Sym (\<lambda>c. c = CHR ''/'' \<or> c = CHR 0x5C)]"
  let ?at = "\<lambda>i. i + 2 < length s \<and> s ! i = CHR ''.'' \<and> s ! (i + 1) = CHR ''.'' \<and> slash (s ! (i + 2))"
  have step: "rx (Seq ?up r) s i = (if ?at i then rx r s (i + 3) else [])" for r i
    unfolding rx.simps(3) rx_up by (rule if_cases_concat)
  have p: "pathTraversalPattern = Seq ?up (Seq ?up (Star ?up))" by (simp add: pathTraversalPattern_def Let_def)
  have "rx pathTraversalPattern s i = (if ?at i then if ?at (i + 3) then rx (Star ?up) s (i + 3 + 3) else [] else [])"
    unfolding p by (subst step, subst step, rule refl)
  moreover have "rx (Star ?up) s k \<noteq> []" for k by (simp only: rx.simps(5) star_from_nonempty not_False_eq_True)
  moreover have "i + 3 + 1 = i + 4" "i + 3 + 2 = i + 5" by simp_all
  ultimately show ?thesis by (simp only:) (auto simp del: rx.simps)
qed

lemma traversal_iff:
  "MatchString pathTraversalPattern s \<longleftrightarrow>
     (\<exists>a x y b. slash x \<and> slash y \<and> s = a @ [CHR ''.'', CHR ''.'', x, CHR ''.'', CHR ''.'', y] @ b)"
proof
  assume "MatchString pathTraversalPattern s"
  then obtain i where i: "i + 5 < length s" "s ! i = CHR ''.''" "s ! (i + 1) = CHR ''.''" "slash (s ! (i + 2))"
    "s ! (i + 3) = CHR ''.''" "s ! (i + 4) = CHR ''.''" "slash (s ! (i + 5))"
    unfolding MatchString_def list_ex_iff rx_traversal by auto
  have "drop i s = map (\<lambda>k. s ! (i + k)) [0..<6] @ drop (i + 6) s"
    using i(1) by (intro nth_equalityI) (auto simp: nth_append)
  then have "drop i s = [CHR ''.'', CHR ''.'', s ! (i + 2), CHR ''.'', CHR ''.'', s ! (i + 5)] @ drop (i + 6) s"
    using i by (simp add: upt_rec eval_nat_numeral)
  then have "s = take i s @ [CHR ''.'', CHR ''.'', s ! (i + 2), CHR ''.'', CHR ''.'', s ! (i + 5)] @ drop (i + 6) s"
    by (metis append_take_drop_id)
  with i(4,7) show "\<exists>a x y b. slash x \<and> slash y \<and> s = a @ [CHR ''.'', CHR ''.'', x, CHR ''.'', CHR ''.'', y] @ b" by blast
next
  assume "\<exists>a x y b. slash x \<and> slash y \<and> s = a @ [CHR ''.'', CHR ''.'', x, CHR ''.'', CHR ''.'', y] @ b"
  then obtain a x y b where s: "slash x" "slash y" "s = a @ [CHR ''.'', CHR ''.'', x, CHR ''.'', CHR ''.'', y] @ b" by blast
  then have "rx pathTraversalPattern s (length a) \<noteq> []" unfolding rx_traversal by (simp add: nth_append)
  moreover have "length a \<in> set [0..<Suc (length s)]" using s(3) by simp
  ultimately show "MatchString pathTraversalPattern s" unfolding MatchString_def list_ex_iff by blast
qed

text \<open>
  A request that is not OPTIONS is rejected for its path exactly when the path contains two
  consecutive steps up, each written with either slash; a single step up passes this test.
\<close>
theorem traversal_rejected_iff_two_steps:
  assumes "meth \<noteq> ''OPTIONS''"
  shows "filter_request meth path raw = InvalidPath \<longleftrightarrow>
    (\<exists>a x y b. slash x \<and> slash y \<and> path = a @ [CHR ''.'', CHR ''.'', x, CHR ''.'', CHR ''.'', y] @ b)"
  using assms by (simp add: filter_request_def traversal_iff Let_def split: option.split)

theorem traversal_rejected_iff_two_steps_witness:
  "filter_request ''GET'' ''/a/../../b'' '''' = InvalidPath"
proof -
  have "\<exists>a x y b. slash x \<and> slash y \<and> ''/a/../../b'' = a @ [CHR ''.'', CHR ''.'', x, CHR ''.'', CHR ''.'', y] @ b"
    by (intro exI [of _ "''/a/''"] exI [of _ "CHR ''/''"] exI [of _ "''b''"]) (simp add: slash_def)
  then show ?thesis using traversal_rejected_iff_two_steps [of "''GET''" "''/a/../../b''" "''''"] by simp
qed

end
