(* ===== verification/Plugins.thy ===== *)
theory Plugins
  imports Http Net_IP Request_Filter
begin

text \<open>
  The built-in plugins of \<open>internal/plugin/builtin\<close>, one definition per constructor of the source, and the
  helpers they use (\<open>isPublic\<close>, \<open>extractBearer\<close>, \<open>telemetry.NormalizePath\<close>, \<open>auth.Validator.Parse\<close>).

  Outside code is a parameter: the JWT library (\<open>jwt_lib\<close>: decoding, signature check, validation of the
  registered claims), SHA-256 (\<open>Sum256\<close>) and the fields of \<open>ext_api\<close>.
\<close>

section \<open>Bodies and paths\<close>

text \<open>A JSON object of string members, as the plugins write it.\<close>

definition json_member :: "string \<times> string \<Rightarrow> string" where
  "json_member kv = [CHR 0x22] @ fst kv @ [CHR 0x22, CHR '':'', CHR 0x22] @ snd kv @ [CHR 0x22]"

definition json_obj :: "(string \<times> string) list \<Rightarrow> string" where
  "json_obj kvs = ''{'' @ join_with CHR '','' (map json_member kvs) @ ''}''"

definition isPublic :: "string \<Rightarrow> string list \<Rightarrow> bool" where
  "isPublic path publicPaths =
     list_ex (\<lambda>p. if HasSuffix p ''/'' then HasPrefix path p else path = p) publicPaths"

definition extractBearer :: "string \<Rightarrow> string" where
  "extractBearer header = (if HasPrefix header ''Bearer '' then TrimPrefix header ''Bearer '' else '''')"

definition numericSeg :: "string \<Rightarrow> bool" where
  "numericSeg seg \<longleftrightarrow> seg \<noteq> '''' \<and> list_all is_digit seg"

definition uuidSeg :: "string \<Rightarrow> bool" where
  "uuidSeg seg \<longleftrightarrow> (let ps = split_on CHR ''-'' seg in map length ps = [8, 4, 4, 4, 12] \<and> list_all (list_all is_hex) ps)"

definition normalize_seg :: "string \<Rightarrow> string" where
  "normalize_seg seg =
     (if numericSeg seg then '':id''
      else if uuidSeg seg then '':id''
      else if length seg > 24 \<and> CHR ''-'' \<notin> set seg then '':token''
      else seg)"

definition NormalizePath :: "string \<Rightarrow> string" where
  "NormalizePath path = join_with CHR ''/'' (map normalize_seg (split_on CHR ''/'' path))"

section \<open>Token validation\<close>

record jwt_lib =
  jl_decode :: "string \<Rightarrow> (bool \<times> Claims) option"
  jl_verify :: "string \<Rightarrow> string \<Rightarrow> bool"
  jl_registered :: "int \<Rightarrow> Claims \<Rightarrow> bool"

datatype auth_error = Malformed | UnexpectedMethod | BadSignature | InvalidClaims | Expired

text \<open>\<open>Validator.Parse\<close> with the secret and the clock.\<close>

definition Validator_Parse :: "jwt_lib \<Rightarrow> string \<Rightarrow> int \<Rightarrow> string \<Rightarrow> auth_error + Claims" where
  "Validator_Parse jl secret now tokenStr =
     (case jl_decode jl tokenStr of
        None \<Rightarrow> Inl Malformed
      | Some (hmac, claims) \<Rightarrow>
          if \<not> hmac then Inl UnexpectedMethod
          else if \<not> jl_verify jl secret tokenStr then Inl BadSignature
          else if \<not> jl_registered jl now claims then Inl InvalidClaims
          else if (case cl_ExpiresAt claims of None \<Rightarrow> False | Some t \<Rightarrow> t < now) then Inl Expired
          else Inr claims)"

section \<open>Plugins that only look at the request\<close>

definition CorrelationID :: "'x ext_api \<Rightarrow> 'x Plugin" where
  "CorrelationID ex = plugin_New ''correlation-id'' (\<lambda>next r w.
     let given = header_Get (rq_Header r) ''X-Correlation-ID'';
         cid = (if given = '''' then ex_uuid ex (w_draws w) else given);
         w1 = (if given = '''' then w\<lparr> w_draws := Suc (w_draws w) \<rparr> else w);
         r1 = r\<lparr> rq_Header := header_Set ''X-Correlation-ID'' cid (rq_Header r) \<rparr>
     in next r1 (set_header ''X-Correlation-ID'' cid w1))"

definition SecurityHeaders :: "'x Plugin" where
  "SecurityHeaders = plugin_New ''security-headers'' (\<lambda>next r w.
     next r
       (set_header ''Permissions-Policy'' ''geolocation=(), microphone=(), camera=()''
       (set_header ''Strict-Transport-Security'' ''max-age=31536000; includeSubDomains''
       (set_header ''Referrer-Policy'' ''strict-origin-when-cross-origin''
       (set_header ''X-XSS-Protection'' ''1; mode=block''
       (set_header ''X-Frame-Options'' ''DENY''
       (set_header ''X-Content-Type-Options'' ''nosniff'' w)))))))"

definition RequestSecurity :: "'x Plugin" where
  "RequestSecurity = plugin_New ''request-security'' (\<lambda>next r w.
     case filter_request (rq_Method r) (rq_Path r) (rq_RawQuery r) of
       Pass \<Rightarrow> next r w
     | InvalidPath \<Rightarrow> reply r (WriteJSON 400 (json_obj [(''error'', ''invalid_path'')]) w)
     | InvalidQuery \<Rightarrow> reply r (WriteJSON 400 (json_obj [(''error'', ''invalid_query'')]) w)
     | InvalidRequest \<Rightarrow> reply r (WriteJSON 400 (json_obj [(''error'', ''invalid_request'')]) w))"

definition cors_headers :: "string \<Rightarrow> 'x world \<Rightarrow> 'x world" where
  "cors_headers origin w =
     set_header ''Vary'' ''Origin''
     (set_header ''Access-Control-Max-Age'' ''3600''
     (set_header ''Access-Control-Allow-Headers'' ''Authorization, Content-Type, X-API-KEY, X-TENANT, X-Auth-Mode, X-CSRF-Token''
     (set_header ''Access-Control-Allow-Methods'' ''GET, POST, PUT, PATCH, DELETE, OPTIONS''
     (set_header ''Access-Control-Allow-Credentials'' ''true''
     (set_header ''Access-Control-Allow-Origin'' origin w)))))"

definition CORS :: "string list \<Rightarrow> 'x Plugin" where
  "CORS allowedOrigins = plugin_New ''cors'' (\<lambda>next r w.
     let allowed = map TrimSpace allowedOrigins; origin = header_Get (rq_Header r) ''Origin''
     in if origin = '''' then next r w
        else if origin \<notin> set allowed then reply r (WriteHeader 403 w)
        else let w1 = cors_headers origin w
             in if rq_Method r = ''OPTIONS'' then reply r (WriteHeader 204 w1) else next r w1)"

text \<open>The first policy that blocks the address, with the reason.\<close>

definition policy_blocks :: "ip_bytes option \<Rightarrow> IPPolicy \<Rightarrow> string option" where
  "policy_blocks ip p =
     (if \<not> ip_Active p then None
      else let matched = cidrContains (ip_CIDRs p) ip
           in if ip_Mode p = ''allow'' \<and> \<not> matched then Some ''ip_not_allowed''
              else if ip_Mode p = ''deny'' \<and> matched then Some ''ip_denied''
              else None)"

definition IPPolicyEnforcer :: "'x ext_api \<Rightarrow> 'x Plugin" where
  "IPPolicyEnforcer ex = plugin_New ''ip-policy'' (\<lambda>next r w.
     let ip = ParseIP (ClientIP r)
     in case List.map_filter (policy_blocks ip) (ListIPPolicies (ex_orders ex) (w_store w)) of
          [] \<Rightarrow> next r w
        | reason # _ \<Rightarrow> reply r (WriteJSON 403 (json_obj [(''error'', reason)]) w))"

definition JWT :: "jwt_lib \<Rightarrow> string \<Rightarrow> string list \<Rightarrow> 'x Plugin" where
  "JWT jl secret publicPaths = plugin_New ''jwt-auth'' (\<lambda>next r w.
     if rq_Method r = ''OPTIONS'' \<or> isPublic (rq_Path r) publicPaths then next r w
     else
       let bearer = extractBearer (header_Get (rq_Header r) ''Authorization'');
           token = (if bearer = '''' then (case Cookie r ''access_token'' of None \<Rightarrow> '''' | Some v \<Rightarrow> v) else bearer)
       in if token = '''' then reply r (WriteJSON 401 (json_obj [(''error'', ''missing_token'')]) w)
          else case Validator_Parse jl secret (w_now w) token of
                 Inl _ \<Rightarrow> reply r (WriteJSON 401 (json_obj [(''error'', ''invalid_token'')]) w)
               | Inr claims \<Rightarrow>
                   let r1 = (if header_Get (rq_Header r) ''Authorization'' = ''''
                             then r\<lparr> rq_Header := header_Set ''Authorization'' (''Bearer '' @ token) (rq_Header r) \<rparr> else r)
                   in next (StoreClaimsInContext claims r1) w)"

definition APIKeyAuth :: "(string \<Rightarrow> string) \<Rightarrow> string \<Rightarrow> 'x Plugin" where
  "APIKeyAuth Sum256 headerName0 = plugin_New ''api-key-auth'' (\<lambda>next r w.
     let headerName = (if headerName0 = '''' then ''X-API-Key'' else headerName0);
         key = header_Get (rq_Header r) headerName
     in if key = '''' then reply r (WriteJSON 401 (json_obj [(''error'', ''api_key_required'')]) w)
        else case ValidateAPIKey Sum256 key (w_store w) of
               None \<Rightarrow> reply r (WriteJSON 401 (json_obj [(''error'', ''api_key_invalid'')]) w)
             | Some k \<Rightarrow> next (r\<lparr> rq_Header := header_Set ''X-Gateway-API-Key-Name'' (k_Name k) (rq_Header r) \<rparr>) w)"

section \<open>Rate limits\<close>

text \<open>A check of the limiter with the next environment; it changes Redis and nothing else.\<close>

definition limiter_ask :: "'x ext_api \<Rightarrow> ('x redis_api \<Rightarrow> check_env \<Rightarrow> 'x \<Rightarrow> bool \<times> 'x) \<Rightarrow> 'x world \<Rightarrow> bool \<times> 'x world" where
  "limiter_ask ex ask w =
     (let (ok, x) = ask (ex_redis ex) (ex_check ex (w_draws w)) (w_ext w)
      in (ok, w\<lparr> w_ext := x, w_draws := Suc (w_draws w) \<rparr>))"

definition reject_rate :: "string \<Rightarrow> string \<Rightarrow> 'x world \<Rightarrow> 'x world" where
  "reject_rate scope retry w =
     (let w1 = w\<lparr> w_prom := (w_prom w)\<lparr> pm_rejects := add_mset scope (pm_rejects (w_prom w)) \<rparr> \<rparr>
      in WriteJSON 429 (json_obj [(''error'', ''rate_limit_exceeded''), (''scope'', scope)]) (set_header ''Retry-After'' retry w1))"

definition IPRateLimit :: "'x ext_api \<Rightarrow> Limiter \<Rightarrow> string list \<Rightarrow> 'x Plugin" where
  "IPRateLimit ex l bypassPrefixes = plugin_New ''ip-rate-limit'' (\<lambda>next r w.
     if rq_Method r = ''OPTIONS'' \<or> isPublic (rq_Path r) bypassPrefixes then next r w
     else let (ok, w1) = limiter_ask ex (\<lambda>api e. AllowIP api e l (ClientIP r)) w
          in if \<not> ok then reply r (reject_rate ''ip'' ''5'' w1) else next r w1)"

definition AuthRateLimit :: "'x ext_api \<Rightarrow> Limiter \<Rightarrow> 'x Plugin" where
  "AuthRateLimit ex l = plugin_New ''auth-rate-limit'' (\<lambda>next r w.
     if rq_Method r = ''POST'' \<and> rq_Path r = ''/api/auth/login''
     then let (ok, w1) = limiter_ask ex (\<lambda>api e. AllowAuth api e l (ClientIP r)) w
          in if \<not> ok then reply r (reject_rate ''auth'' ''60'' w1) else next r w1
     else next r w)"

definition UserRateLimit :: "'x ext_api \<Rightarrow> Limiter \<Rightarrow> 'x Plugin" where
  "UserRateLimit ex l = plugin_New ''user-rate-limit'' (\<lambda>next r w.
     case ClaimsFrom r of
       None \<Rightarrow> next r w
     | Some claims \<Rightarrow>
         let (ok, w1) = limiter_ask ex (\<lambda>api e. AllowUser api e l (UserID claims)) w
         in if \<not> ok then reply r (reject_rate ''user'' ''5'' w1) else next r w1)"

text \<open>The per-route limiter: \<open>getLimiter\<close>, one sweep of the clean-up loop, and the plugin.\<close>

definition getLimiter :: "'x ext_api \<Rightarrow> nat \<Rightarrow> string \<Rightarrow> 'x world \<Rightarrow> nat \<times> 'x world" where
  "getLimiter ex i key w =
     (let rl = w_limits w ! i;
          (h, x) = (case map_of (rl_clients rl) key of
                      Some e \<Rightarrow> (ce_lim e, w_ext w)
                    | None \<Rightarrow> ex_NewLimiter ex (rl_rps rl) (rl_burst rl) (w_ext w));
          rl' = rl\<lparr> rl_clients := gm_put key \<lparr> ce_lim = h, ce_lastSeen = w_now w \<rparr> (rl_clients rl) \<rparr>
      in (h, w\<lparr> w_ext := x, w_limits := (w_limits w)[i := rl'] \<rparr>))"

definition sweep_clients :: "int \<Rightarrow> (string, client_entry) gomap \<Rightarrow> (string, client_entry) gomap" where
  "sweep_clients now m = filter (\<lambda>(k, v). \<not> now - ce_lastSeen v > 600000000000) m"

definition RouteRateLimit :: "'x ext_api \<Rightarrow> nat \<Rightarrow> 'x Plugin" where
  "RouteRateLimit ex i = plugin_New ''route-rate-limit'' (\<lambda>next r w.
     let (h, w1) = getLimiter ex i (ClientIP r) w;
         (ok, x) = ex_Allow ex h (w_now w1) (w_ext w1);
         w2 = w1\<lparr> w_ext := x \<rparr>
     in if \<not> ok then reply r (WriteJSON 429 (json_obj [(''error'', ''route_rate_limit_exceeded'')]) w2)
        else next r w2)"

section \<open>Plugins that watch the response\<close>

text \<open>A call with a recorder around the writer; \<open>k\<close> gets the recorded status and size.\<close>

definition with_recorder ::
  "'x handler \<Rightarrow> request \<Rightarrow> 'x world \<Rightarrow> (int \<times> nat \<Rightarrow> headers \<Rightarrow> 'x world \<Rightarrow> headers \<times> 'x world) \<Rightarrow> headers \<times> 'x world" where
  "with_recorder next r w k =
     call next r (push_layer (Recorder 200 0) w) (\<lambda>h w1. k (recorded (w_layers w1)) h (pop_layer w1))"

definition CircuitBreaker :: "nat \<Rightarrow> 'x Plugin" where
  "CircuitBreaker b = plugin_New ''circuit-breaker'' (\<lambda>next r w.
     let (ok, cb) = cb_allow (w_now w) (w_breakers w ! b);
         w1 = w\<lparr> w_breakers := (w_breakers w)[b := cb] \<rparr>
     in if \<not> ok
        then reply r (WriteJSON 503 (json_obj [(''error'', ''service_unavailable''), (''reason'', ''circuit_open'')]) w1)
        else with_recorder next r w1 (\<lambda>(st, _) h w2.
               (h, w2\<lparr> w_breakers := (w_breakers w2)[b := cb_record (w_now w2) (st \<ge> 500) (w_breakers w2 ! b)] \<rparr>)))"

text \<open>The time since \<open>start\<close> is in nanoseconds; the log has it in milliseconds.\<close>

definition Logging :: "'x Plugin" where
  "Logging = plugin_New ''logging'' (\<lambda>next r w.
     with_recorder next r w (\<lambda>(st, n) h w1.
       (h, w1\<lparr> w_log := w_log w1 @ [\<lparr>
          lg_level = (if st \<ge> 500 then LevelError else if st \<ge> 400 then LevelWarn else LevelInfo),
          lg_method = rq_Method r, lg_path = rq_Path r, lg_status = st,
          lg_duration = (w_now w1 - w_now w) div 1000000, lg_size = n,
          lg_ip = ClientIP (r\<lparr> rq_Header := h \<rparr>),
          lg_correlation = header_Get h ''X-Correlation-ID'' \<rparr>] \<rparr>)))"

text \<open>
  \<open>Tracing\<close> reads the claims from the context it made before the call, which inner plugins do not change.
  The propagation of the trace context is left to the tracer.
\<close>

definition Tracing :: "'x Plugin" where
  "Tracing = plugin_New ''tracing'' (\<lambda>next r w.
     let span = (\<lambda>st. \<lparr> sn_name = rq_Method r @ '' '' @ NormalizePath (rq_Path r), sn_method = rq_Method r,
                        sn_path = rq_Path r, sn_address = ClientIP r, sn_status = st,
                        sn_user = (case st of None \<Rightarrow> None | Some _ \<Rightarrow> map_option (\<lambda>c. (UserID c, cl_Role c)) (ClaimsFrom r)),
                        sn_error = (case st of None \<Rightarrow> False | Some c \<Rightarrow> c \<ge> 500) \<rparr>);
         done = (\<lambda>st w1. w1\<lparr> w_spans := w_spans w1 @ [span st] \<rparr>);
         (h, w1) = next r (push_layer (Recorder 200 0) w)
     in if w_panic w1 \<noteq> None then (h, done None w1)
        else (h, done (Some (fst (recorded (w_layers w1)))) (pop_layer w1)))"

definition HTTPMetrics :: "'x Plugin" where
  "HTTPMetrics = plugin_New ''http-metrics'' (\<lambda>next r w.
     let path = NormalizePath (rq_Path r);
         w1 = w\<lparr> w_prom := (w_prom w)\<lparr> pm_active := pm_active (w_prom w) + 1 \<rparr> \<rparr>
     in with_recorder next r w1 (\<lambda>(st, _) h w2.
          (h, w2\<lparr> w_prom := (w_prom w2)\<lparr>
             pm_active := pm_active (w_prom w2) - 1,
             pm_requests := add_mset (rq_Method r, path, int_digits st) (pm_requests (w_prom w2)),
             pm_durations := pm_durations (w_prom w2) @ [(rq_Method r, path, w_now w2 - w_now w)] \<rparr> \<rparr>)))"

definition Transform :: "TransformConfig \<Rightarrow> 'x Plugin" where
  "Transform cfg = plugin_New ''transform'' (\<lambda>next r0 w.
     let hdr = del_headers (tc_RemoveRequestHeaders cfg) (set_headers (tc_SetRequestHeaders cfg) (rq_Header r0));
         r1 = r0\<lparr> rq_Header := hdr \<rparr>;
         rewrite = (case tc_URLRewrite cfg of
                      None \<Rightarrow> None
                    | Some u \<Rightarrow> if uw_PrefixMatch u \<noteq> '''' \<and> HasPrefix (rq_Path r1) (uw_PrefixMatch u)
                                then Some (uw_Replacement u @ TrimPrefix (rq_Path r1) (uw_PrefixMatch u)) else None);
         r2 = (case rewrite of None \<Rightarrow> r1 | Some p \<Rightarrow> r1\<lparr> rq_Path := (if p = '''' then ''/'' else p) \<rparr>);
         keep = (\<lambda>h. if rewrite = None then h else hdr)
     in if tc_SetResponseHeaders cfg \<noteq> [] \<or> tc_RemoveResponseHeaders cfg \<noteq> []
        then let (h, w1) = next r2 (push_layer (Transformer cfg False) w)
             in (keep h, if w_panic w1 = None then pop_layer w1 else w1)
        else let (h, w1) = next r2 w in (keep h, w1))"

end
