(* ===== verification/Router.thy ===== *)
theory Router
  imports Plugins
begin

text \<open>
  The dynamic router of \<open>internal/router/router.go\<close>: matching a request against the route table, building
  the table from the store (\<open>reload\<close>), and the handlers it puts there: reverse proxies, load balancing over
  endpoints, weighted traffic split over upstreams, path stripping, the route's plugins and the tracker.

  Outside code is a parameter of \<open>net_api\<close>: \<open>url.Parse\<close>, \<open>regexp.Compile\<close>, the transports' \<open>RoundTrip\<close>,
  the trace propagator, and the result of \<open>sort.Slice\<close> on the prefix entries. Handlers of the table are
  functions; the balancers they share live in the world, at the index given to them when they are built.
\<close>

section \<open>Matching\<close>

record 'x entry =
  e_route :: Route
  e_handler :: "'x handler"
  e_re :: "(string \<Rightarrow> bool) option"

record 'x routeTable =
  exactEntries :: "'x entry list"
  prefixEntries :: "'x entry list"
  regexEntries :: "'x entry list"

definition stripPort :: "string \<Rightarrow> string" where
  "stripPort host = (case last_index CHR '':'' host of Some i \<Rightarrow> take i host | None \<Rightarrow> host)"

definition matchHosts :: "string list \<Rightarrow> string \<Rightarrow> bool" where
  "matchHosts hosts host = (hosts = [] \<or> list_ex (\<lambda>h. h = host \<or> h = ''*'') hosts)"

definition matchMethod :: "string list \<Rightarrow> string \<Rightarrow> bool" where
  "matchMethod methods meth = (methods = [] \<or> list_ex (\<lambda>m. EqualFold m meth) methods)"

definition matchHeaders :: "(string, string) gomap \<Rightarrow> request \<Rightarrow> bool" where
  "matchHeaders hdrs req = list_all (\<lambda>(k, v). header_Get (rq_Header req) k = v) hdrs"

definition matchEntry :: "'x entry \<Rightarrow> string \<Rightarrow> string \<Rightarrow> string \<Rightarrow> request \<Rightarrow> bool" where
  "matchEntry e host path meth req =
     (let m = r_Match (e_route e)
      in if \<not> matchHosts (m_Hosts m) host \<or> \<not> matchMethod (m_Methods m) meth \<or> \<not> matchHeaders (m_Headers m) req then False
         else if m_PathMode m = PathModeExact then path = m_Path m
         else if m_PathMode m = PathModePrefix then HasPrefix path (m_Path m)
         else if m_PathMode m = PathModeRegex then (case e_re e of None \<Rightarrow> False | Some f \<Rightarrow> f path)
         else False)"

definition match_in :: "'x entry list \<Rightarrow> request \<Rightarrow> 'x entry option" where
  "match_in es req = find (\<lambda>e. matchEntry e (stripPort (rq_Host req)) (rq_Path req) (rq_Method req) req) es"

definition match_entry :: "'x routeTable \<Rightarrow> request \<Rightarrow> 'x entry option" where
  "match_entry rt req =
     (case match_in (exactEntries rt) req of
        Some e \<Rightarrow> Some e
      | None \<Rightarrow>
          (case match_in (prefixEntries rt) req of
             Some e \<Rightarrow> Some e
           | None \<Rightarrow> match_in (regexEntries rt) req))"

definition router_ServeHTTP :: "'x routeTable \<Rightarrow> 'x handler \<Rightarrow> 'x handler" where
  "router_ServeHTTP rt fallback req w =
     (case match_entry rt req of Some e \<Rightarrow> e_handler e req w | None \<Rightarrow> fallback req w)"

section \<open>Reverse proxies\<close>

datatype rt_result = RT_error | RT_response int headers string | RT_aborted int headers string

record 'x net_api =
  na_Parse :: "string \<Rightarrow> (string \<times> string) option"
  na_Compile :: "string \<Rightarrow> (string \<Rightarrow> bool) option"
  na_RoundTrip :: "bool \<Rightarrow> nat \<Rightarrow> request \<Rightarrow> rt_result \<times> int"
  na_Inject :: "headers \<Rightarrow> headers"
  na_sort :: "'x entry list \<Rightarrow> 'x entry list"

definition forwardedProto :: "request \<Rightarrow> string" where
  "forwardedProto r =
     (let p = header_Get (rq_Header r) ''X-Forwarded-Proto''
      in if p \<noteq> '''' then p else if rq_TLS r then ''https'' else ''http'')"

text \<open>The part of the directors that the router and the default backend share.\<close>

definition forward_headers :: "(headers \<Rightarrow> headers) \<Rightarrow> request \<Rightarrow> request" where
  "forward_headers inject req0 =
     (let req = req0\<lparr> rq_Header := header_Del ''X-Forwarded-For'' (inject (rq_Header req0)) \<rparr>;
          req1 = req\<lparr> rq_Header := header_Set ''X-Forwarded-For'' (ClientIP req) (rq_Header req) \<rparr>;
          req2 = req1\<lparr> rq_Header := header_Set ''X-Forwarded-Proto'' (forwardedProto req1) (rq_Header req1) \<rparr>
      in case ClaimsFrom req2 of
           None \<Rightarrow> req2
         | Some c \<Rightarrow> req2\<lparr> rq_Header := header_Set ''X-Gateway-User-Role'' (cl_Role c)
                       (header_Set ''X-Gateway-User-Id'' (UserID c) (rq_Header req2)) \<rparr>)"

definition upstream_director :: "(headers \<Rightarrow> headers) \<Rightarrow> string \<times> string \<Rightarrow> request \<Rightarrow> request" where
  "upstream_director inject target req =
     forward_headers inject (req\<lparr> rq_Scheme := fst target, rq_URLHost := snd target, rq_Host := snd target \<rparr>)"

definition modify_response :: "headers \<Rightarrow> headers" where
  "modify_response h = del_headers [''Access-Control-Allow-Origin'', ''Access-Control-Allow-Credentials'',
     ''Access-Control-Allow-Methods'', ''Access-Control-Allow-Headers'', ''Access-Control-Max-Age'', ''Vary''] h"

definition upstream_unavailable :: "'x world \<Rightarrow> 'x world" where
  "upstream_unavailable w = WriteJSON 502 (json_obj [(''error'', ''upstream_unavailable'')]) w"

text \<open>
  What \<open>httputil.ReverseProxy\<close> does around these: it works on a copy of the request, drops the hop-by-hop
  headers, appends the peer to \<open>X-Forwarded-For\<close>, copies the response headers and body, and panics when the
  body breaks off after the status was sent.
\<close>

definition hop_headers :: "string list" where
  "hop_headers = [''Connection'', ''Proxy-Connection'', ''Keep-Alive'', ''Proxy-Authenticate'', ''Proxy-Authorization'',
     ''Te'', ''Trailer'', ''Transfer-Encoding'', ''Upgrade'']"

definition drop_hops :: "headers \<Rightarrow> headers" where
  "drop_hops h =
     (let named = (case map_of h ''Connection'' of None \<Rightarrow> [] | Some vs \<Rightarrow> map TrimSpace (concat (map (split_on CHR '','') vs)))
      in del_headers hop_headers (del_headers (filter (\<lambda>t. t \<noteq> '''') named) h))"

definition append_peer :: "request \<Rightarrow> headers \<Rightarrow> headers" where
  "append_peer r h =
     (let peer = SplitHostPort_host (rq_RemoteAddr r); prior = header_Get h ''X-Forwarded-For''
      in if peer = '''' then h
         else header_Set ''X-Forwarded-For'' (if prior = '''' then peer else prior @ '', '' @ peer) h)"

definition copy_headers :: "headers \<Rightarrow> headers \<Rightarrow> headers" where
  "copy_headers src dst =
     fold (\<lambda>(k, vs) h. gm_put k ((case map_of h k of None \<Rightarrow> [] | Some ws \<Rightarrow> ws) @ vs) h) src dst"

definition send_response :: "int \<Rightarrow> headers \<Rightarrow> string \<Rightarrow> 'x world \<Rightarrow> 'x world" where
  "send_response code hdr body w =
     (let w1 = w\<lparr> w_resp := (w_resp w)\<lparr> resp_header := copy_headers hdr (resp_header (w_resp w)) \<rparr> \<rparr>
      in Write_body body (WriteHeader code w1))"

definition reverse_proxy ::
  "'x net_api \<Rightarrow> bool \<Rightarrow> (request \<Rightarrow> request) \<Rightarrow> (headers \<Rightarrow> headers) \<Rightarrow> 'x handler" where
  "reverse_proxy na grpc director modify r w =
     (let out = director r;
          out1 = out\<lparr> rq_Header := append_peer r (drop_hops (rq_Header out)) \<rparr>;
          (res, dt) = na_RoundTrip na grpc (w_draws w) out1;
          w1 = w\<lparr> w_draws := Suc (w_draws w), w_now := w_now w + dt \<rparr>
      in (rq_Header r,
          case res of
            RT_error \<Rightarrow> upstream_unavailable w1
          | RT_response code hdr body \<Rightarrow> send_response code (drop_hops (modify hdr)) body w1
          | RT_aborted code hdr body \<Rightarrow>
              (send_response code (drop_hops (modify hdr)) body w1)\<lparr> w_panic := Some AbortHandler \<rparr>))"

text \<open>An upstream with the protocol grpc has no \<open>ModifyResponse\<close>; \<open>None\<close> is an invalid URL.\<close>

definition buildUpstreamProxy :: "'x net_api \<Rightarrow> Upstream \<Rightarrow> string \<Rightarrow> 'x handler option" where
  "buildUpstreamProxy na u targetURL =
     (case na_Parse na targetURL of
        None \<Rightarrow> None
      | Some target \<Rightarrow>
          let grpc = (u_Protocol u = ''grpc'')
          in Some (reverse_proxy na grpc (upstream_director (na_Inject na) target) (if grpc then (\<lambda>h. h) else modify_response)))"

section \<open>Load balancing\<close>

definition balancer_Next :: "(int \<Rightarrow> int) \<Rightarrow> health \<Rightarrow> balancer \<Rightarrow> (go_panic + string) \<times> balancer" where
  "balancer_Next IntN h b =
     (case b of
        RoundRobin rr \<Rightarrow> (let (x, rr') = rr_Next h rr in (x, RoundRobin rr'))
      | Weighted wb \<Rightarrow> (wb_Next IntN h wb, Weighted wb)
      | LeastConnections lc \<Rightarrow> (let (x, lc') = lc_Next h lc in (x, LeastConnections lc')))"

definition balancer_Done :: "string \<Rightarrow> balancer \<Rightarrow> balancer" where
  "balancer_Done ep b = (case b of LeastConnections lc \<Rightarrow> LeastConnections (lc_Done ep lc) | _ \<Rightarrow> b)"

text \<open>The weights of the weighted algorithm: 100 shared out, the remainder to the first endpoint.\<close>

definition endpoint_weights :: "string list \<Rightarrow> WeightedEndpoint list" where
  "endpoint_weights eps =
     (let n = length eps
      in map (\<lambda>(i, ep). \<lparr> we_URL = ep, we_Weight = int (if i = 0 then 100 div n + 100 mod n else 100 div n) \<rparr>) (enumerate 0 eps))"

definition new_balancer :: "Upstream \<Rightarrow> balancer" where
  "new_balancer u =
     (if u_LBAlgorithm u = ''weighted'' then Weighted (NewWeighted (endpoint_weights (u_Endpoints u)))
      else if u_LBAlgorithm u = ''least-conn'' then LeastConnections (NewLeastConn (u_Endpoints u))
      else RoundRobin (NewRoundRobin (u_Endpoints u)))"

definition lb_handler :: "'x ext_api \<Rightarrow> bool \<Rightarrow> nat \<Rightarrow> (string, 'x handler) gomap \<Rightarrow> 'x handler" where
  "lb_handler ex checker i proxies req w =
     (let h = (if checker then Some (\<lambda>u. IsHealthy u (w_health w)) else None);
          (x, b) = balancer_Next (ex_IntN ex (w_draws w)) h (w_balancers w ! i);
          w1 = w\<lparr> w_balancers := (w_balancers w)[i := b], w_draws := Suc (w_draws w) \<rparr>
      in case x of
           Inl p \<Rightarrow> (rq_Header req, w1\<lparr> w_panic := Some p \<rparr>)
         | Inr ep \<Rightarrow>
             if ep = '''' then reply req (WriteJSON 503 (json_obj [(''error'', ''no_healthy_upstream'')]) w1)
             else case map_of proxies ep of
                    None \<Rightarrow> reply req (WriteHeader 502 w1)
                  | Some proxy \<Rightarrow>
                      let (hd', w2) = proxy req w1
                      in (hd', w2\<lparr> w_balancers := (w_balancers w2)[i := balancer_Done ep (w_balancers w2 ! i)] \<rparr>))"

fun endpoint_proxies :: "'x net_api \<Rightarrow> Upstream \<Rightarrow> string list \<Rightarrow> (string, 'x handler) gomap \<Rightarrow> (string, 'x handler) gomap option" where
  "endpoint_proxies na u [] m = Some m"
| "endpoint_proxies na u (ep # eps) m =
     (case buildUpstreamProxy na u ep of None \<Rightarrow> None | Some p \<Rightarrow> endpoint_proxies na u eps (gm_put ep p m))"

definition buildLBHandler :: "'x ext_api \<Rightarrow> 'x net_api \<Rightarrow> bool \<Rightarrow> Upstream \<Rightarrow> 'x world \<Rightarrow> 'x handler option \<times> 'x world" where
  "buildLBHandler ex na checker u w =
     (case endpoint_proxies na u (u_Endpoints u) [] of
        None \<Rightarrow> (None, w)
      | Some proxies \<Rightarrow>
          (Some (lb_handler ex checker (length (w_balancers w)) proxies), w\<lparr> w_balancers := w_balancers w @ [new_balancer u] \<rparr>))"

section \<open>Traffic split\<close>

record 'x wh =
  wh_upstreamID :: string
  wh_handler :: "'x handler"
  wh_weight :: int

definition split_entries :: "WeightedUpstream list \<Rightarrow> (string, 'x handler) gomap \<Rightarrow> 'x wh list" where
  "split_entries wus upstreams =
     List.map_filter (\<lambda>wu. map_option (\<lambda>h. \<lparr> wh_upstreamID = wu_UpstreamID wu, wh_handler = h,
         wh_weight = (if wu_Weight wu \<le> 0 then 1 else wu_Weight wu) \<rparr>) (map_of upstreams (wu_UpstreamID wu))) wus"

definition split_sum :: "'x wh list \<Rightarrow> int" where
  "split_sum hs = fold (\<lambda>h s. wrap64 (s + wh_weight h)) hs 0"

fun split_scan :: "int \<Rightarrow> int \<Rightarrow> 'x wh list \<Rightarrow> 'x wh option" where
  "split_scan rnd cum [] = None"
| "split_scan rnd cum (h # hs) =
     (let cum' = wrap64 (cum + wh_weight h) in if rnd < cum' then Some h else split_scan rnd cum' hs)"

definition upstream_url_of :: "'x ext_api \<Rightarrow> store \<Rightarrow> string \<Rightarrow> string" where
  "upstream_url_of ex s uid =
     (case find (\<lambda>u. u_ID u = uid) (ListUpstreams (ex_orders ex) s) of None \<Rightarrow> '''' | Some u \<Rightarrow> u_URL u)"

definition split_eligible :: "'x ext_api \<Rightarrow> bool \<Rightarrow> 'x wh list \<Rightarrow> 'x world \<Rightarrow> 'x wh list \<times> int" where
  "split_eligible ex checker handlers w =
     (let filtered = filter (\<lambda>h. let url = upstream_url_of ex (w_store w) (wh_upstreamID h)
                                 in url = '''' \<or> IsHealthy url (w_health w)) handlers
      in if checker \<and> filtered \<noteq> [] then (filtered, split_sum filtered) else (handlers, split_sum handlers))"

definition split_choose :: "(int \<Rightarrow> int) \<Rightarrow> 'x wh list \<times> int \<Rightarrow> go_panic + 'x wh" where
  "split_choose IntN el =
     (if snd el \<le> 0 then Inl InvalidArgument
      else case split_scan (IntN (snd el)) 0 (fst el) of
             Some h \<Rightarrow> Inr h
           | None \<Rightarrow> if fst el = [] then Inl IndexOutOfRange else Inr (last (fst el)))"

definition buildTrafficSplitHandler ::
  "'x ext_api \<Rightarrow> bool \<Rightarrow> WeightedUpstream list \<Rightarrow> (string, 'x handler) gomap \<Rightarrow> 'x handler" where
  "buildTrafficSplitHandler ex checker wus upstreams req w =
     (let handlers = split_entries wus upstreams
      in if handlers = [] then reply req (WriteJSON 502 (json_obj [(''error'', ''no_upstream_configured'')]) w)
         else let w1 = w\<lparr> w_draws := Suc (w_draws w) \<rparr>
              in case split_choose (ex_IntN ex (w_draws w)) (split_eligible ex checker handlers w) of
                   Inl p \<Rightarrow> (rq_Header req, w1\<lparr> w_panic := Some p \<rparr>)
                 | Inr h \<Rightarrow> wh_handler h req w1)"

section \<open>Building the table\<close>

definition strip_request :: "string \<Rightarrow> request \<Rightarrow> request" where
  "strip_request pre req =
     (let trimmed = TrimPrefix (rq_Path req) pre
      in req\<lparr> rq_Path := (if trimmed = '''' then ''/'' else trimmed),
              rq_RawPath := (if rq_RawPath req \<noteq> '''' then TrimPrefix (rq_RawPath req) pre else rq_RawPath req) \<rparr>)"

definition strip_handler :: "string \<Rightarrow> 'x handler \<Rightarrow> 'x handler" where
  "strip_handler pre upstream req w = (rq_Header req, snd (upstream (strip_request pre req) w))"

fun build_plugins :: "'x Registry \<Rightarrow> PluginRef list \<Rightarrow> 'x world \<Rightarrow> 'x Plugin list \<times> 'x world" where
  "build_plugins reg [] w = ([], w)"
| "build_plugins reg (ref # refs) w =
     (let (p, w1) = Build reg (p_Name ref) (p_Config ref) w; (ps, w2) = build_plugins reg refs w1
      in ((case p of None \<Rightarrow> ps | Some q \<Rightarrow> q # ps), w2))"

definition track_handler :: "string \<Rightarrow> string \<Rightarrow> 'x handler \<Rightarrow> 'x handler" where
  "track_handler rid name inner req w =
     call inner req (push_layer (RouterRecorder 200) w) (\<lambda>h w1.
       let st = fst (recorded (w_layers w1)); w2 = pop_layer w1
       in (h, w2\<lparr> w_tracker := Track rid name st (w_now w2 - w_now w) (w_tracker w2) \<rparr>))"

definition buildRouteHandler :: "'x Registry \<Rightarrow> bool \<Rightarrow> Route \<Rightarrow> 'x handler \<Rightarrow> 'x world \<Rightarrow> 'x handler \<times> 'x world" where
  "buildRouteHandler reg tracker route upstream w =
     (let base0 = (if r_StripPath route \<and> m_PathMode (r_Match route) = PathModePrefix
                   then strip_handler (m_Path (r_Match route)) upstream else upstream);
          (plugins, w1) = build_plugins reg (r_Plugins route) w;
          base = Chain base0 plugins
      in (if tracker then track_handler (r_ID route) (r_Name route) base else base, w1))"

fun build_upstreams :: "'x ext_api \<Rightarrow> 'x net_api \<Rightarrow> bool \<Rightarrow> Upstream list \<Rightarrow> (string, 'x handler) gomap \<Rightarrow> 'x world \<Rightarrow>
    (string, 'x handler) gomap \<times> 'x world" where
  "build_upstreams ex na checker [] m w = (m, w)"
| "build_upstreams ex na checker (u # us) m w =
     (let (h, w1) = (if length (u_Endpoints u) > 1 then buildLBHandler ex na checker u w
                     else (buildUpstreamProxy na u (u_URL u), w))
      in build_upstreams ex na checker us (case h of None \<Rightarrow> m | Some f \<Rightarrow> gm_put (u_ID u) f m) w1)"

definition buildUpstreamMap :: "'x ext_api \<Rightarrow> 'x net_api \<Rightarrow> bool \<Rightarrow> 'x world \<Rightarrow> (string, 'x handler) gomap \<times> 'x world" where
  "buildUpstreamMap ex na checker w = build_upstreams ex na checker (ListUpstreams (ex_orders ex) (w_store w)) [] w"

text \<open>The upstream handler of a route, \<open>None\<close> when it names an upstream that was not built.\<close>

definition route_upstream :: "'x ext_api \<Rightarrow> bool \<Rightarrow> (string, 'x handler) gomap \<Rightarrow> Route \<Rightarrow> 'x handler option" where
  "route_upstream ex checker upstreams route =
     (if r_WeightedUpstreams route \<noteq> [] then Some (buildTrafficSplitHandler ex checker (r_WeightedUpstreams route) upstreams)
      else map_of upstreams (r_UpstreamID route))"

text \<open>One turn of the loop over the routes.\<close>

definition add_route :: "'x ext_api \<Rightarrow> 'x net_api \<Rightarrow> 'x Registry \<Rightarrow> bool \<Rightarrow> bool \<Rightarrow> (string, 'x handler) gomap \<Rightarrow>
    Route \<Rightarrow> 'x routeTable \<times> 'x world \<Rightarrow> 'x routeTable \<times> 'x world" where
  "add_route ex na reg checker tracker upstreams route tw =
     (case tw of (table, w) \<Rightarrow>
        if \<not> r_Active route then (table, w)
        else case route_upstream ex checker upstreams route of
               None \<Rightarrow> (table, w)
             | Some upH \<Rightarrow>
                 let (h, w1) = buildRouteHandler reg tracker route upH w;
                     e = \<lparr> e_route = route, e_handler = h, e_re = None \<rparr>;
                     mode = m_PathMode (r_Match route)
                 in if mode = PathModeRegex
                    then (case na_Compile na (m_Path (r_Match route)) of
                            None \<Rightarrow> (table, w1)
                          | Some f \<Rightarrow> (table\<lparr> regexEntries := regexEntries table @ [e\<lparr> e_re := Some f \<rparr>] \<rparr>, w1))
                    else if mode = PathModeExact then (table\<lparr> exactEntries := exactEntries table @ [e] \<rparr>, w1)
                    else (table\<lparr> prefixEntries := prefixEntries table @ [e] \<rparr>, w1))"

definition empty_table :: "'x routeTable" where
  "empty_table = \<lparr> exactEntries = [], prefixEntries = [], regexEntries = [] \<rparr>"

definition reload :: "'x ext_api \<Rightarrow> 'x net_api \<Rightarrow> 'x Registry \<Rightarrow> bool \<Rightarrow> bool \<Rightarrow> 'x world \<Rightarrow> 'x routeTable \<times> 'x world" where
  "reload ex na reg checker tracker w =
     (let (upstreams, w1) = buildUpstreamMap ex na checker w;
          (table, w2) = fold (add_route ex na reg checker tracker upstreams) (ListRoutes (ex_orders ex) (w_store w1)) (empty_table, w1)
      in (table\<lparr> prefixEntries := na_sort na (prefixEntries table) \<rparr>, w2))"


text \<open>
  \<open>router.New\<close>: the first reload, and \<open>reload\<close> registered with the store as its listener number \<open>fn\<close>. A
  later change of the store runs \<open>reload\<close> again and replaces the table.
\<close>

definition router_New :: "'x ext_api \<Rightarrow> 'x net_api \<Rightarrow> 'x Registry \<Rightarrow> bool \<Rightarrow> bool \<Rightarrow> nat \<Rightarrow> 'x world \<Rightarrow> 'x routeTable \<times> 'x world" where
  "router_New ex na reg checker tracker fn w =
     (let (table, w1) = reload ex na reg checker tracker w in (table, w1\<lparr> w_store := OnChange fn (w_store w1) \<rparr>))"

end
