(* ===== verification/Plugins_Correct.thy ===== *)
theory Plugins_Correct
  imports Plugins
begin

text \<open>
  Properties of the plugins. The locale \<open>gate\<close> is the contract of a plugin that decides on a request: it
  answers itself, or it calls the next handler exactly once and returns what that returns. A chain of gates
  is a gate, so what one of them refuses no handler behind it ever sees.
\<close>

section \<open>Chains\<close>

lemma Chain_Nil [simp]: "Chain h [] = h"
  by (simp add: Chain_def)

lemma Chain_Cons [simp]: "Chain h (p # ps) = pl_Handler p (Chain h ps)"
  by (simp add: Chain_def)

lemma Chain_append: "Chain h (ps @ qs) = Chain (Chain h qs) ps"
  by (simp add: Chain_def)

lemma plugin_New_handler [simp]: "pl_Handler (plugin_New name fn) = fn"
  by (simp add: plugin_New_def)

section \<open>What the writers leave alone\<close>

lemma WriteHeader_fields [simp]:
  "w_now (WriteHeader c w) = w_now w" "w_panic (WriteHeader c w) = w_panic w" "w_store (WriteHeader c w) = w_store w"
  "w_breakers (WriteHeader c w) = w_breakers w" "w_balancers (WriteHeader c w) = w_balancers w"
  "w_prom (WriteHeader c w) = w_prom w" "w_health (WriteHeader c w) = w_health w" "w_tracker (WriteHeader c w) = w_tracker w"
  "w_spans (WriteHeader c w) = w_spans w" "w_draws (WriteHeader c w) = w_draws w" "w_ext (WriteHeader c w) = w_ext w"
  by (simp_all add: WriteHeader_def split: prod.split)

lemma Write_body_fields [simp]:
  "w_now (Write_body b w) = w_now w" "w_panic (Write_body b w) = w_panic w" "w_store (Write_body b w) = w_store w"
  "w_breakers (Write_body b w) = w_breakers w" "w_balancers (Write_body b w) = w_balancers w"
  "w_prom (Write_body b w) = w_prom w" "w_health (Write_body b w) = w_health w" "w_tracker (Write_body b w) = w_tracker w"
  "w_spans (Write_body b w) = w_spans w" "w_draws (Write_body b w) = w_draws w" "w_ext (Write_body b w) = w_ext w"
  by (simp_all add: Write_body_def split: prod.split)

lemma set_header_fields [simp]:
  "w_now (set_header k v w) = w_now w" "w_panic (set_header k v w) = w_panic w" "w_store (set_header k v w) = w_store w"
  "w_breakers (set_header k v w) = w_breakers w" "w_balancers (set_header k v w) = w_balancers w"
  "w_prom (set_header k v w) = w_prom w" "w_health (set_header k v w) = w_health w" "w_tracker (set_header k v w) = w_tracker w"
  "w_spans (set_header k v w) = w_spans w" "w_draws (set_header k v w) = w_draws w" "w_ext (set_header k v w) = w_ext w"
  "w_layers (set_header k v w) = w_layers w"
  by (simp_all add: set_header_def)

lemma WriteJSON_fields [simp]:
  "w_now (WriteJSON s b w) = w_now w" "w_panic (WriteJSON s b w) = w_panic w" "w_store (WriteJSON s b w) = w_store w"
  "w_breakers (WriteJSON s b w) = w_breakers w" "w_balancers (WriteJSON s b w) = w_balancers w"
  "w_prom (WriteJSON s b w) = w_prom w" "w_health (WriteJSON s b w) = w_health w" "w_tracker (WriteJSON s b w) = w_tracker w"
  "w_spans (WriteJSON s b w) = w_spans w" "w_draws (WriteJSON s b w) = w_draws w" "w_ext (WriteJSON s b w) = w_ext w"
  by (simp_all add: WriteJSON_def)

lemma push_layer_fields [simp]:
  "w_now (push_layer l w) = w_now w" "w_panic (push_layer l w) = w_panic w" "w_store (push_layer l w) = w_store w"
  "w_breakers (push_layer l w) = w_breakers w" "w_balancers (push_layer l w) = w_balancers w"
  "w_prom (push_layer l w) = w_prom w" "w_health (push_layer l w) = w_health w" "w_tracker (push_layer l w) = w_tracker w"
  "w_spans (push_layer l w) = w_spans w" "w_draws (push_layer l w) = w_draws w" "w_ext (push_layer l w) = w_ext w"
  "w_layers (push_layer l w) = l # w_layers w" "w_resp (push_layer l w) = w_resp w"
  by (simp_all add: push_layer_def)

lemma pop_layer_fields [simp]:
  "w_now (pop_layer w) = w_now w" "w_panic (pop_layer w) = w_panic w" "w_store (pop_layer w) = w_store w"
  "w_breakers (pop_layer w) = w_breakers w" "w_balancers (pop_layer w) = w_balancers w"
  "w_prom (pop_layer w) = w_prom w" "w_health (pop_layer w) = w_health w" "w_tracker (pop_layer w) = w_tracker w"
  "w_spans (pop_layer w) = w_spans w" "w_draws (pop_layer w) = w_draws w" "w_ext (pop_layer w) = w_ext w"
  "w_layers (pop_layer w) = tl (w_layers w)" "w_resp (pop_layer w) = w_resp w"
  by (simp_all add: pop_layer_def)

section \<open>Gates\<close>

locale gate =
  fixes H :: "'x handler \<Rightarrow> 'x handler"
  assumes gate_cases: "(\<exists>res. \<forall>next. H next r w = res) \<or> (\<exists>r' w'. \<forall>next. H next r w = next r' w')"
begin

lemma gate_refuses_or_passes:
  obtains (refuses) res where "\<And>next. H next r w = res"
  | (passes_on) r' w' where "\<And>next. H next r w = next r' w'"
  using gate_cases [of r w] by blast

text \<open>A handler in front of which the gate stands matters only for requests that pass.\<close>

lemma gate_before:
  assumes "\<And>r' w'. (\<And>next. H next r w = next r' w') \<Longrightarrow> f r' w' = g r' w'"
  shows "H f r w = H g r w"
  using assms by (cases rule: gate_refuses_or_passes [of r w]) metis+

end

lemma gate_identity: "gate (\<lambda>next. next)"
  by unfold_locales blast

lemma gate_compose:
  assumes "gate A" and "gate B"
  shows "gate (\<lambda>next. A (B next))"
proof
  fix r w
  show "(\<exists>res. \<forall>next. A (B next) r w = res) \<or> (\<exists>r' w'. \<forall>next. A (B next) r w = next r' w')"
    using gate.gate_cases [OF assms(1), of r w] gate.gate_cases [OF assms(2)] by metis
qed

lemma gate_Chain: "(\<And>p. p \<in> set ps \<Longrightarrow> gate (pl_Handler p)) \<Longrightarrow> gate (\<lambda>next. Chain next ps)"
  by (induction ps) (auto simp: gate_identity intro: gate_compose)

interpretation correlation: gate "pl_Handler (CorrelationID ex)" for ex :: "'x ext_api"
  by unfold_locales (auto simp: CorrelationID_def Let_def)

interpretation sechdr: gate "pl_Handler SecurityHeaders"
  by unfold_locales (auto simp: SecurityHeaders_def)

interpretation reqsec: gate "pl_Handler RequestSecurity"
proof
  fix r :: request and w :: "'a world"
  show "(\<exists>res. \<forall>next. pl_Handler RequestSecurity next r w = res) \<or>
    (\<exists>r' w'. \<forall>next. pl_Handler RequestSecurity next r w = next r' w')"
    by (cases "filter_request (rq_Method r) (rq_Path r) (rq_RawQuery r)") (auto simp: RequestSecurity_def reply_def)
qed

interpretation cors: gate "pl_Handler (CORS origins)" for origins
proof
  fix r :: request and w :: "'a world"
  show "(\<exists>res. \<forall>next. pl_Handler (CORS origins) next r w = res) \<or>
    (\<exists>r' w'. \<forall>next. pl_Handler (CORS origins) next r w = next r' w')"
    by (cases "header_Get (rq_Header r) ''Origin'' = []"; cases "header_Get (rq_Header r) ''Origin'' \<in> TrimSpace ` set origins"; cases "rq_Method r = ''OPTIONS''") (auto simp: CORS_def reply_def Let_def)
qed

interpretation ippolicy: gate "pl_Handler (IPPolicyEnforcer ex)" for ex :: "'x ext_api"
proof
  fix r :: request and w :: "'x world"
  show "(\<exists>res. \<forall>next. pl_Handler (IPPolicyEnforcer ex) next r w = res) \<or>
    (\<exists>r' w'. \<forall>next. pl_Handler (IPPolicyEnforcer ex) next r w = next r' w')"
    by (cases "List.map_filter (policy_blocks (ParseIP (ClientIP r))) (ListIPPolicies (ex_orders ex) (w_store w))") (auto simp: IPPolicyEnforcer_def reply_def Let_def)
qed

text \<open>The token that \<open>JWT\<close> looks at.\<close>

definition jwt_token :: "request \<Rightarrow> string" where
  "jwt_token r =
     (let bearer = extractBearer (header_Get (rq_Header r) ''Authorization'')
      in if bearer = [] then (case Cookie r ''access_token'' of None \<Rightarrow> [] | Some v \<Rightarrow> v) else bearer)"

lemma JWT_eq:
  "pl_Handler (JWT jl secret paths) next r w =
     (if rq_Method r = ''OPTIONS'' \<or> isPublic (rq_Path r) paths then next r w
      else if jwt_token r = [] then reply r (WriteJSON 401 (json_obj [(''error'', ''missing_token'')]) w)
      else case Validator_Parse jl secret (w_now w) (jwt_token r) of
             Inl _ \<Rightarrow> reply r (WriteJSON 401 (json_obj [(''error'', ''invalid_token'')]) w)
           | Inr claims \<Rightarrow> next (StoreClaimsInContext claims
               (if header_Get (rq_Header r) ''Authorization'' = []
                then r\<lparr> rq_Header := header_Set ''Authorization'' (''Bearer '' @ jwt_token r) (rq_Header r) \<rparr> else r)) w)"
  unfolding JWT_def plugin_New_handler jwt_token_def Let_def by (rule refl)

interpretation jwt: gate "pl_Handler (JWT jl secret paths)" for jl secret paths
proof
  fix r :: request and w :: "'a world"
  show "(\<exists>res. \<forall>next. pl_Handler (JWT jl secret paths) next r w = res) \<or>
    (\<exists>r' w'. \<forall>next. pl_Handler (JWT jl secret paths) next r w = next r' w')"
    by (cases "rq_Method r = ''OPTIONS'' \<or> isPublic (rq_Path r) paths"; cases "jwt_token r = []"; cases "Validator_Parse jl secret (w_now w) (jwt_token r)") (auto simp: JWT_eq reply_def)
qed

interpretation apikey: gate "pl_Handler (APIKeyAuth Sum256 hn)" for Sum256 hn
proof
  fix r :: request and w :: "'a world"
  show "(\<exists>res. \<forall>next. pl_Handler (APIKeyAuth Sum256 hn) next r w = res) \<or>
    (\<exists>r' w'. \<forall>next. pl_Handler (APIKeyAuth Sum256 hn) next r w = next r' w')"
    by (cases "header_Get (rq_Header r) (if hn = [] then ''X-API-Key'' else hn) = []"; cases "ValidateAPIKey Sum256 (header_Get (rq_Header r) (if hn = [] then ''X-API-Key'' else hn)) (w_store w)") (auto simp: APIKeyAuth_def reply_def Let_def)
qed

interpretation iplimit: gate "pl_Handler (IPRateLimit ex l bypass)" for ex :: "'x ext_api" and l bypass
proof
  fix r :: request and w :: "'x world"
  show "(\<exists>res. \<forall>next. pl_Handler (IPRateLimit ex l bypass) next r w = res) \<or>
    (\<exists>r' w'. \<forall>next. pl_Handler (IPRateLimit ex l bypass) next r w = next r' w')"
    by (cases "rq_Method r = ''OPTIONS'' \<or> isPublic (rq_Path r) bypass"; cases "limiter_ask ex (\<lambda>api e. AllowIP api e l (ClientIP r)) w"; cases "fst (limiter_ask ex (\<lambda>api e. AllowIP api e l (ClientIP r)) w)") (auto simp: IPRateLimit_def reply_def Let_def)
qed

interpretation authlimit: gate "pl_Handler (AuthRateLimit ex l)" for ex :: "'x ext_api" and l
proof
  fix r :: request and w :: "'x world"
  show "(\<exists>res. \<forall>next. pl_Handler (AuthRateLimit ex l) next r w = res) \<or>
    (\<exists>r' w'. \<forall>next. pl_Handler (AuthRateLimit ex l) next r w = next r' w')"
    by (cases "rq_Method r = ''POST'' \<and> rq_Path r = ''/api/auth/login''"; cases "limiter_ask ex (\<lambda>api e. AllowAuth api e l (ClientIP r)) w"; cases "fst (limiter_ask ex (\<lambda>api e. AllowAuth api e l (ClientIP r)) w)") (auto simp: AuthRateLimit_def reply_def Let_def)
qed

interpretation userlimit: gate "pl_Handler (UserRateLimit ex l)" for ex :: "'x ext_api" and l
proof
  fix r :: request and w :: "'x world"
  show "(\<exists>res. \<forall>next. pl_Handler (UserRateLimit ex l) next r w = res) \<or>
    (\<exists>r' w'. \<forall>next. pl_Handler (UserRateLimit ex l) next r w = next r' w')"
    by (cases "ClaimsFrom r"; cases "limiter_ask ex (\<lambda>api e. AllowUser api e l (UserID (the (ClaimsFrom r)))) w"; cases "fst (limiter_ask ex (\<lambda>api e. AllowUser api e l (UserID (the (ClaimsFrom r)))) w)") (auto simp: UserRateLimit_def reply_def Let_def)
qed

interpretation routelimit: gate "pl_Handler (RouteRateLimit ex i)" for ex :: "'x ext_api" and i
proof
  fix r :: request and w :: "'x world"
  show "(\<exists>res. \<forall>next. pl_Handler (RouteRateLimit ex i) next r w = res) \<or>
    (\<exists>r' w'. \<forall>next. pl_Handler (RouteRateLimit ex i) next r w = next r' w')"
    by (cases "getLimiter ex i (ClientIP r) w"; cases "ex_Allow ex (fst (getLimiter ex i (ClientIP r) w)) (w_now (snd (getLimiter ex i (ClientIP r) w))) (w_ext (snd (getLimiter ex i (ClientIP r) w)))"; cases "fst (ex_Allow ex (fst (getLimiter ex i (ClientIP r) w)) (w_now (snd (getLimiter ex i (ClientIP r) w))) (w_ext (snd (getLimiter ex i (ClientIP r) w))))") (auto simp: RouteRateLimit_def reply_def Let_def)
qed

section \<open>Authentication\<close>

lemma Validator_Parse_ok:
  assumes "Validator_Parse jl secret now tok = Inr c"
  shows "jl_decode jl tok = Some (True, c) \<and> jl_verify jl secret tok \<and> jl_registered jl now c \<and>
    (\<forall>t. cl_ExpiresAt c = Some t \<longrightarrow> now \<le> t)"
  using assms by (auto simp: Validator_Parse_def split: option.splits if_splits)

text \<open>
  C13. Outside the public paths and for every method but OPTIONS, the JWT plugin lets a request through only
  with a token, from the bearer header or else from the cookie, that decodes to an HMAC-signed token, whose
  signature verifies under the gateway's secret and whose claims are valid and not expired; the next handler
  gets exactly these claims. Every other request is answered with 401 and goes no further.
\<close>
theorem jwt_admits_only_valid_tokens:
  assumes "rq_Method r \<noteq> ''OPTIONS''" and "\<not> isPublic (rq_Path r) paths"
  shows "(\<exists>body. \<forall>next. pl_Handler (JWT jl secret paths) next r w = (rq_Header r, WriteJSON 401 body w)) \<or>
    (\<exists>c r'. (\<forall>next. pl_Handler (JWT jl secret paths) next r w = next r' w) \<and> ClaimsFrom r' = Some c \<and>
      rq_Path r' = rq_Path r \<and> jl_decode jl (jwt_token r) = Some (True, c) \<and> jl_verify jl secret (jwt_token r) \<and>
      jl_registered jl (w_now w) c \<and> (\<forall>t. cl_ExpiresAt c = Some t \<longrightarrow> w_now w \<le> t))"
proof (cases "jwt_token r = []")
  case True
  then show ?thesis using assms by (auto simp: JWT_eq reply_def)
next
  case False
  show ?thesis
  proof (cases "Validator_Parse jl secret (w_now w) (jwt_token r)")
    case (Inl e)
    then show ?thesis using assms False by (auto simp: JWT_eq reply_def)
  next
    case (Inr c)
    then show ?thesis
      using assms False Validator_Parse_ok [OF Inr]
      by (intro disjI2 exI [of _ c]) (auto simp: JWT_eq StoreClaimsInContext_def ClaimsFrom_def)
  qed
qed

section \<open>IP policies\<close>

lemma map_filter_Nil: "List.map_filter f xs = [] \<longleftrightarrow> (\<forall>x \<in> set xs. f x = None)"
  by (induction xs) (auto simp: List.map_filter_simps split: option.split)

lemma map_filter_head: "List.map_filter f xs = y # ys \<Longrightarrow> \<exists>x \<in> set xs. f x = Some y"
  by (induction xs) (auto simp: List.map_filter_simps split: option.splits)

text \<open>
  C22. The IP policies admit a request exactly when no active policy objects: every active allow policy
  contains the client address and no active deny policy does. The order in which the store lists the
  policies does not matter for the decision, and a blocked request is answered with 403 and goes no further.
\<close>
theorem ip_policy_decision:
  fixes r :: request
  assumes "fair_orders (ex_orders ex)" and "gm_wf (st_policies (w_store w))"
  defines "ip \<equiv> ParseIP (ClientIP r)"
  defines "ok \<equiv> \<forall>k p. map_of (st_policies (w_store w)) k = Some p \<and> ip_Active p \<longrightarrow>
     (ip_Mode p = ''allow'' \<longrightarrow> cidrContains (ip_CIDRs p) ip) \<and> (ip_Mode p = ''deny'' \<longrightarrow> \<not> cidrContains (ip_CIDRs p) ip)"
  shows "(ok \<longrightarrow> (\<forall>next. pl_Handler (IPPolicyEnforcer ex) next r w = next r w)) \<and>
    (\<not> ok \<longrightarrow> (\<exists>body. \<forall>next. pl_Handler (IPPolicyEnforcer ex) next r w = (rq_Header r, WriteJSON 403 body w)))"
proof -
  let ?ps = "ListIPPolicies (ex_orders ex) (w_store w)"
  have mem: "p \<in> set ?ps \<longleftrightarrow> (\<exists>k. map_of (st_policies (w_store w)) k = Some p)" for p
    using assms(1,2) by (force simp: ListIPPolicies_def fair_orders_def image_iff gm_mem_iff [symmetric])
  have "policy_blocks ip p = None \<longleftrightarrow> (ip_Active p \<longrightarrow> (ip_Mode p = ''allow'' \<longrightarrow> cidrContains (ip_CIDRs p) ip) \<and>
      (ip_Mode p = ''deny'' \<longrightarrow> \<not> cidrContains (ip_CIDRs p) ip))" for p
    by (auto simp: policy_blocks_def Let_def)
  then have "ok \<longleftrightarrow> List.map_filter (policy_blocks ip) ?ps = []"
    unfolding map_filter_Nil ok_def using mem by blast
  then show ?thesis
    by (cases "List.map_filter (policy_blocks ip) ?ps") (auto simp: IPPolicyEnforcer_def ip_def reply_def Let_def)
qed

section \<open>Header rewriting\<close>

lemma header_Get_Set: "header_Get (header_Set k v h) k' = (if CanonicalKey k = CanonicalKey k' then v else header_Get h k')"
  by (simp add: header_Get_def header_Set_def)

lemma header_Get_Del: "header_Get (header_Del k h) k' = (if CanonicalKey k = CanonicalKey k' then '''' else header_Get h k')"
  by (simp add: header_Get_def header_Del_def)

lemma header_Get_del_headers:
  "header_Get (del_headers ks h) k = (if CanonicalKey k \<in> CanonicalKey ` set ks then '''' else header_Get h k)"
  unfolding del_headers_def by (induction ks arbitrary: h) (auto simp: header_Get_Del)

lemma header_Get_set_headers:
  "distinct (map (CanonicalKey \<circ> fst) kvs) \<Longrightarrow> header_Get (set_headers kvs h) k =
     (case map_of (map (\<lambda>(k, v). (CanonicalKey k, v)) kvs) (CanonicalKey k) of Some v \<Rightarrow> v | None \<Rightarrow> header_Get h k)"
proof (induction kvs arbitrary: h)
  case (Cons kv kvs)
  obtain k1 v1 where kv: "kv = (k1, v1)" by force
  have "CanonicalKey k1 \<notin> dom (map_of (map (\<lambda>(k, v). (CanonicalKey k, v)) kvs))"
    using Cons.prems by (auto simp: kv dom_map_of_conv_image_fst image_iff)
  then show ?case
    using Cons.IH [of "header_Set k1 v1 h"] Cons.prems
    by (auto simp: kv set_headers_def header_Get_Set domIff split: option.split)
qed (simp add: set_headers_def)

text \<open>A stack of recorders hands a status on unchanged.\<close>

fun is_recorder :: "layer \<Rightarrow> bool" where
  "is_recorder (Transformer _ _) = False"
| "is_recorder _ = True"

lemma layers_WriteHeader_recorders:
  "list_all is_recorder ls \<Longrightarrow> snd (layers_WriteHeader code ls p) = base_WriteHeader code p"
  by (induction code ls p rule: layers_WriteHeader.induct) (auto simp: Let_def split: prod.split)

text \<open>
  A response that passes a transform plugin is sent with its configured header changes: every removed
  header is gone, every set header that is not also removed has its configured value, and all other headers
  are as the handler left them. The changes are made once, when the status is sent, whatever recorders are
  wrapped around the writer.
\<close>
theorem transform_rewrites_sent_headers:
  assumes "list_all is_recorder ls" and "resp_status p = None" and "200 \<le> code"
    and "distinct (map (CanonicalKey \<circ> fst) (tc_SetResponseHeaders cfg))"
  defines "sent \<equiv> resp_sent (snd (layers_WriteHeader code (Transformer cfg False # ls) p))"
  defines "set_to \<equiv> map_of (map (\<lambda>(k, v). (CanonicalKey k, v)) (tc_SetResponseHeaders cfg))"
  shows "resp_status (snd (layers_WriteHeader code (Transformer cfg False # ls) p)) = Some code \<and>
    (\<forall>k. header_Get sent k =
      (if CanonicalKey k \<in> CanonicalKey ` set (tc_RemoveResponseHeaders cfg) then ''''
       else case set_to (CanonicalKey k) of Some v \<Rightarrow> v | None \<Rightarrow> header_Get (resp_header p) k))"
proof -
  let ?p1 = "p\<lparr> resp_header := del_headers (tc_RemoveResponseHeaders cfg) (set_headers (tc_SetResponseHeaders cfg) (resp_header p)) \<rparr>"
  have "snd (layers_WriteHeader code (Transformer cfg False # ls) p) = base_WriteHeader code ?p1"
    using layers_WriteHeader_recorders [OF assms(1)] by (simp add: Let_def split: prod.split) (metis snd_conv)
  then show ?thesis
    using assms(2-4)
    by (simp add: sent_def set_to_def base_WriteHeader_def header_Get_del_headers header_Get_set_headers split: option.split)
qed

section \<open>The circuit breaker plugin\<close>


section \<open>Metrics\<close>

text \<open>
  The metrics plugin keeps its gauge of requests in flight only for handlers that return: a handler
  that neither panics nor touches the gauge leaves it as it was, with one more request counted under the
  recorded status; after a handler that panics the gauge stays one too high and nothing is counted.
\<close>
theorem active_gauge_leaks_on_panic:
  fixes r :: request and w :: "'x world"
  assumes "\<And>r v. w_prom (snd (next r v)) = w_prom v"
  defines "w' \<equiv> snd (pl_Handler HTTPMetrics next r w)"
  shows "(w_panic w' = None \<longrightarrow> pm_active (w_prom w') = pm_active (w_prom w) \<and>
      size (pm_requests (w_prom w')) = Suc (size (pm_requests (w_prom w)))) \<and>
    (w_panic w' \<noteq> None \<longrightarrow> pm_active (w_prom w') = pm_active (w_prom w) + 1 \<and>
      pm_requests (w_prom w') = pm_requests (w_prom w))"
proof -
  let ?w1 = "push_layer (Recorder 200 0) (w\<lparr> w_prom := (w_prom w)\<lparr> pm_active := pm_active (w_prom w) + 1 \<rparr> \<rparr>)"
  obtain h w2 where n: "next r ?w1 = (h, w2)" by force
  then have "w_prom w2 = (w_prom w)\<lparr> pm_active := pm_active (w_prom w) + 1 \<rparr>" using assms(1) [of r ?w1] by simp
  then show ?thesis
    by (cases "w_panic w2") (simp_all add: w'_def HTTPMetrics_def with_recorder_def call_def n Let_def split: prod.split)
qed

section \<open>The properties at work\<close>

text \<open>A world with nothing in it, and a handler that answers with a status.\<close>

definition blank_response :: response where
  "blank_response = \<lparr> resp_header = [], resp_status = None, resp_sent = [], resp_body = '''' \<rparr>"

definition blank_world :: "unit world" where
  "blank_world = \<lparr> w_now = 100, w_layers = [], w_resp = blank_response, w_panic = None,
     w_store = empty_store '''' Map.empty, w_health = [], w_tracker = [], w_breakers = [new_breaker DefaultCircuitBreakerConfig],
     w_balancers = [], w_limits = [], w_prom = \<lparr> pm_active = 0, pm_requests = {#}, pm_durations = [], pm_rejects = {#} \<rparr>,
     w_log = [], w_spans = [], w_draws = 0, w_ext = () \<rparr>"

definition answer :: "int \<Rightarrow> 'x handler" where
  "answer code r w = reply r (WriteHeader code w)"

definition blank_request :: request where
  "blank_request = \<lparr> rq_Method = ''GET'', rq_Scheme = '''', rq_URLHost = '''', rq_Path = ''/private'', rq_RawPath = '''',
     rq_RawQuery = '''', rq_Host = ''h'', rq_Header = [(''Authorization'', [''Bearer t''])], rq_RemoteAddr = ''10.0.0.9:5'',
     rq_TLS = False, rq_Claims = None \<rparr>"

definition some_claims :: Claims where
  "some_claims = \<lparr> cl_Subject = ''u'', cl_UUID = '''', cl_Email = '''', cl_Role = ''admin'', cl_ExpiresAt = Some 200 \<rparr>"

definition some_jwt :: jwt_lib where
  "some_jwt = \<lparr> jl_decode = (\<lambda>t. if t = ''t'' then Some (True, some_claims) else None), jl_verify = (\<lambda>s t. s = ''key''),
     jl_registered = (\<lambda>_ _. True) \<rparr>"

theorem jwt_admits_only_valid_tokens_witness:
  "(\<exists>body. \<forall>next. pl_Handler (JWT some_jwt ''key'' [''/health'']) next blank_request blank_world =
      (rq_Header blank_request, WriteJSON 401 body blank_world)) \<or>
   (\<exists>r'. \<forall>next. pl_Handler (JWT some_jwt ''key'' [''/health'']) next blank_request blank_world = next r' blank_world)"
proof -
  have "rq_Method blank_request \<noteq> ''OPTIONS''" "\<not> isPublic (rq_Path blank_request) [''/health'']"
    by (simp_all add: blank_request_def isPublic_def HasSuffix_def)
  from jwt_admits_only_valid_tokens [OF this, of some_jwt "''key''" blank_world] show ?thesis by blast
qed

definition some_ext :: "unit ext_api" where
  "some_ext = \<lparr> ex_redis = \<lparr> rd_at = \<lambda>_ r. r, rd_HMGET = \<lambda>_ _. (None, None), rd_HMSET = \<lambda>_ _ _ r. r,
       rd_ZREMRANGEBYSCORE = \<lambda>_ _ r. r, rd_ZCARD = \<lambda>_ _. 0, rd_ZADD = \<lambda>_ _ _ r. r, rd_PEXPIRE = \<lambda>_ _ _ r. r,
       rd_zset = \<lambda>_ _. Map.empty, rd_deadline = \<lambda>_ _. None \<rparr>,
     ex_NewLimiter = \<lambda>_ _ x. (0, x), ex_Allow = \<lambda>_ _ x. (True, x), ex_IntN = \<lambda>_ _. 0, ex_uuid = \<lambda>_. ''id'',
     ex_check = \<lambda>_. \<lparr> ce_now_tb = 0, ce_now_sw = 0, ce_reqID = '''', ce_tb = Run_fails, ce_sw = Run_fails \<rparr>,
     ex_orders = reversed_orders \<rparr>"

theorem ip_policy_decision_witness:
  "pl_Handler (IPPolicyEnforcer some_ext) (answer 200) blank_request blank_world = answer 200 blank_request blank_world"
proof -
  have "fair_orders (ex_orders some_ext)" by (simp add: some_ext_def reversed_orders_def fair_orders_def range_order_rev)
  moreover have "gm_wf (st_policies (w_store blank_world))" "map_of (st_policies (w_store blank_world)) k = None" for k
    by (simp_all add: blank_world_def empty_store_def)
  ultimately show ?thesis using ip_policy_decision [of some_ext blank_world blank_request] by simp
qed

theorem transform_rewrites_sent_headers_witness:
  "header_Get (resp_sent (snd (layers_WriteHeader 200 [Transformer \<lparr> tc_SetRequestHeaders = [], tc_RemoveRequestHeaders = [],
     tc_SetResponseHeaders = [(''X-A'', ''1'')], tc_RemoveResponseHeaders = [''Server''], tc_URLRewrite = None \<rparr> False] blank_response))) ''X-A'' = ''1''"
proof -
  let ?cfg = "\<lparr> tc_SetRequestHeaders = [], tc_RemoveRequestHeaders = [],
     tc_SetResponseHeaders = [(''X-A'', ''1'')], tc_RemoveResponseHeaders = [''Server''], tc_URLRewrite = None \<rparr>"
  have "CanonicalKey ''X-A'' \<noteq> CanonicalKey ''Server''" by code_simp
  then show ?thesis
    using transform_rewrites_sent_headers [of "[]" blank_response 200 ?cfg] by (simp add: blank_response_def)
qed


theorem active_gauge_leaks_on_panic_witness:
  "pm_active (w_prom (snd (pl_Handler HTTPMetrics (\<lambda>r w. (rq_Header r, w\<lparr> w_panic := Some InvalidArgument \<rparr>)) blank_request blank_world))) = 1"
proof -
  let ?n = "\<lambda>r w. (rq_Header r, w\<lparr> w_panic := Some InvalidArgument \<rparr>)"
  have "w_panic (snd (pl_Handler HTTPMetrics ?n blank_request blank_world)) \<noteq> None"
    by (simp add: HTTPMetrics_def with_recorder_def call_def)
  then show ?thesis
    using active_gauge_leaks_on_panic [of ?n blank_request blank_world] by (simp add: blank_world_def)
qed

end
