(* ===== verification/Router_Correct.thy ===== *)
theory Router_Correct
  imports Router Plugins_Correct
begin

text \<open>
  Correctness of the router: a reload makes the table from the active routes whose upstream could be built,
  and a request is served by the best match among them (an exact path before a prefix, a longer prefix before
  a shorter one, a prefix before a regular expression); the traffic split is exact; connections of the
  least-connections balancer are always given back; and what the upstream is told about the client.
\<close>

section \<open>What a table should do\<close>

text \<open>The routes a reload puts into the table, and when a route matches a request.\<close>

definition route_served :: "'x ext_api \<Rightarrow> 'x net_api \<Rightarrow> bool \<Rightarrow> (string, 'x handler) gomap \<Rightarrow> Route \<Rightarrow> bool" where
  "route_served ex na checker ups route \<longleftrightarrow> r_Active route \<and> route_upstream ex checker ups route \<noteq> None \<and>
     (m_PathMode (r_Match route) = PathModeRegex \<longrightarrow> na_Compile na (m_Path (r_Match route)) \<noteq> None)"

definition route_matches :: "'x net_api \<Rightarrow> Route \<Rightarrow> request \<Rightarrow> bool" where
  "route_matches na route req \<longleftrightarrow>
     (let m = r_Match route
      in matchHosts (m_Hosts m) (stripPort (rq_Host req)) \<and> matchMethod (m_Methods m) (rq_Method req) \<and> matchHeaders (m_Headers m) req \<and>
         ((m_PathMode m = PathModeExact \<and> rq_Path req = m_Path m) \<or>
          (m_PathMode m = PathModePrefix \<and> HasPrefix (rq_Path req) (m_Path m)) \<or>
          (m_PathMode m = PathModeRegex \<and> (\<exists>f. na_Compile na (m_Path m) = Some f \<and> f (rq_Path req)))))"

definition mode_rank :: "Route \<Rightarrow> nat" where
  "mode_rank route = (let m = m_PathMode (r_Match route)
     in if m = PathModeExact then 2 else if m = PathModeRegex then 0 else 1)"

text \<open>\<open>a\<close> is served no earlier than \<open>b\<close>: its mode ranks lower, or both are prefixes and its path is not longer.\<close>

definition outranked :: "Route \<Rightarrow> Route \<Rightarrow> bool" where
  "outranked a b \<longleftrightarrow> mode_rank a < mode_rank b \<or>
     (mode_rank a = mode_rank b \<and> (mode_rank b = 1 \<longrightarrow> length (m_Path (r_Match a)) \<le> length (m_Path (r_Match b))))"

definition sort_ok :: "'x net_api \<Rightarrow> bool" where
  "sort_ok na \<longleftrightarrow> (\<forall>es. mset (na_sort na es) = mset es \<and>
     sorted_wrt (\<lambda>a b. length (m_Path (r_Match (e_route b))) \<le> length (m_Path (r_Match (e_route a)))) (na_sort na es))"

section \<open>The contents of the table\<close>

lemma PathMode_distinct [simp]:
  "PathModeExact \<noteq> PathModePrefix" "PathModePrefix \<noteq> PathModeExact" "PathModeExact \<noteq> PathModeRegex"
  "PathModeRegex \<noteq> PathModeExact" "PathModePrefix \<noteq> PathModeRegex" "PathModeRegex \<noteq> PathModePrefix"
  by (simp_all add: PathModeExact_def PathModePrefix_def PathModeRegex_def)

text \<open>What is true of the entries of a table while it is built from a list of routes.\<close>

definition entries_ok :: "'x net_api \<Rightarrow> 'x entry list \<Rightarrow> bool" where
  "entries_ok na es \<longleftrightarrow> (\<forall>e \<in> set es. e_re e =
     (if m_PathMode (r_Match (e_route e)) = PathModeRegex then na_Compile na (m_Path (r_Match (e_route e))) else None))"

definition table_of :: "'x net_api \<Rightarrow> (Route \<Rightarrow> bool) \<Rightarrow> Route list \<Rightarrow> 'x routeTable \<Rightarrow> bool" where
  "table_of na served rs t \<longleftrightarrow>
     set (map e_route (exactEntries t)) = {r \<in> set rs. served r \<and> mode_rank r = 2} \<and>
     set (map e_route (prefixEntries t)) = {r \<in> set rs. served r \<and> mode_rank r = 1} \<and>
     set (map e_route (regexEntries t)) = {r \<in> set rs. served r \<and> mode_rank r = 0} \<and>
     entries_ok na (exactEntries t) \<and> entries_ok na (prefixEntries t) \<and> entries_ok na (regexEntries t)"

lemma mode_rank_cases:
  "mode_rank r = 2 \<longleftrightarrow> m_PathMode (r_Match r) = PathModeExact"
  "mode_rank r = 0 \<longleftrightarrow> m_PathMode (r_Match r) = PathModeRegex"
  "mode_rank r = 1 \<longleftrightarrow> m_PathMode (r_Match r) \<noteq> PathModeExact \<and> m_PathMode (r_Match r) \<noteq> PathModeRegex"
  by (auto simp: mode_rank_def Let_def)

lemma mode_rank_le: "mode_rank r = 0 \<or> mode_rank r = 1 \<or> mode_rank r = 2"
  by (simp add: mode_rank_def Let_def)

text \<open>What a route does to the table: nothing, or one more entry in the list of its mode.\<close>

lemma add_route_unserved:
  "\<not> route_served ex na checker ups route \<Longrightarrow> fst (add_route ex na reg checker tracker ups route (t, w)) = t"
  by (auto simp: add_route_def route_served_def Let_def split: option.split prod.split)

lemma add_route_served:
  assumes "route_served ex na checker ups route"
  obtains e where "e_route e = route"
    and "e_re e = (if m_PathMode (r_Match route) = PathModeRegex then na_Compile na (m_Path (r_Match route)) else None)"
    and "fst (add_route ex na reg checker tracker ups route (t, w)) =
      (if mode_rank route = 2 then t\<lparr> exactEntries := exactEntries t @ [e] \<rparr>
       else if mode_rank route = 0 then t\<lparr> regexEntries := regexEntries t @ [e] \<rparr>
       else t\<lparr> prefixEntries := prefixEntries t @ [e] \<rparr>)"
proof -
  from assms obtain upH where active: "r_Active route" and up: "route_upstream ex checker ups route = Some upH"
    by (auto simp: route_served_def)
  obtain h w1 where h: "buildRouteHandler reg tracker route upH w = (h, w1)" by force
  show thesis
  proof (cases "m_PathMode (r_Match route) = PathModeRegex")
    case True
    with assms obtain f where "na_Compile na (m_Path (r_Match route)) = Some f" by (auto simp: route_served_def)
    with True active up h show thesis
      by (intro that [of "\<lparr> e_route = route, e_handler = h, e_re = Some f \<rparr>"]) (simp_all add: add_route_def mode_rank_cases)
  next
    case False
    with active up h show thesis
      by (intro that [of "\<lparr> e_route = route, e_handler = h, e_re = None \<rparr>"]) (simp_all add: add_route_def mode_rank_cases)
  qed
qed

lemma add_route_table_of:
  assumes "table_of na (route_served ex na checker ups) rs t"
  shows "table_of na (route_served ex na checker ups) (rs @ [route]) (fst (add_route ex na reg checker tracker ups route (t, w)))"
proof -
  consider (un) "\<not> route_served ex na checker ups route"
    | (rank) "route_served ex na checker ups route" "mode_rank route = 0 \<or> mode_rank route = 1 \<or> mode_rank route = 2"
    using mode_rank_le [of route] by metis
  then show ?thesis
  proof cases
    case un
    with assms show ?thesis by (auto simp: table_of_def add_route_unserved)
  next
    case rank
    obtain e where e: "e_route e = route"
      "e_re e = (if m_PathMode (r_Match route) = PathModeRegex then na_Compile na (m_Path (r_Match route)) else None)"
      "fst (add_route ex na reg checker tracker ups route (t, w)) =
        (if mode_rank route = 2 then t\<lparr> exactEntries := exactEntries t @ [e] \<rparr>
         else if mode_rank route = 0 then t\<lparr> regexEntries := regexEntries t @ [e] \<rparr>
         else t\<lparr> prefixEntries := prefixEntries t @ [e] \<rparr>)"
      using add_route_served [OF rank(1)] by blast
    from rank(2) rank(1) e(1,2) assms show ?thesis
      unfolding e(3) table_of_def entries_ok_def by (elim disjE) auto
  qed
qed

lemma add_routes_table_of:
  "table_of na (route_served ex na checker ups) done t \<Longrightarrow>
    table_of na (route_served ex na checker ups) (done @ rs) (fst (fold (add_route ex na reg checker tracker ups) rs (t, w)))"
proof (induction rs arbitrary: "done" t w)
  case (Cons r rs)
  obtain t' w' where tw: "add_route ex na reg checker tracker ups r (t, w) = (t', w')" by force
  have "table_of na (route_served ex na checker ups) (done @ [r]) t'"
    using add_route_table_of [OF Cons.prems, of r reg tracker w] by (simp add: tw)
  from Cons.IH [OF this, of w'] show ?case by (simp add: tw)
qed simp

lemma reload_table_of:
  assumes "sort_ok na" and "buildUpstreamMap ex na checker w = (ups, w1)"
  shows "table_of na (route_served ex na checker ups) (ListRoutes (ex_orders ex) (w_store w1)) (fst (reload ex na reg checker tracker w))"
proof -
  have "table_of na (route_served ex na checker ups) [] (empty_table :: 'a routeTable)"
    by (simp add: table_of_def empty_table_def entries_ok_def)
  from add_routes_table_of [OF this, of "ListRoutes (ex_orders ex) (w_store w1)" reg tracker w1]
  have "table_of na (route_served ex na checker ups) (ListRoutes (ex_orders ex) (w_store w1))
      (fst (fold (add_route ex na reg checker tracker ups) (ListRoutes (ex_orders ex) (w_store w1)) (empty_table, w1)))" by simp
  moreover have "set (na_sort na es) = set es" for es
    using assms(1) by (metis mset_eq_setD sort_ok_def)
  ultimately show ?thesis
    using assms(2) by (auto simp: reload_def table_of_def entries_ok_def split: prod.split)
qed

lemma matchEntry_route:
  assumes "entries_ok na es" and "e \<in> set es"
  shows "matchEntry e (stripPort (rq_Host req)) (rq_Path req) (rq_Method req) req = route_matches na (e_route e) req"
  using assms by (auto simp: matchEntry_def route_matches_def entries_ok_def Let_def split: option.splits)

lemma match_in_Some:
  assumes "entries_ok na es" and "match_in es req = Some e"
  shows "e \<in> set es \<and> route_matches na (e_route e) req"
  using find_mem [of _ es e] assms matchEntry_route [OF assms(1)] unfolding match_in_def by blast

lemma match_in_None:
  assumes "entries_ok na es"
  shows "match_in es req = None \<longleftrightarrow> (\<forall>e \<in> set es. \<not> route_matches na (e_route e) req)"
  using matchEntry_route [OF assms, of _ req] unfolding match_in_def find_None_iff by blast

text \<open>In a list sorted by falling length the first match is a longest one.\<close>

lemma find_sorted_longest:
  fixes len :: "'b \<Rightarrow> nat"
  assumes "sorted_wrt (\<lambda>a b. len b \<le> len a) es" and "find P es = Some e" and "x \<in> set es" and "P x"
  shows "len x \<le> len e"
  using assms
proof (induction es)
  case (Cons a es)
  then show ?case by (cases "P a") auto
qed simp

lemma table_of_member:
  assumes "table_of na served rs t" and "r \<in> set rs" and "served r"
  shows "(mode_rank r = 2 \<longrightarrow> (\<exists>e \<in> set (exactEntries t). e_route e = r)) \<and>
    (mode_rank r = 1 \<longrightarrow> (\<exists>e \<in> set (prefixEntries t). e_route e = r)) \<and>
    (mode_rank r = 0 \<longrightarrow> (\<exists>e \<in> set (regexEntries t). e_route e = r))"
proof -
  have "mode_rank r = 2 \<Longrightarrow> r \<in> set (map e_route (exactEntries t))"
    "mode_rank r = 1 \<Longrightarrow> r \<in> set (map e_route (prefixEntries t))"
    "mode_rank r = 0 \<Longrightarrow> r \<in> set (map e_route (regexEntries t))"
    using assms by (simp_all add: table_of_def)
  then show ?thesis unfolding set_map image_iff by metis
qed

lemma match_entry_best:
  assumes t: "table_of na served rs t"
    and sorted: "sorted_wrt (\<lambda>a b. length (m_Path (r_Match (e_route b))) \<le> length (m_Path (r_Match (e_route a)))) (prefixEntries t)"
    and m: "match_entry t req = Some e"
  shows "e_route e \<in> set rs \<and> served (e_route e) \<and> route_matches na (e_route e) req \<and>
    (\<forall>r \<in> set rs. served r \<and> route_matches na r req \<longrightarrow> outranked r (e_route e))"
proof -
  have ok: "entries_ok na (exactEntries t)" "entries_ok na (prefixEntries t)" "entries_ok na (regexEntries t)"
    using t by (simp_all add: table_of_def)
  have in_ex: "x \<in> set (exactEntries t) \<Longrightarrow> e_route x \<in> set rs \<and> served (e_route x) \<and> mode_rank (e_route x) = 2"
    and in_pr: "x \<in> set (prefixEntries t) \<Longrightarrow> e_route x \<in> set rs \<and> served (e_route x) \<and> mode_rank (e_route x) = 1"
    and in_re: "x \<in> set (regexEntries t) \<Longrightarrow> e_route x \<in> set rs \<and> served (e_route x) \<and> mode_rank (e_route x) = 0" for x
    using t by (auto simp: table_of_def)
  consider (exact) "match_in (exactEntries t) req = Some e"
    | (pre) "match_in (exactEntries t) req = None" "match_in (prefixEntries t) req = Some e"
    | (regex) "match_in (exactEntries t) req = None" "match_in (prefixEntries t) req = None" "match_in (regexEntries t) req = Some e"
    using m by (auto simp: match_entry_def split: option.splits)
  then show ?thesis
  proof cases
    case exact
    note e = match_in_Some [OF ok(1) exact] in_ex [of e]
    then have "outranked r (e_route e)" for r using mode_rank_le [of r] by (auto simp: outranked_def)
    with e show ?thesis by blast
  next
    case pre
    have "outranked r (e_route e)" if r: "r \<in> set rs" "served r" "route_matches na r req" for r
    proof -
      have "mode_rank r \<noteq> 2" using table_of_member [OF t r(1,2)] pre(1) r(3) by (auto simp: match_in_None [OF ok(1)])
      moreover have "length (m_Path (r_Match r)) \<le> length (m_Path (r_Match (e_route e)))" if one: "mode_rank r = 1"
      proof -
        obtain x where x: "x \<in> set (prefixEntries t)" "e_route x = r" using table_of_member [OF t r(1,2)] one by blast
        from find_sorted_longest [OF sorted pre(2) [unfolded match_in_def] x(1)] matchEntry_route [OF ok(2) x(1)] x(2) r(3)
        show ?thesis by simp
      qed
      moreover have "mode_rank (e_route e) = 1" using match_in_Some [OF ok(2) pre(2)] in_pr by blast
      ultimately show ?thesis using mode_rank_le [of r] by (auto simp: outranked_def)
    qed
    with match_in_Some [OF ok(2) pre(2)] in_pr [of e] show ?thesis by blast
  next
    case regex
    have "outranked r (e_route e)" if r: "r \<in> set rs" "served r" "route_matches na r req" for r
    proof -
      have "mode_rank r \<noteq> 2" "mode_rank r \<noteq> 1"
        using table_of_member [OF t r(1,2)] regex(1,2) r(3) by (auto simp: match_in_None [OF ok(1)] match_in_None [OF ok(2)])
      moreover have "mode_rank (e_route e) = 0" using match_in_Some [OF ok(3) regex(3)] in_re by blast
      ultimately show ?thesis using mode_rank_le [of r] by (auto simp: outranked_def)
    qed
    with match_in_Some [OF ok(3) regex(3)] in_re [of e] show ?thesis by blast
  qed
qed

lemma match_entry_none:
  assumes t: "table_of na served rs t" and m: "match_entry t req = None"
  shows "\<forall>r \<in> set rs. served r \<longrightarrow> \<not> route_matches na r req"
proof clarify
  fix r
  assume r: "r \<in> set rs" "served r" "route_matches na r req"
  have "match_in (exactEntries t) req = None" "match_in (prefixEntries t) req = None" "match_in (regexEntries t) req = None"
    using m by (auto simp: match_entry_def split: option.splits)
  then show False
    using table_of_member [OF t r(1,2)] r(3) mode_rank_le [of r] t by (auto simp: table_of_def match_in_None)
qed


section \<open>The handlers of the table\<close>

text \<open>Every entry runs the handler that \<open>buildRouteHandler\<close> made for its route and upstream.\<close>

definition entry_built :: "'x ext_api \<Rightarrow> 'x Registry \<Rightarrow> bool \<Rightarrow> bool \<Rightarrow> (string, 'x handler) gomap \<Rightarrow> 'x entry \<Rightarrow> bool" where
  "entry_built ex reg checker tracker ups e \<longleftrightarrow>
     (\<exists>upH wa. route_upstream ex checker ups (e_route e) = Some upH \<and> e_handler e = fst (buildRouteHandler reg tracker (e_route e) upH wa))"

definition table_entries :: "'x routeTable \<Rightarrow> 'x entry set" where
  "table_entries t = set (exactEntries t) \<union> set (prefixEntries t) \<union> set (regexEntries t)"

lemma add_route_built:
  assumes "\<forall>e \<in> table_entries t. entry_built ex reg checker tracker ups e"
  shows "\<forall>e \<in> table_entries (fst (add_route ex na reg checker tracker ups route (t, w))). entry_built ex reg checker tracker ups e"
proof (cases "route_upstream ex checker ups route")
  case None
  with assms show ?thesis by (simp add: add_route_def)
next
  case (Some upH)
  obtain h w1 where h: "buildRouteHandler reg tracker route upH w = (h, w1)" by force
  have "entry_built ex reg checker tracker ups \<lparr> e_route = route, e_handler = h, e_re = f \<rparr>" for f
    unfolding entry_built_def using Some h by (metis entry.select_convs(1,2) fst_conv)
  with assms Some h show ?thesis
    by (auto simp: add_route_def table_entries_def Let_def split: option.split)
qed

lemma add_routes_built:
  "\<forall>e \<in> table_entries t. entry_built ex reg checker tracker ups e \<Longrightarrow>
    \<forall>e \<in> table_entries (fst (fold (add_route ex na reg checker tracker ups) rs (t, w))). entry_built ex reg checker tracker ups e"
proof (induction rs arbitrary: t w)
  case (Cons r rs)
  show ?case using Cons.IH [OF add_route_built [OF Cons.prems], of na r w "snd (add_route ex na reg checker tracker ups r (t, w))"] by simp
qed simp

lemma reload_built:
  assumes "sort_ok na" and "buildUpstreamMap ex na checker w = (ups, w1)"
  shows "\<forall>e \<in> table_entries (fst (reload ex na reg checker tracker w)). entry_built ex reg checker tracker ups e"
proof -
  have "\<forall>e \<in> table_entries empty_table. entry_built ex reg checker tracker ups e"
    by (simp add: table_entries_def empty_table_def)
  from add_routes_built [OF this, of na "ListRoutes (ex_orders ex) (w_store w1)" w1]
  have "\<forall>e \<in> table_entries (fst (fold (add_route ex na reg checker tracker ups) (ListRoutes (ex_orders ex) (w_store w1)) (empty_table, w1))).
    entry_built ex reg checker tracker ups e" .
  moreover have "set (na_sort na es) = set es" for es
    using assms(1) by (metis mset_eq_setD sort_ok_def)
  ultimately show ?thesis
    using assms(2) by (auto simp: reload_def table_entries_def split: prod.split)
qed

lemma match_entry_member: "match_entry t req = Some e \<Longrightarrow> e \<in> table_entries t"
  by (auto simp: match_entry_def match_in_def table_entries_def dest: find_mem split: option.splits)

lemma buildLBHandler_store: "w_store (snd (buildLBHandler ex na checker u w)) = w_store w"
  by (simp add: buildLBHandler_def split: option.split)

lemma build_upstreams_store: "w_store (snd (build_upstreams ex na checker us m w)) = w_store w"
proof (induction us arbitrary: m w)
  case (Cons u us)
  show ?case using Cons.IH buildLBHandler_store [of ex na checker u w] by (auto simp: Let_def split: prod.split)
qed simp

section \<open>Which route serves a request\<close>

text \<open>
  C12. A request is served by the best route. After a reload, for every request there is either an active
  route of the store, with an upstream that could be built and a valid pattern, that matches the request,
  outranks every other such route (exact before prefix before regular expression, and the longest prefix)
  and whose handler the router runs, or no such route matches and the router runs the fallback. It holds
  for every order in which the store lists its routes.
\<close>
theorem router_picks_best_route:
  assumes sort: "sort_ok na" and ups: "ups = fst (buildUpstreamMap ex na checker w)"
    and table: "table = fst (reload ex na reg checker tracker w)"
  shows "(\<exists>r upH wa. r \<in> set (ListRoutes (ex_orders ex) (w_store w)) \<and> route_served ex na checker ups r \<and> route_matches na r req \<and>
      (\<forall>r' \<in> set (ListRoutes (ex_orders ex) (w_store w)). route_served ex na checker ups r' \<and> route_matches na r' req \<longrightarrow> outranked r' r) \<and>
      route_upstream ex checker ups r = Some upH \<and>
      router_ServeHTTP table fallback req v = fst (buildRouteHandler reg tracker r upH wa) req v) \<or>
    ((\<forall>r \<in> set (ListRoutes (ex_orders ex) (w_store w)). route_served ex na checker ups r \<longrightarrow> \<not> route_matches na r req) \<and>
      router_ServeHTTP table fallback req v = fallback req v)"
proof -
  obtain w1 where w1: "buildUpstreamMap ex na checker w = (ups, w1)" using ups by (metis prod.collapse)
  have store: "w_store w1 = w_store w"
    using w1 build_upstreams_store [of ex na checker "ListUpstreams (ex_orders ex) (w_store w)" "[]" w] by (simp add: buildUpstreamMap_def)
  note t = reload_table_of [OF sort w1, of reg tracker, folded table, unfolded store]
  have srt: "sorted_wrt (\<lambda>a b. length (m_Path (r_Match (e_route b))) \<le> length (m_Path (r_Match (e_route a)))) (prefixEntries table)"
    using sort by (auto simp: table reload_def sort_ok_def split: prod.split)
  show ?thesis
  proof (cases "match_entry table req")
    case None
    with match_entry_none [OF t None] show ?thesis by (auto simp: router_ServeHTTP_def)
  next
    case (Some e)
    from reload_built [OF sort w1, of reg tracker] match_entry_member [OF Some]
    obtain upH wa where "route_upstream ex checker ups (e_route e) = Some upH" "e_handler e = fst (buildRouteHandler reg tracker (e_route e) upH wa)"
      by (auto simp: table entry_built_def)
    moreover have "router_ServeHTTP table fallback req v = e_handler e req v" by (simp add: router_ServeHTTP_def Some)
    ultimately show ?thesis using match_entry_best [OF t srt Some] by metis
  qed
qed


section \<open>Traffic split\<close>

text \<open>The loop of the traffic split is the same weighted choice as that of the weighted balancer.\<close>

interpretation split: weighted_choice wh_weight split_scan
  by unfold_locales (simp_all add: Let_def)

lemma split_sum_exact:
  fixes hs :: "'x wh list"
  assumes "\<forall>h \<in> set hs. 0 \<le> wh_weight h" and "sum_list (map wh_weight hs) < 2 ^ 63"
  shows "split_sum hs = sum_list (map wh_weight hs)"
proof -
  have "fold (\<lambda>h s. wrap64 (s + wh_weight h)) hs t = t + sum_list (map wh_weight hs)"
    if "\<forall>h \<in> set hs. 0 \<le> wh_weight h" "0 \<le> t" "t + sum_list (map wh_weight hs) < 2 ^ 63" for t and hs :: "'x wh list"
    using that
  proof (induction hs arbitrary: t)
    case (Cons h hs)
    have "0 \<le> sum_list (map wh_weight hs)" using Cons.prems(1) by (intro split.sum_list_weights_nonneg) simp
    then have "wrap64 (t + wh_weight h) = t + wh_weight h" using Cons.prems by (simp add: wrap64_id)
    then show ?case using Cons.IH [of "t + wh_weight h"] Cons.prems by (simp add: add.assoc)
  qed simp
  from this [OF assms(1), of 0] assms(2) show ?thesis by (simp add: split_sum_def)
qed

lemma split_entries_weight: "h \<in> set (split_entries wus ups) \<Longrightarrow> 0 < wh_weight h"
  by (auto simp: split_entries_def List.map_filter_def split: if_splits)

lemma split_entries_distinct:
  "distinct (map wu_UpstreamID wus) \<Longrightarrow> distinct (split_entries wus ups)"
proof -
  have ids: "wh_upstreamID ` set (split_entries wus ups) \<subseteq> wu_UpstreamID ` set wus" for wus
    by (auto simp: split_entries_def List.map_filter_def)
  show "distinct (map wu_UpstreamID wus) \<Longrightarrow> distinct (split_entries wus ups)"
  proof (induction wus)
    case (Cons wu wus)
    have "split_entries (wu # wus) ups = split_entries wus ups \<or>
        (\<exists>h. wh_upstreamID h = wu_UpstreamID wu \<and> split_entries (wu # wus) ups = h # split_entries wus ups)"
      by (auto simp: split_entries_def List.map_filter_def)
    moreover have "h \<notin> set (split_entries wus ups)" if "wh_upstreamID h = wu_UpstreamID wu" for h
    proof
      assume "h \<in> set (split_entries wus ups)"
      then have "wu_UpstreamID wu \<in> wu_UpstreamID ` set wus" using ids [of wus] imageI [of h _ wh_upstreamID] that by auto
      then show False using Cons.prems by simp
    qed
    ultimately show ?case using Cons by auto
  qed (simp add: split_entries_def List.map_filter_def)
qed

text \<open>The upstreams that take part: the healthy ones when there are any, otherwise all.\<close>

definition split_healthy :: "'x ext_api \<Rightarrow> 'x world \<Rightarrow> 'x wh \<Rightarrow> bool" where
  "split_healthy ex w h \<longleftrightarrow> (let url = upstream_url_of ex (w_store w) (wh_upstreamID h) in url = '''' \<or> IsHealthy url (w_health w))"

definition split_pool :: "'x ext_api \<Rightarrow> bool \<Rightarrow> 'x world \<Rightarrow> 'x wh list \<Rightarrow> 'x wh list" where
  "split_pool ex checker w hs = (if checker \<and> (\<exists>h \<in> set hs. split_healthy ex w h) then filter (split_healthy ex w) hs else hs)"

lemma split_eligible_pool:
  assumes "\<forall>h \<in> set hs. 0 \<le> wh_weight h" and "sum_list (map wh_weight hs) < 2 ^ 63"
  shows "split_eligible ex checker hs w = (split_pool ex checker w hs, sum_list (map wh_weight (split_pool ex checker w hs)))"
proof -
  have "sum_list (map wh_weight (filter P hs)) < 2 ^ 63" for P
    using sum_list_filter_le [of hs wh_weight P] assms by (meson le_less_trans)
  then have "split_sum (filter P hs) = sum_list (map wh_weight (filter P hs))" for P
    using assms(1) by (intro split_sum_exact) auto
  then show ?thesis
    using split_sum_exact [OF assms]
    by (auto simp: split_eligible_def split_pool_def split_healthy_def [abs_def] Let_def filter_empty_conv)
qed



section \<open>Connections of the least-connections balancer\<close>

lemma reverse_proxy_balancers [simp]: "w_balancers (snd (reverse_proxy na g d m r w)) = w_balancers w"
  by (auto simp: reverse_proxy_def send_response_def upstream_unavailable_def Let_def split: prod.split rt_result.split)

lemma endpoint_proxies_result:
  assumes "endpoint_proxies na u eps m = Some proxies"
    and "\<forall>ep p. map_of m ep = Some p \<longrightarrow> (\<forall>r v. w_balancers (snd (p r v)) = w_balancers v)"
  shows "dom (map_of proxies) = dom (map_of m) \<union> set eps \<and>
    (\<forall>ep p. map_of proxies ep = Some p \<longrightarrow> (\<forall>r v. w_balancers (snd (p r v)) = w_balancers v))"
  using assms
proof (induction eps arbitrary: m)
  case (Cons ep eps)
  from Cons.prems(1) obtain p where p: "buildUpstreamProxy na u ep = Some p" "endpoint_proxies na u eps (gm_put ep p m) = Some proxies"
    by (auto split: option.splits)
  have "w_balancers (snd (p r v)) = w_balancers v" for r v
    using p(1) by (auto simp: buildUpstreamProxy_def Let_def split: option.splits)
  with Cons.prems(2) have "\<forall>e q. map_of (gm_put ep p m) e = Some q \<longrightarrow> (\<forall>r v. w_balancers (snd (q r v)) = w_balancers v)" by simp
  from Cons.IH [OF p(2) this] show ?case by auto
qed simp

text \<open>One counter per endpoint, each an \<open>int64\<close>.\<close>

definition lc_counts :: "string list \<Rightarrow> LeastConn \<Rightarrow> bool" where
  "lc_counts eps lc \<longleftrightarrow> dom (map_of (lc_conns lc)) = set eps \<and> (\<forall>ep c. map_of (lc_conns lc) ep = Some c \<longrightarrow> wrap64 c = c)"

lemma lc_pick_and_done:
  assumes "lc_counts eps lc" and "lc_Next h lc = (x, lc')"
  shows "case x of
      Inr ep \<Rightarrow> if ep = '''' then lc' = lc else ep \<in> set eps \<and> map_of (lc_conns (lc_Done ep lc')) = map_of (lc_conns lc)
    | Inl _ \<Rightarrow> lc' = lc"
proof (cases x)
  case (Inl p)
  with assms(2) show ?thesis by (auto simp: lc_Next_def Let_def split: sum.splits option.splits if_splits)
next
  case (Inr ep)
  show ?thesis
  proof (cases "ep = ''''")
    case True
    with Inr assms(2) show ?thesis by (auto simp: lc_Next_def Let_def split: sum.splits option.splits if_splits)
  next
    case False
    with lc_Next_result assms(2) Inr obtain c where
      c: "map_of (lc_conns lc) ep = Some c" "lc' = lc\<lparr> lc_conns := gm_put ep (wrap64 (c + 1)) (lc_conns lc) \<rparr>" by blast
    have "wrap64 (wrap64 (c + 1) - 1) = c" using assms(1) c(1) wrap64_wrap64_add [of "c + 1" "- 1"] by (simp add: lc_counts_def)
    with c assms(1) False Inr show ?thesis by (auto simp: lc_Done_def lc_counts_def fun_eq_iff dom_def)
  qed
qed

text \<open>
  C15. The least-connections balancer gets every connection back: whatever the upstream does with a request
  (an answer, an error, a response that breaks off and makes the proxy panic), once the load-balancing
  handler has returned every counter has the value it had before.
\<close>
theorem least_conn_slot_released:
  assumes built: "buildLBHandler ex na checker u w = (Some h, w1)" and i: "i = length (w_balancers w)" "i < length (w_balancers v)"
    and lc: "w_balancers v ! i = LeastConnections lc" "lc_counts (u_Endpoints u) lc"
  shows "\<exists>lc'. w_balancers (snd (h req v)) ! i = LeastConnections lc' \<and> map_of (lc_conns lc') = map_of (lc_conns lc)"
proof -
  obtain proxies where pr: "endpoint_proxies na u (u_Endpoints u) [] = Some proxies" and h: "h = lb_handler ex checker i proxies"
    using built i(1) by (auto simp: buildLBHandler_def split: option.splits)
  have doms: "dom (map_of proxies) = set (u_Endpoints u)"
    and keeps: "map_of proxies ep = Some p \<Longrightarrow> w_balancers (snd (p r v)) = w_balancers v" for ep p r v
    using endpoint_proxies_result [OF pr] by auto
  let ?h = "if checker then Some (\<lambda>u. IsHealthy u (w_health v)) else None"
  obtain x lc' where n: "lc_Next ?h lc = (x, lc')" by force
  let ?w1 = "v\<lparr> w_balancers := (w_balancers v)[i := LeastConnections lc'], w_draws := Suc (w_draws v) \<rparr>"
  note pd = lc_pick_and_done [OF lc(2) n]
  have run: "h req v = (case x of Inl p \<Rightarrow> (rq_Header req, ?w1\<lparr> w_panic := Some p \<rparr>)
      | Inr ep \<Rightarrow> if ep = '''' then reply req (WriteJSON 503 (json_obj [(''error'', ''no_healthy_upstream'')]) ?w1)
             else case map_of proxies ep of
                    None \<Rightarrow> reply req (WriteHeader 502 ?w1)
                  | Some proxy \<Rightarrow>
                      let (hd', w2) = proxy req ?w1
                      in (hd', w2\<lparr> w_balancers := (w_balancers w2)[i := balancer_Done ep (w_balancers w2 ! i)] \<rparr>))"
    using lc(1) n by (simp add: h lb_handler_def balancer_Next_def Let_def)
  show ?thesis
  proof (cases x)
    case (Inl p)
    with run pd i(2) show ?thesis by simp
  next
    case (Inr ep)
    show ?thesis
    proof (cases "ep = ''''")
      case True
      with Inr run pd i(2) show ?thesis by (simp add: reply_def)
    next
      case False
      with pd Inr have "ep \<in> dom (map_of proxies)" by (simp add: doms)
      then obtain proxy where p: "map_of proxies ep = Some proxy" by blast
      obtain hd' w2 where w2: "proxy req ?w1 = (hd', w2)" by force
      have "w_balancers w2 = (w_balancers v)[i := LeastConnections lc']"
        using keeps [OF p, of req ?w1] w2 by simp
      then show ?thesis using False Inr run pd p w2 i(2) by (simp add: balancer_Done_def)
    qed
  qed
qed


section \<open>What the upstream is told about the client\<close>

text \<open>The header names involved, in canonical form.\<close>

lemma forwarded_keys:
  "CanonicalKey ''X-Forwarded-For'' = ''X-Forwarded-For''" "CanonicalKey ''X-Forwarded-Proto'' = ''X-Forwarded-Proto''"
  "CanonicalKey ''X-Gateway-User-Role'' = ''X-Gateway-User-Role''" "CanonicalKey ''X-Gateway-User-Id'' = ''X-Gateway-User-Id''"
  "CanonicalKey ''X-Real-IP'' = ''X-Real-Ip''"
  by code_simp+

text \<open>What the trace propagator does not touch.\<close>

definition propagator_keeps :: "(headers \<Rightarrow> headers) \<Rightarrow> bool" where
  "propagator_keeps inject \<longleftrightarrow> (\<forall>h. \<forall>k \<in> set [''X-Real-Ip'', ''X-Gateway-User-Id'', ''X-Gateway-User-Role'']. map_of (inject h) k = map_of h k)"

lemma forward_headers_get:
  assumes "propagator_keeps inject" and "out = rq_Header (forward_headers inject req)"
  shows "header_Get out ''X-Gateway-User-Id'' = (case rq_Claims req of Some c \<Rightarrow> cl_Subject c | None \<Rightarrow> header_Get (rq_Header req) ''X-Gateway-User-Id'')"
    and "header_Get out ''X-Gateway-User-Role'' = (case rq_Claims req of Some c \<Rightarrow> cl_Role c | None \<Rightarrow> header_Get (rq_Header req) ''X-Gateway-User-Role'')"
    and "header_Get out ''X-Forwarded-For'' =
      (let xri = header_Get (rq_Header req) ''X-Real-IP'' in if xri \<noteq> '''' then xri else SplitHostPort_host (rq_RemoteAddr req))"
  using assms(1)
  by (simp_all add: assms(2) propagator_keeps_def forward_headers_def Let_def header_Get_def header_Set_def header_Del_def forwarded_keys
      ClaimsFrom_def UserID_def ClientIP_def go_Cut_def split: option.split)

text \<open>
  Identity headers. For a request with claims, the director hands the upstream the subject and role of
  the token, whatever the client sent. For a request without claims (a public path) it passes on what the
  client wrote into these headers. Its \<open>X-Forwarded-For\<close> is never what the client sent in that header, but
  \<open>X-Real-IP\<close> if the client sent that, and only otherwise the address of the peer.
\<close>
theorem identity_headers_forwarded:
  assumes "propagator_keeps inject" and "out = rq_Header (upstream_director inject target req)"
  shows "header_Get out ''X-Gateway-User-Id'' = (case rq_Claims req of Some c \<Rightarrow> cl_Subject c | None \<Rightarrow> header_Get (rq_Header req) ''X-Gateway-User-Id'') \<and>
    header_Get out ''X-Gateway-User-Role'' = (case rq_Claims req of Some c \<Rightarrow> cl_Role c | None \<Rightarrow> header_Get (rq_Header req) ''X-Gateway-User-Role'') \<and>
    header_Get out ''X-Forwarded-For'' =
      (let xri = header_Get (rq_Header req) ''X-Real-IP'' in if xri \<noteq> '''' then xri else SplitHostPort_host (rq_RemoteAddr req))"
  using forward_headers_get [OF assms(1), of out "req\<lparr> rq_Scheme := fst target, rq_URLHost := snd target, rq_Host := snd target \<rparr>"] assms(2)
  by (simp add: upstream_director_def Let_def split: option.split)

section \<open>The properties at work\<close>

text \<open>A network that parses every URL as plain HTTP, answers 200 and sorts by insertion.\<close>

definition some_net :: "unit net_api" where
  "some_net = \<lparr> na_Parse = (\<lambda>u. if u = '''' then None else Some (''http'', u)), na_Compile = (\<lambda>p. Some (\<lambda>s. s = p)),
     na_RoundTrip = (\<lambda>_ _ _. (RT_aborted 200 [] ''x'', 1)), na_Inject = header_Set ''Traceparent'' ''00'',
     na_sort = sort_key (\<lambda>e. - int (length (m_Path (r_Match (e_route e))))) \<rparr>"

definition route_of :: "string \<Rightarrow> string \<Rightarrow> string \<Rightarrow> Route" where
  "route_of rid mode path = \<lparr> r_ID = rid, r_Name = rid, r_Active = True,
     r_Match = \<lparr> m_Hosts = [], m_Path = path, m_PathMode = mode, m_Methods = [], m_Headers = [] \<rparr>,
     r_UpstreamID = ''u'', r_Plugins = [], r_StripPath = False, r_WeightedUpstreams = [], r_CreatedAt = 0, r_UpdatedAt = 0 \<rparr>"

definition some_upstream :: Upstream where
  "some_upstream = probed_upstream\<lparr> u_ID := ''u'', u_URL := ''up'', u_Endpoints := [''a'', ''b''], u_LBAlgorithm := ''least-conn'' \<rparr>"

definition routed_world :: "unit world" where
  "routed_world = blank_world\<lparr> w_store := (empty_store '''' Map.empty)\<lparr>
     st_routes := [(''1'', route_of ''1'' PathModePrefix ''/p''), (''2'', route_of ''2'' PathModePrefix ''/private'')],
     st_upstreams := [(''u'', some_upstream)] \<rparr> \<rparr>"

lemma some_net_sort_ok: "sort_ok some_net"
proof -
  have "sorted_wrt (\<lambda>a b. length (m_Path (r_Match (e_route b))) \<le> length (m_Path (r_Match (e_route a))))
      (sort_key (\<lambda>e. - int (length (m_Path (r_Match (e_route e))))) es)" for es :: "unit entry list"
    using sorted_sort_key [of "\<lambda>e. - int (length (m_Path (r_Match (e_route e))))" es] by (simp add: sorted_wrt_map)
  then show ?thesis by (simp add: sort_ok_def some_net_def)
qed


lemma routed_routes:
  "set (ListRoutes (ex_orders some_ext) (w_store routed_world)) = {route_of ''1'' PathModePrefix ''/p'', route_of ''2'' PathModePrefix ''/private''}"
  by (auto simp: routed_world_def ListRoutes_def some_ext_def reversed_orders_def)

lemma routed_upstream_built: "map_of (fst (buildUpstreamMap some_ext some_net True routed_world)) ''u'' \<noteq> None"
  by (simp add: buildUpstreamMap_def ListUpstreams_def routed_world_def some_ext_def reversed_orders_def some_upstream_def
      probed_upstream_def buildLBHandler_def buildUpstreamProxy_def some_net_def)

theorem router_picks_best_route_witness:
  "\<exists>upH wa. router_ServeHTTP (fst (reload some_ext some_net NewRegistry True False routed_world)) (answer 404) blank_request blank_world =
     fst (buildRouteHandler NewRegistry False (route_of ''2'' PathModePrefix ''/private'') upH wa) blank_request blank_world"
proof -
  let ?ups = "fst (buildUpstreamMap some_ext some_net True routed_world)" and ?r2 = "route_of ''2'' PathModePrefix ''/private''"
  have served: "route_served some_ext some_net True ?ups ?r2" "route_matches some_net ?r2 blank_request"
    using routed_upstream_built
    by (simp_all add: route_served_def route_of_def route_upstream_def route_matches_def matchHosts_def matchMethod_def matchHeaders_def
        blank_request_def HasPrefix_def)
  moreover have "\<not> outranked ?r2 (route_of ''1'' PathModePrefix ''/p'')"
    by (simp add: outranked_def mode_rank_def route_of_def)
  ultimately show ?thesis
    using router_picks_best_route [OF some_net_sort_ok refl refl, where ex = some_ext and checker = True and w = routed_world
        and req = blank_request and reg = NewRegistry and tracker = False and fallback = "answer 404" and v = blank_world]
    unfolding routed_routes by blast
qed


theorem least_conn_slot_released_witness:
  "\<exists>lc'. w_balancers (snd (the (fst (buildLBHandler some_ext some_net False some_upstream blank_world)) blank_request
       (snd (buildLBHandler some_ext some_net False some_upstream blank_world)))) ! 0 = LeastConnections lc' \<and>
     map_of (lc_conns lc') ''a'' = Some 0"
proof -
  let ?x = "buildLBHandler some_ext some_net False some_upstream blank_world"
  have "fst ?x \<noteq> None" "w_balancers (snd ?x) = [LeastConnections (NewLeastConn [''a'', ''b''])]"
    by (simp_all add: buildLBHandler_def buildUpstreamProxy_def some_net_def some_upstream_def probed_upstream_def blank_world_def new_balancer_def)
  then obtain h w1 where b: "?x = (Some h, w1)" "w_balancers w1 = [LeastConnections (NewLeastConn [''a'', ''b''])]"
    by (metis option.exhaust prod.collapse)
  have "lc_counts (u_Endpoints some_upstream) (NewLeastConn [''a'', ''b''])"
    by (auto simp: lc_counts_def NewLeastConn_fields some_upstream_def wrap64_def split: if_splits)
  moreover have "length (w_balancers blank_world) = 0" by (simp add: blank_world_def)
  ultimately obtain lc' where "w_balancers (snd (h blank_request w1)) ! 0 = LeastConnections lc'"
      "map_of (lc_conns lc') = map_of (lc_conns (NewLeastConn [''a'', ''b'']))"
    using least_conn_slot_released [OF b(1) refl, of w1 "NewLeastConn [''a'', ''b'']" blank_request] b(2) by auto
  then show ?thesis unfolding b(1) by (simp add: NewLeastConn_fields)
qed

theorem identity_headers_forwarded_witness:
  "header_Get (rq_Header (upstream_director (header_Set ''Traceparent'' ''00'') (''http'', ''up'')
     (blank_request\<lparr> rq_Header := [(''X-Gateway-User-Id'', [''root''])], rq_Claims := Some some_claims \<rparr>))) ''X-Gateway-User-Id'' = ''u''"
proof -
  have "CanonicalKey ''Traceparent'' = ''Traceparent''" by code_simp
  then have "propagator_keeps (header_Set ''Traceparent'' ''00'')" by (simp add: propagator_keeps_def header_Set_def)
  from identity_headers_forwarded [OF this refl] show ?thesis by (simp add: some_claims_def)
qed

end
