(* ===== verification/Proxy.thy ===== *)
theory Proxy
  imports Router_Correct
begin

text \<open>
  The proxy to the default backend, \<open>internal/proxy\<close>: the director with its path rewriting (\<open>proxy.go\<close>) and the
  WebSocket proxy up to the point where it takes over the connection (\<open>websocket.go\<close>).

  After \<open>Hijack\<close> the gateway copies bytes between two connections and no longer uses the response writer;
  that part is the parameter \<open>tunnel\<close>, an effect on the outside given the host it dials and the request it
  forwards. \<open>WebSocket_Tunnel\<close> models it.
\<close>

section \<open>Definitions\<close>

definition stripAPIPrefix :: "string \<Rightarrow> string" where
  "stripAPIPrefix path = (let stripped = TrimPrefix path ''/api'' in if stripped = '''' then ''/'' else stripped)"

definition isWebSocketUpgrade :: "request \<Rightarrow> bool" where
  "isWebSocketUpgrade r = EqualFold (header_Get (rq_Header r) ''Upgrade'') ''websocket''"

definition backend_director :: "(headers \<Rightarrow> headers) \<Rightarrow> string \<times> string \<Rightarrow> request \<Rightarrow> request" where
  "backend_director inject target r0 =
     (let r1 = r0\<lparr> rq_Scheme := fst target, rq_URLHost := snd target, rq_Path := stripAPIPrefix (rq_Path r0),
                   rq_RawPath := (if rq_RawPath r0 \<noteq> '''' then stripAPIPrefix (rq_RawPath r0) else rq_RawPath r0),
                   rq_Host := snd target \<rparr>;
          r2 = forward_headers inject r1
      in if isWebSocketUpgrade r2
         then r2\<lparr> rq_Header := header_Set ''Upgrade'' ''websocket'' (header_Set ''Connection'' ''Upgrade'' (rq_Header r2)) \<rparr>
         else r2)"

text \<open>\<open>URL.Port\<close>: the digits after the last colon of the host, empty when there are none.\<close>

definition url_Port :: "string \<Rightarrow> string" where
  "url_Port host =
     (case last_index CHR '':'' host of
        None \<Rightarrow> ''''
      | Some i \<Rightarrow> let p = drop (Suc i) host in if list_all is_digit p then p else '''')"

definition wsUpstreamScheme :: "string \<Rightarrow> string" where
  "wsUpstreamScheme scheme = (if scheme = ''https'' \<or> scheme = ''wss'' then ''wss'' else ''ws'')"

definition ws_dial_host :: "string \<times> string \<Rightarrow> string" where
  "ws_dial_host target =
     (if url_Port (snd target) = ''''
      then snd target @ (if fst target = ''https'' \<or> fst target = ''wss'' then '':443'' else '':80'')
      else snd target)"

text \<open>\<open>http.Error\<close>.\<close>

definition http_Error :: "string \<Rightarrow> int \<Rightarrow> 'x world \<Rightarrow> 'x world" where
  "http_Error msg code w =
     Write_body (msg @ [CHR 0x0A]) (WriteHeader code
       (set_header ''X-Content-Type-Options'' ''nosniff'' (set_header ''Content-Type'' ''text/plain; charset=utf-8''
         (w\<lparr> w_resp := (w_resp w)\<lparr> resp_header := header_Del ''Content-Length'' (resp_header (w_resp w)) \<rparr> \<rparr>))))"

text \<open>
  The server's own writer can be hijacked; the writers that plugins and the router wrap around it embed only
  the \<open>http.ResponseWriter\<close> interface and cannot.
\<close>

definition ws_ServeHTTP :: "(string \<Rightarrow> request \<Rightarrow> 'x \<Rightarrow> 'x) \<Rightarrow> string \<times> string \<Rightarrow> 'x handler" where
  "ws_ServeHTTP tunnel target r w =
     (if w_layers w \<noteq> [] then reply r (http_Error ''server does not support websocket hijack'' 500 w)
      else let out = r\<lparr> rq_Scheme := wsUpstreamScheme (fst target), rq_URLHost := snd target \<rparr>
           in reply r (w\<lparr> w_ext := tunnel (ws_dial_host target) out (w_ext w) \<rparr>))"

text \<open>\<open>proxy.New\<close>; \<open>None\<close> is an invalid backend URL.\<close>

definition proxy_New :: "'x net_api \<Rightarrow> (string \<Rightarrow> request \<Rightarrow> 'x \<Rightarrow> 'x) \<Rightarrow> string \<Rightarrow> 'x handler option" where
  "proxy_New na tunnel backendURL =
     (case na_Parse na backendURL of
        None \<Rightarrow> None
      | Some target \<Rightarrow> Some (\<lambda>r w.
          if isWebSocketUpgrade r then ws_ServeHTTP tunnel target r w
          else reverse_proxy na False (backend_director (na_Inject na) target) modify_response r w))"

section \<open>Lemmas\<close>

lemma http_Error_fields [simp]:
  "w_panic (http_Error m c w) = w_panic w" "w_ext (http_Error m c w) = w_ext w" "w_spans (http_Error m c w) = w_spans w"
  by (simp_all add: http_Error_def)

text \<open>\<open>/api\<close> is cut off once, and the path never becomes empty.\<close>

lemma stripAPIPrefix_nonempty: "stripAPIPrefix path \<noteq> ''''"
  by (simp add: stripAPIPrefix_def Let_def)

lemma stripAPIPrefix_segment: "stripAPIPrefix (''/api/'' @ rest) = CHR ''/'' # rest"
  using TrimPrefix_append [of "''/api''" "CHR ''/'' # rest"] by (simp add: stripAPIPrefix_def Let_def)

text \<open>The prefix is not tied to a segment.\<close>

lemma stripAPIPrefix_unanchored: "stripAPIPrefix ''/apidocs'' = ''docs''"
  by code_simp

lemma backend_director_identity:
  assumes "propagator_keeps inject" and "out = rq_Header (backend_director inject target req)"
  shows "header_Get out ''X-Gateway-User-Id'' = (case rq_Claims req of Some c \<Rightarrow> cl_Subject c | None \<Rightarrow> header_Get (rq_Header req) ''X-Gateway-User-Id'')"
proof -
  let ?r1 = "req\<lparr> rq_Scheme := fst target, rq_URLHost := snd target, rq_Path := stripAPIPrefix (rq_Path req),
                   rq_RawPath := (if rq_RawPath req \<noteq> '''' then stripAPIPrefix (rq_RawPath req) else rq_RawPath req),
                   rq_Host := snd target \<rparr>"
  have "CanonicalKey ''Upgrade'' = ''Upgrade''" "CanonicalKey ''Connection'' = ''Connection''" by code_simp+
  then have "header_Get out ''X-Gateway-User-Id'' = header_Get (rq_Header (forward_headers inject ?r1)) ''X-Gateway-User-Id''"
    by (simp add: assms(2) backend_director_def Let_def header_Get_Set forwarded_keys)
  then show ?thesis using forward_headers_get(1) [OF assms(1) refl, of ?r1] by (simp split: option.split)
qed

end
