(* ===== verification/Config.thy ===== *)
theory Config
  imports Rate_Limit Health
begin

text \<open>
  The configuration of \<open>internal/config/config.go\<close>: environment variables with defaults, the \<open>.env\<close> file, and
  the limiter that \<open>ratelimit.New\<close> makes of it.

  The environment is the function \<open>os.Getenv\<close>, which gives the empty string for a variable that is not
  set. \<open>strconv.Atoi\<close> is modelled; \<open>strconv.ParseFloat\<close> and \<open>time.ParseDuration\<close> are parameters
  (\<open>conversions\<close>), with rationals for the floating-point numbers and nanoseconds for durations.
\<close>

section \<open>Environment variables\<close>

type_synonym environment = "string \<Rightarrow> string"

record conversions =
  cv_ParseFloat :: "string \<Rightarrow> rat option"
  cv_ParseDuration :: "string \<Rightarrow> int option"

text \<open>\<open>strconv.Atoi\<close>: an optional sign and decimal digits whose value fits into 64 bits.\<close>

definition decimal :: "string \<Rightarrow> int" where
  "decimal ds = fold (\<lambda>c n. 10 * n + (int (of_char c) - 48)) ds 0"

definition Atoi :: "string \<Rightarrow> int option" where
  "Atoi s =
     (let ds = (if s \<noteq> '''' \<and> (hd s = CHR ''-'' \<or> hd s = CHR ''+'') then tl s else s);
          n = (if s \<noteq> '''' \<and> hd s = CHR ''-'' then - decimal ds else decimal ds)
      in if ds = '''' \<or> \<not> list_all is_digit ds \<or> n < - (2 ^ 63) \<or> n \<ge> 2 ^ 63 then None else Some n)"

definition env :: "environment \<Rightarrow> string \<Rightarrow> string \<Rightarrow> string" where
  "env E k def = (if E k \<noteq> '''' then E k else def)"

definition EnvOrDefault :: "environment \<Rightarrow> string \<Rightarrow> string \<Rightarrow> string" where
  "EnvOrDefault E k def = env E k def"

text \<open>The fields of a comma-separated list, trimmed, without the empty ones.\<close>

definition list_fields :: "string \<Rightarrow> string list" where
  "list_fields raw = (if raw = '''' then [] else filter (\<lambda>s. s \<noteq> '''') (map TrimSpace (split_on CHR '','' raw)))"

definition splitEnv :: "environment \<Rightarrow> string \<Rightarrow> string \<Rightarrow> string list" where
  "splitEnv E k def = list_fields (env E k def)"

definition envInt :: "environment \<Rightarrow> string \<Rightarrow> int \<Rightarrow> int" where
  "envInt E k def = (if E k \<noteq> '''' then (case Atoi (E k) of Some n \<Rightarrow> n | None \<Rightarrow> def) else def)"

definition envFloat :: "conversions \<Rightarrow> environment \<Rightarrow> string \<Rightarrow> rat \<Rightarrow> rat" where
  "envFloat cv E k def = (if E k \<noteq> '''' then (case cv_ParseFloat cv (E k) of Some f \<Rightarrow> f | None \<Rightarrow> def) else def)"

definition envDur :: "conversions \<Rightarrow> environment \<Rightarrow> string \<Rightarrow> int \<Rightarrow> int" where
  "envDur cv E k def = (if E k \<noteq> '''' then (case cv_ParseDuration cv (E k) of Some d \<Rightarrow> d | None \<Rightarrow> def) else def)"

section \<open>The configuration\<close>

record RedisCfg =
  rc_Addr :: string
  rc_Password :: string
  rc_DB :: int

record LimiterCfg =
  lm_TBCapacity :: rat
  lm_TBRate :: rat
  lm_SWWindow :: int
  lm_SWLimit :: int

record RateLimitCfg =
  rlc_IP :: LimiterCfg
  rlc_User :: LimiterCfg
  rlc_Auth :: LimiterCfg

record Config =
  cfg_Port :: string
  cfg_BackendURL :: string
  cfg_JWTSecret :: string
  cfg_AllowedOrigins :: "string list"
  cfg_PublicPaths :: "string list"
  cfg_BypassPrefixes :: "string list"
  cfg_Redis :: RedisCfg
  cfg_RateLimit :: RateLimitCfg

definition second :: int where
  "second = 1000000000"

definition load_config :: "conversions \<Rightarrow> environment \<Rightarrow> Config" where
  "load_config cv E =
     \<lparr> cfg_Port = env E ''PORT'' ''8090'',
       cfg_BackendURL = env E ''BACKEND_URL'' ''http://backend:8080'',
       cfg_JWTSecret = env E ''JWT_SECRET'' '''',
       cfg_AllowedOrigins = splitEnv E ''ALLOWED_ORIGINS'' ''*'',
       cfg_PublicPaths = splitEnv E ''PUBLIC_PATHS'' ''/health'',
       cfg_BypassPrefixes = splitEnv E ''BYPASS_PREFIXES'' '''',
       cfg_Redis = \<lparr> rc_Addr = env E ''REDIS_ADDR'' ''redis:6379'', rc_Password = env E ''REDIS_PASSWORD'' '''',
         rc_DB = envInt E ''REDIS_DB'' 0 \<rparr>,
       cfg_RateLimit =
         \<lparr> rlc_IP = \<lparr> lm_TBCapacity = envFloat cv E ''RL_IP_TB_CAPACITY'' 100, lm_TBRate = envFloat cv E ''RL_IP_TB_RATE'' 10,
             lm_SWWindow = envDur cv E ''RL_IP_SW_WINDOW'' (60 * second), lm_SWLimit = envInt E ''RL_IP_SW_LIMIT'' 300 \<rparr>,
           rlc_User = \<lparr> lm_TBCapacity = envFloat cv E ''RL_USER_TB_CAPACITY'' 500, lm_TBRate = envFloat cv E ''RL_USER_TB_RATE'' 50,
             lm_SWWindow = envDur cv E ''RL_USER_SW_WINDOW'' (60 * second), lm_SWLimit = envInt E ''RL_USER_SW_LIMIT'' 1000 \<rparr>,
           rlc_Auth = \<lparr> lm_TBCapacity = envFloat cv E ''RL_AUTH_TB_CAPACITY'' 5, lm_TBRate = envFloat cv E ''RL_AUTH_TB_RATE'' (1 / 10),
             lm_SWWindow = envDur cv E ''RL_AUTH_SW_WINDOW'' (60 * second), lm_SWLimit = envInt E ''RL_AUTH_SW_LIMIT'' 5 \<rparr> \<rparr> \<rparr>"

text \<open>
  \<open>newTokenBucket\<close>, \<open>newSlidingWindow\<close> and \<open>ratelimit.New\<close>. The window is kept in milliseconds, truncated
  toward zero as \<open>Duration.Milliseconds\<close> does.
\<close>

definition millis :: "int \<Rightarrow> int" where
  "millis d = (if d < 0 then - (- d div 1000000) else d div 1000000)"

definition newTokenBucket :: "rat \<Rightarrow> rat \<Rightarrow> TokenBucket" where
  "newTokenBucket capacity rate = \<lparr> tb_capacity = capacity, tb_rate = rate \<rparr>"

definition newSlidingWindow :: "int \<Rightarrow> int \<Rightarrow> SlidingWindow" where
  "newSlidingWindow window limit = \<lparr> sw_window = millis window, sw_limit = limit \<rparr>"

definition limiter_New :: "RateLimitCfg \<Rightarrow> Limiter" where
  "limiter_New c =
     \<lparr> ipTB = newTokenBucket (lm_TBCapacity (rlc_IP c)) (lm_TBRate (rlc_IP c)),
       ipSW = newSlidingWindow (lm_SWWindow (rlc_IP c)) (lm_SWLimit (rlc_IP c)),
       userTB = newTokenBucket (lm_TBCapacity (rlc_User c)) (lm_TBRate (rlc_User c)),
       userSW = newSlidingWindow (lm_SWWindow (rlc_User c)) (lm_SWLimit (rlc_User c)),
       authTB = newTokenBucket (lm_TBCapacity (rlc_Auth c)) (lm_TBRate (rlc_Auth c)),
       authSW = newSlidingWindow (lm_SWWindow (rlc_Auth c)) (lm_SWLimit (rlc_Auth c)) \<rparr>"

section \<open>The .env file\<close>

text \<open>\<open>os.Setenv\<close> fails on a name that is empty or has an equals sign, and on a NUL in either part.\<close>

definition Setenv :: "string \<Rightarrow> string \<Rightarrow> environment \<Rightarrow> environment" where
  "Setenv k v E = (if k = '''' \<or> CHR ''='' \<in> set k \<or> CHR 0x00 \<in> set k \<or> CHR 0x00 \<in> set v then E else E(k := v))"

text \<open>The assignment on a line, if it has one.\<close>

definition dotenv_line :: "string \<Rightarrow> (string \<times> string) option" where
  "dotenv_line raw =
     (let line = TrimSpace raw
      in if line = '''' \<or> HasPrefix line ''#'' then None
         else case go_Cut CHR ''='' line of
                (key, val, ok) \<Rightarrow> if \<not> ok \<or> TrimSpace key = '''' then None else Some (TrimSpace key, TrimSpace val))"

definition dotenv_set :: "string \<Rightarrow> environment \<Rightarrow> environment" where
  "dotenv_set raw E =
     (case dotenv_line raw of
        None \<Rightarrow> E
      | Some (key, val) \<Rightarrow> if E key \<noteq> '''' then E else Setenv key val E)"

definition LoadDotEnv :: "string option \<Rightarrow> environment \<Rightarrow> environment" where
  "LoadDotEnv data E =
     (case data of None \<Rightarrow> E | Some text \<Rightarrow> fold dotenv_set (split_on (CHR 0x0A) text) E)"

section \<open>Which value a variable gets\<close>


text \<open>The first value that is not empty among the lines that assign to \<open>k\<close>, if \<open>os.Setenv\<close> takes it.\<close>

definition dotenv_values :: "string \<Rightarrow> string list \<Rightarrow> string list" where
  "dotenv_values k ls = List.map_filter (\<lambda>l. case dotenv_line l of
     Some (key, val) \<Rightarrow> if key = k \<and> val \<noteq> '''' \<and> CHR ''='' \<notin> set k \<and> CHR 0x00 \<notin> set (k @ val) then Some val else None
   | None \<Rightarrow> None) ls"

lemma dotenv_line_key: "dotenv_line l = Some (key, val) \<Longrightarrow> key \<noteq> ''''"
  by (auto simp: dotenv_line_def Let_def split: if_splits prod.splits)

lemma dotenv_set_value:
  "dotenv_set l E k = (if E k \<noteq> '''' then E k else case dotenv_values k [l] of [] \<Rightarrow> '''' | v # _ \<Rightarrow> v)"
  using dotenv_line_key [of l]
  by (auto simp: dotenv_set_def dotenv_values_def Setenv_def List.map_filter_def split: option.splits prod.splits)

lemma dotenv_values_Cons: "dotenv_values k (l # ls) = dotenv_values k [l] @ dotenv_values k ls"
  by (simp add: dotenv_values_def List.map_filter_def)

lemma dotenv_values_nonempty: "v \<in> set (dotenv_values k ls) \<Longrightarrow> v \<noteq> ''''"
  by (induction ls) (auto simp: dotenv_values_def List.map_filter_simps split: option.splits if_splits)

lemma dotenv_fold:
  "fold dotenv_set ls E k = (if E k \<noteq> '''' then E k else case dotenv_values k ls of [] \<Rightarrow> '''' | v # _ \<Rightarrow> v)"
proof (induction ls arbitrary: E)
  case Nil
  then show ?case by (simp add: dotenv_values_def List.map_filter_def)
next
  case (Cons l ls)
  have "v \<noteq> ''''" if "dotenv_values k [l] = v # vs" for v vs
    using dotenv_values_nonempty [of v k "[l]"] that by simp
  then show ?case
    using Cons.IH [of "dotenv_set l E"]
    by (cases "dotenv_values k [l]") (simp_all add: dotenv_set_value dotenv_values_Cons [of k l ls])
qed

text \<open>
  Reading the \<open>.env\<close> file never overrides the environment: a variable that has a value keeps it, and a
  variable without one gets the first value that is not empty among the lines that assign to it.
\<close>
theorem dotenv_precedence:
  "LoadDotEnv data E k =
     (if E k \<noteq> '''' then E k
      else case data of
             None \<Rightarrow> ''''
           | Some text \<Rightarrow> (case dotenv_values k (split_on (CHR 0x0A) text) of [] \<Rightarrow> '''' | v # _ \<Rightarrow> v))"
  by (simp add: LoadDotEnv_def dotenv_fold split: option.split)

end
