(* ===== verification/Gateway.thy ===== *)
theory Gateway
  imports Proxy Config
begin

text \<open>
  The assembly of the gateway in \<open>cmd/main.go\<close>: the plugin registry with its factories, the fallback behind a
  circuit breaker, the multiplexer, and the chain of global plugins around it.

  Outside code is a parameter: the JWT library, SHA-256, the metrics page of \<open>promhttp\<close> (\<open>promh\<close>), and what
  \<open>http.ServeMux\<close> answers to a path it would clean (\<open>mx\<close>: header and body of the redirect). The route
  table is the one of the last reload.
\<close>

section \<open>Plugin configuration\<close>

text \<open>\<open>int(v)\<close> of a \<open>float64\<close> truncates; a value that does not fit gives the smallest integer (amd64).\<close>

definition int_of_float :: "rat \<Rightarrow> int" where
  "int_of_float q =
     (let n = (if q < 0 then \<lceil>q\<rceil> else \<lfloor>q\<rfloor>) in if - (2 ^ 63) \<le> n \<and> n < 2 ^ 63 then n else - (2 ^ 63))"

text \<open>A nil map and an empty one give the default alike.\<close>

definition configInt :: "(string, any) gomap \<Rightarrow> string \<Rightarrow> int \<Rightarrow> int" where
  "configInt c key def =
     (case map_of c key of
        Some (AnyInt v) \<Rightarrow> v
      | Some (AnyFloat q) \<Rightarrow> int_of_float q
      | Some (AnyInt64 v) \<Rightarrow> v
      | _ \<Rightarrow> def)"

fun any_string :: "any \<Rightarrow> string option" where
  "any_string (AnyString s) = Some s"
| "any_string _ = None"

definition configString :: "(string, any) gomap \<Rightarrow> string \<Rightarrow> string" where
  "configString c key = (case map_of c key of Some (AnyString s) \<Rightarrow> s | _ \<Rightarrow> '''')"

definition configStrings :: "(string, any) gomap \<Rightarrow> string \<Rightarrow> string list" where
  "configStrings c key = (case map_of c key of Some (AnySlice vs) \<Rightarrow> List.map_filter any_string vs | _ \<Rightarrow> [])"

definition configStringMap :: "(string, any) gomap \<Rightarrow> string \<Rightarrow> (string, string) gomap" where
  "configStringMap c key =
     (case map_of c key of
        Some (AnyMap m) \<Rightarrow> List.map_filter (\<lambda>(k, v). map_option (Pair k) (any_string v)) m
      | _ \<Rightarrow> [])"

definition transformConfigFromMap :: "(string, any) gomap \<Rightarrow> TransformConfig" where
  "transformConfigFromMap c =
     \<lparr> tc_SetRequestHeaders = configStringMap c ''set_request_headers'',
       tc_RemoveRequestHeaders = configStrings c ''remove_request_headers'',
       tc_SetResponseHeaders = configStringMap c ''set_response_headers'',
       tc_RemoveResponseHeaders = configStrings c ''remove_response_headers'',
       tc_URLRewrite =
         (case map_of c ''url_rewrite'' of
            Some (AnyMap rw) \<Rightarrow>
              let pre = configString rw ''prefix_match''; replacement = configString rw ''replacement''
              in if pre \<noteq> '''' then Some \<lparr> uw_PrefixMatch = pre, uw_Replacement = replacement \<rparr> else None
          | _ \<Rightarrow> None) \<rparr>"

definition tlsDomains :: "environment \<Rightarrow> string list" where
  "tlsDomains E = list_fields (EnvOrDefault E ''HELIX_TLS_DOMAINS'' '''')"

section \<open>The registry\<close>

definition stateless :: "((string, any) gomap \<Rightarrow> 'x Plugin) \<Rightarrow> 'x Factory" where
  "stateless mk c w = (Some (mk c), w)"

text \<open>Each breaker and each per-route limiter has its own state.\<close>

definition breaker_factory :: "'x Factory" where
  "breaker_factory c w =
     (Some (CircuitBreaker (length (w_breakers w))), w\<lparr> w_breakers := w_breakers w @ [new_breaker DefaultCircuitBreakerConfig] \<rparr>)"

definition route_limit_factory :: "'x ext_api \<Rightarrow> 'x Factory" where
  "route_limit_factory ex c w =
     (Some (RouteRateLimit ex (length (w_limits w))),
      w\<lparr> w_limits := w_limits w @ [\<lparr> rl_rps = configInt c ''rps'' 100, rl_burst = configInt c ''burst'' 200, rl_clients = [] \<rparr>] \<rparr>)"

definition gateway_registry :: "'x ext_api \<Rightarrow> jwt_lib \<Rightarrow> (string \<Rightarrow> string) \<Rightarrow> Config \<Rightarrow> 'x Registry" where
  "gateway_registry ex jl Sum256 cfg =
     (let l = limiter_New (cfg_RateLimit cfg)
      in Register ''api-key-auth'' (stateless (\<lambda>c. APIKeyAuth Sum256 (configString c ''header'')))
        (Register ''transform'' (stateless (\<lambda>c. Transform (transformConfigFromMap c)))
        (Register ''route-rate-limit'' (route_limit_factory ex)
        (Register ''ip-policy'' (stateless (\<lambda>_. IPPolicyEnforcer ex))
        (Register ''auth-rate-limit'' (stateless (\<lambda>_. AuthRateLimit ex l))
        (Register ''user-rate-limit'' (stateless (\<lambda>_. UserRateLimit ex l))
        (Register ''ip-rate-limit'' (stateless (\<lambda>_. IPRateLimit ex l (cfg_BypassPrefixes cfg)))
        (Register ''jwt-auth'' (stateless (\<lambda>_. JWT jl (cfg_JWTSecret cfg) (cfg_PublicPaths cfg)))
        (Register ''circuit-breaker'' breaker_factory
        (Register ''cors'' (stateless (\<lambda>c. CORS (configStrings c ''allowed_origins'')))
        (Register ''security-headers'' (stateless (\<lambda>_. SecurityHeaders)) NewRegistry)))))))))))"

section \<open>The handler\<close>

definition health_handler :: "'x handler" where
  "health_handler r w = reply r (Write_body (json_obj [(''status'', ''ok'')]) (set_header ''Content-Type'' ''application/json'' w))"

definition serve_mux :: "(request \<Rightarrow> (headers \<times> string) option) \<Rightarrow> 'x handler \<Rightarrow> 'x handler \<Rightarrow> 'x handler" where
  "serve_mux mx promh dynRouter r w =
     (case mx r of
        Some (hdr, body) \<Rightarrow> reply r (send_response 301 hdr body w)
      | None \<Rightarrow>
          if rq_Path r = ''/health'' then health_handler r w
          else if rq_Path r = ''/metrics'' then promh r w
          else dynRouter r w)"

definition global_plugins :: "'x ext_api \<Rightarrow> jwt_lib \<Rightarrow> Config \<Rightarrow> 'x Plugin list" where
  "global_plugins ex jl cfg =
     (let l = limiter_New (cfg_RateLimit cfg)
      in [CorrelationID ex, Tracing, Logging, HTTPMetrics, SecurityHeaders, CORS (cfg_AllowedOrigins cfg), RequestSecurity,
          IPPolicyEnforcer ex, AuthRateLimit ex l, IPRateLimit ex l (cfg_BypassPrefixes cfg),
          JWT jl (cfg_JWTSecret cfg) (cfg_PublicPaths cfg), UserRateLimit ex l])"

definition gateway_handler :: "'x ext_api \<Rightarrow> jwt_lib \<Rightarrow> Config \<Rightarrow> 'x handler \<Rightarrow> 'x handler" where
  "gateway_handler ex jl cfg mux = Chain mux (global_plugins ex jl cfg)"

text \<open>
  The part of \<open>main\<close> that builds the handler, on a world that holds the store; \<open>None\<close> is the exit after an
  invalid backend URL.
\<close>

definition build_gateway :: "'x ext_api \<Rightarrow> 'x net_api \<Rightarrow> jwt_lib \<Rightarrow> (string \<Rightarrow> string) \<Rightarrow> (string \<Rightarrow> request \<Rightarrow> 'x \<Rightarrow> 'x) \<Rightarrow>
    (request \<Rightarrow> (headers \<times> string) option) \<Rightarrow> 'x handler \<Rightarrow> Config \<Rightarrow> 'x world \<Rightarrow> ('x handler \<times> 'x world) option" where
  "build_gateway ex na jl Sum256 tunnel mx promh cfg w =
     (case proxy_New na tunnel (cfg_BackendURL cfg) of
        None \<Rightarrow> None
      | Some proxyHandler \<Rightarrow>
          let w0 = w\<lparr> w_tracker := NewTracker, w_health := health_New \<rparr>;
              reg = gateway_registry ex jl Sum256 cfg;
              (cb, w1) = breaker_factory [] w0;
              fallback = Chain proxyHandler [the cb];
              (table, w2) = router_New ex na reg True True 0 w1
          in Some (gateway_handler ex jl cfg (serve_mux mx promh (router_ServeHTTP table fallback)), w2))"

end
