(* ===== verification/Gateway_Correct.thy ===== *)
theory Gateway_Correct
  imports Gateway
begin

text \<open>
  Properties of the assembled gateway. The interface is the locale \<open>confined\<close>: a plugin calls its next
  handler only in situations of a certain kind, so that handlers that agree there cannot be told apart.
  It is interpreted for the global plugins and gives two properties of the whole chain: without a valid
  token nothing behind it matters, and no request reaches the WebSocket tunnel.
\<close>

section \<open>Confinement\<close>

locale confined =
  fixes H :: "'x handler \<Rightarrow> 'x handler"
    and I :: "request \<Rightarrow> 'x world \<Rightarrow> bool"
    and J :: "request \<Rightarrow> 'x world \<Rightarrow> bool"
  assumes agree: "I r w \<Longrightarrow> (\<And>r' w'. J r' w' \<Longrightarrow> f r' w' = g r' w') \<Longrightarrow> H f r w = H g r w"
begin

text \<open>Nothing behind the plugin matters when its calls can satisfy nothing.\<close>

lemma blind:
  assumes "I r w" and "\<And>r' w'. \<not> J r' w'"
  shows "H f r w = H g r w"
  using agree [OF assms(1), of f g] assms(2) by blast

end

lemma confined_compose:
  assumes "confined A I J" and "confined B J K"
  shows "confined (\<lambda>next. A (B next)) I K"
proof
  fix r w and f g :: "'a handler"
  assume "I r w" and fg: "\<And>r' w'. K r' w' \<Longrightarrow> f r' w' = g r' w'"
  have "B f r' w' = B g r' w'" if "J r' w'" for r' w'
    using confined.agree [OF assms(2) that, of f g] fg by blast
  then show "A (B f) r w = A (B g) r w"
    using confined.agree [OF assms(1) \<open>I r w\<close>, of "B f" "B g"] by blast
qed

lemma confined_id: "confined (\<lambda>next. next) I I"
  by unfold_locales blast

lemma confined_Chain:
  "(\<And>p. p \<in> set ps \<Longrightarrow> confined (pl_Handler p) I I) \<Longrightarrow> confined (\<lambda>next. Chain next ps) I I"
proof (induction ps)
  case (Cons p ps)
  then show ?case using confined_compose [of "pl_Handler p" I I "\<lambda>next. Chain next ps" I] by simp
qed (simp add: confined_id)

text \<open>What the JWT plugin looks at, and the presence of a wrapped writer.\<close>

definition auth_view :: "string \<Rightarrow> string \<Rightarrow> string \<Rightarrow> int \<Rightarrow> request \<Rightarrow> 'x world \<Rightarrow> bool" where
  "auth_view m p tok now r w \<longleftrightarrow> rq_Method r = m \<and> rq_Path r = p \<and> jwt_token r = tok \<and> w_now w = now"

definition wrapped :: "request \<Rightarrow> 'x world \<Rightarrow> bool" where
  "wrapped r w \<longleftrightarrow> w_layers w \<noteq> []"

lemma correlation_keeps_token: "jwt_token (r\<lparr> rq_Header := header_Set ''X-Correlation-ID'' v (rq_Header r) \<rparr>) = jwt_token r"
proof -
  have "CanonicalKey ''X-Correlation-ID'' = ''X-Correlation-Id''" "CanonicalKey ''Authorization'' = ''Authorization''" by code_simp+
  then have "Cookie (r\<lparr> rq_Header := header_Set ''X-Correlation-ID'' v (rq_Header r) \<rparr>) name = Cookie r name"
    and "header_Get (header_Set ''X-Correlation-ID'' v (rq_Header r)) ''Authorization'' = header_Get (rq_Header r) ''Authorization''" for name
    by (simp_all add: Cookie_def header_Set_def header_Get_def)
  then show ?thesis by (simp add: jwt_token_def Let_def)
qed

lemma limiter_ask_fields [simp]:
  "w_now (snd (limiter_ask ex ask w)) = w_now w" "w_layers (snd (limiter_ask ex ask w)) = w_layers w"
  by (simp_all add: limiter_ask_def split: prod.split)

lemma limiter_ask_result:
  "limiter_ask ex ask w = (ok, w1) \<Longrightarrow> w_now w1 = w_now w \<and> w_layers w1 = w_layers w"
  using limiter_ask_fields [of ex ask w] by simp

text \<open>Every global plugin that stands before the JWT plugin keeps its view.\<close>

interpretation correlation_auth: confined "pl_Handler (CorrelationID ex)" "auth_view m p tok now" "auth_view m p tok now" for ex :: "'x ext_api" and m p tok now
  by unfold_locales (simp add: CorrelationID_def Let_def auth_view_def correlation_keeps_token)

interpretation tracing_auth: confined "pl_Handler Tracing" "auth_view m p tok now" "auth_view m p tok now" for m p tok now
  by unfold_locales (simp add: Tracing_def Let_def auth_view_def)

interpretation logging_auth: confined "pl_Handler Logging" "auth_view m p tok now" "auth_view m p tok now" for m p tok now
  by unfold_locales (simp add: Logging_def with_recorder_def call_def auth_view_def)

interpretation metrics_auth: confined "pl_Handler HTTPMetrics" "auth_view m p tok now" "auth_view m p tok now" for m p tok now
  by unfold_locales (simp add: HTTPMetrics_def Let_def with_recorder_def call_def auth_view_def)

interpretation sechdr_auth: confined "pl_Handler SecurityHeaders" "auth_view m p tok now" "auth_view m p tok now" for m p tok now
  by unfold_locales (simp add: SecurityHeaders_def auth_view_def)

interpretation cors_auth: confined "pl_Handler (CORS origins)" "auth_view m p tok now" "auth_view m p tok now" for origins m p tok now
  by unfold_locales (simp add: CORS_def cors_headers_def Let_def auth_view_def)

interpretation reqsec_auth: confined "pl_Handler RequestSecurity" "auth_view m p tok now" "auth_view m p tok now" for m p tok now
  by unfold_locales (simp add: RequestSecurity_def auth_view_def split: filter_verdict.split)

interpretation ippolicy_auth: confined "pl_Handler (IPPolicyEnforcer ex)" "auth_view m p tok now" "auth_view m p tok now" for ex :: "'x ext_api" and m p tok now
  by unfold_locales (simp add: IPPolicyEnforcer_def Let_def auth_view_def split: list.split)

interpretation authlimit_auth: confined "pl_Handler (AuthRateLimit ex l)" "auth_view m p tok now" "auth_view m p tok now" for ex :: "'x ext_api" and l m p tok now
  by unfold_locales (auto simp: AuthRateLimit_def auth_view_def dest: limiter_ask_result split: prod.split)

interpretation iplimit_auth: confined "pl_Handler (IPRateLimit ex l bypass)" "auth_view m p tok now" "auth_view m p tok now" for ex :: "'x ext_api" and l bypass m p tok now
  by unfold_locales (auto simp: IPRateLimit_def auth_view_def dest: limiter_ask_result split: prod.split)

text \<open>With no valid token, the JWT plugin calls nothing.\<close>

lemma jwt_blind:
  assumes "m \<noteq> ''OPTIONS''" and "\<not> isPublic p paths" and "tok = '''' \<or> (\<forall>c. Validator_Parse jl secret now tok \<noteq> Inr c)"
  shows "confined (pl_Handler (JWT jl secret paths)) (auth_view m p tok now) (\<lambda>_ _. False)"
  using assms by unfold_locales (auto simp: JWT_eq auth_view_def split: sum.split)


definition before_jwt :: "'x ext_api \<Rightarrow> Config \<Rightarrow> 'x Plugin list" where
  "before_jwt ex cfg =
     [CorrelationID ex, Tracing, Logging, HTTPMetrics, SecurityHeaders, CORS (cfg_AllowedOrigins cfg), RequestSecurity,
      IPPolicyEnforcer ex, AuthRateLimit ex (limiter_New (cfg_RateLimit cfg)),
      IPRateLimit ex (limiter_New (cfg_RateLimit cfg)) (cfg_BypassPrefixes cfg)]"

lemma gateway_handler_split:
  "gateway_handler ex jl cfg mux =
     Chain (pl_Handler (JWT jl (cfg_JWTSecret cfg) (cfg_PublicPaths cfg))
       (pl_Handler (UserRateLimit ex (limiter_New (cfg_RateLimit cfg))) mux)) (before_jwt ex cfg)"
  by (simp add: gateway_handler_def global_plugins_def before_jwt_def Let_def)

lemma before_jwt_confined: "confined (\<lambda>next. Chain next (before_jwt ex cfg)) (auth_view m p tok now) (auth_view m p tok now)"
  by (rule confined_Chain)
    (auto simp: before_jwt_def intro: correlation_auth.confined_axioms tracing_auth.confined_axioms logging_auth.confined_axioms
      metrics_auth.confined_axioms sechdr_auth.confined_axioms cors_auth.confined_axioms reqsec_auth.confined_axioms
      ippolicy_auth.confined_axioms authlimit_auth.confined_axioms iplimit_auth.confined_axioms)

text \<open>
  C25. The gateway as a whole is closed to requests without a valid token. Outside the public paths and for
  every method but OPTIONS, a request whose token is missing or does not validate is handled the same
  whatever stands behind the global plugins: the response, the logs, metrics and spans and every other part
  of the state after it are a function of the request alone, so no route, upstream, per-route plugin or
  backend is ever reached.
\<close>
theorem gateway_requires_token:
  assumes "rq_Method r \<noteq> ''OPTIONS''" and "\<not> isPublic (rq_Path r) (cfg_PublicPaths cfg)"
    and "jwt_token r = '''' \<or> (\<forall>c. Validator_Parse jl (cfg_JWTSecret cfg) (w_now w) (jwt_token r) \<noteq> Inr c)"
  shows "gateway_handler ex jl cfg mux r w = gateway_handler ex jl cfg mux' r w"
proof -
  let ?V = "auth_view (rq_Method r) (rq_Path r) (jwt_token r) (w_now w)"
  have "confined (\<lambda>next. Chain (pl_Handler (JWT jl (cfg_JWTSecret cfg) (cfg_PublicPaths cfg)) next) (before_jwt ex cfg)) ?V (\<lambda>_ _. False)"
    by (rule confined_compose [OF before_jwt_confined jwt_blind [OF assms]])
  from confined.blind [OF this] show ?thesis unfolding gateway_handler_split by (simp add: auth_view_def)
qed

section \<open>WebSocket upgrades\<close>

text \<open>From the tracing plugin on, every writer is wrapped.\<close>

interpretation correlation_any: confined "pl_Handler (CorrelationID ex)" "\<lambda>_ _. True" "\<lambda>_ _. True" for ex :: "'x ext_api"
  by unfold_locales (simp add: CorrelationID_def Let_def)

interpretation tracing_wraps: confined "pl_Handler Tracing" "\<lambda>_ _. True" wrapped
  by unfold_locales (simp add: Tracing_def Let_def wrapped_def)

interpretation logging_wraps: confined "pl_Handler Logging" wrapped wrapped
  by unfold_locales (simp add: Logging_def with_recorder_def call_def wrapped_def)

interpretation metrics_wraps: confined "pl_Handler HTTPMetrics" wrapped wrapped
  by unfold_locales (simp add: HTTPMetrics_def Let_def with_recorder_def call_def wrapped_def)

interpretation sechdr_wraps: confined "pl_Handler SecurityHeaders" wrapped wrapped
  by unfold_locales (simp add: SecurityHeaders_def wrapped_def)

interpretation cors_wraps: confined "pl_Handler (CORS origins)" wrapped wrapped for origins
  by unfold_locales (simp add: CORS_def cors_headers_def Let_def wrapped_def)

interpretation reqsec_wraps: confined "pl_Handler RequestSecurity" wrapped wrapped
  by unfold_locales (simp add: RequestSecurity_def wrapped_def split: filter_verdict.split)

interpretation ippolicy_wraps: confined "pl_Handler (IPPolicyEnforcer ex)" wrapped wrapped for ex :: "'x ext_api"
  by unfold_locales (simp add: IPPolicyEnforcer_def Let_def wrapped_def split: list.split)

interpretation authlimit_wraps: confined "pl_Handler (AuthRateLimit ex l)" wrapped wrapped for ex :: "'x ext_api" and l
  by unfold_locales (auto simp: AuthRateLimit_def wrapped_def dest: limiter_ask_result split: prod.split)

interpretation iplimit_wraps: confined "pl_Handler (IPRateLimit ex l bypass)" wrapped wrapped for ex :: "'x ext_api" and l bypass
  by unfold_locales (auto simp: IPRateLimit_def wrapped_def dest: limiter_ask_result split: prod.split)

interpretation jwt_wraps: confined "pl_Handler (JWT jl secret paths)" wrapped wrapped for jl secret paths
  by unfold_locales (auto simp: JWT_eq wrapped_def split: sum.split)

interpretation userlimit_wraps: confined "pl_Handler (UserRateLimit ex l)" wrapped wrapped for ex :: "'x ext_api" and l
  by unfold_locales (auto simp: UserRateLimit_def wrapped_def dest: limiter_ask_result split: prod.split option.split)

interpretation breaker_wraps: confined "pl_Handler (CircuitBreaker b)" wrapped wrapped for b
  by unfold_locales (auto simp: CircuitBreaker_def with_recorder_def call_def wrapped_def Let_def split: prod.split)

lemma gateway_wraps: "confined (gateway_handler ex jl cfg) (\<lambda>_ _. True) wrapped"
proof -
  let ?ps = "tl (tl (global_plugins ex jl cfg))"
  have "confined (\<lambda>next. Chain next ?ps) wrapped wrapped"
    by (rule confined_Chain)
      (auto simp: global_plugins_def Let_def intro: logging_wraps.confined_axioms metrics_wraps.confined_axioms sechdr_wraps.confined_axioms
        cors_wraps.confined_axioms reqsec_wraps.confined_axioms ippolicy_wraps.confined_axioms authlimit_wraps.confined_axioms
        iplimit_wraps.confined_axioms jwt_wraps.confined_axioms userlimit_wraps.confined_axioms)
  from confined_compose [OF correlation_any.confined_axioms confined_compose [OF tracing_wraps.confined_axioms this]]
  have "confined (\<lambda>next. pl_Handler (CorrelationID ex) (pl_Handler Tracing (Chain next ?ps))) (\<lambda>_ _. True) wrapped" .
  moreover have "(\<lambda>next. pl_Handler (CorrelationID ex) (pl_Handler Tracing (Chain next ?ps))) = gateway_handler ex jl cfg"
    by (rule ext) (simp add: gateway_handler_def global_plugins_def Let_def)
  ultimately show ?thesis by simp
qed

text \<open>Behind a wrapped writer the backend answers upgrades without using the tunnel.\<close>

lemma proxy_wrapped_tunnel:
  assumes "proxy_New na tunnel url = Some p" and "proxy_New na tunnel' url = Some p'" and "wrapped r w"
  shows "p r w = p' r w"
  using assms by (auto simp: proxy_New_def ws_ServeHTTP_def wrapped_def split: option.splits)

text \<open>
  C30. No WebSocket connection is ever made: the gateway built over any tunnel to the backend behaves, on
  every request and in every state, as the gateway built over any other. The writers that the global
  plugins wrap around the connection do not support hijacking, so an upgrade is always refused.
\<close>
theorem websocket_never_tunnelled:
  assumes "build_gateway ex na jl Sum256 tunnel mx promh cfg w0 = Some (h, w1)"
    and "build_gateway ex na jl Sum256 tunnel' mx promh cfg w0 = Some (h', w1')"
  shows "h r w = h' r w"
proof -
  obtain p p' where p: "proxy_New na tunnel (cfg_BackendURL cfg) = Some p" "proxy_New na tunnel' (cfg_BackendURL cfg) = Some p'"
    using assms by (auto simp: build_gateway_def split: option.splits)
  then obtain table cb where h: "h = gateway_handler ex jl cfg (serve_mux mx promh (router_ServeHTTP table (Chain p [CircuitBreaker cb])))"
    "h' = gateway_handler ex jl cfg (serve_mux mx promh (router_ServeHTTP table (Chain p' [CircuitBreaker cb])))"
    using assms by (auto simp: build_gateway_def breaker_factory_def Let_def split: prod.splits)
  have "pl_Handler (CircuitBreaker cb) p r' w' = pl_Handler (CircuitBreaker cb) p' r' w'" if "wrapped r' w'" for r' w'
    using breaker_wraps.agree [OF that, of p p'] proxy_wrapped_tunnel [OF p] by blast
  then have "serve_mux mx promh (router_ServeHTTP table (Chain p [CircuitBreaker cb])) r' w' =
      serve_mux mx promh (router_ServeHTTP table (Chain p' [CircuitBreaker cb])) r' w'" if "wrapped r' w'" for r' w'
    using that by (simp add: serve_mux_def router_ServeHTTP_def split: option.split)
  then show ?thesis unfolding h using confined.agree [OF gateway_wraps] by blast
qed


section \<open>Cross-origin requests by default\<close>

text \<open>
  Without \<open>ALLOWED_ORIGINS\<close> the gateway refuses every cross-origin request: the default, an asterisk, is
  compared with the origin like any other entry, so that every origin a browser can send gets 403 and goes
  no further.
\<close>
theorem default_origins_refuse_browsers:
  assumes "E ''ALLOWED_ORIGINS'' = ''''" and "header_Get (rq_Header r) ''Origin'' = origin" and "origin \<noteq> ''''" and "origin \<noteq> ''*''"
  shows "pl_Handler (CORS (cfg_AllowedOrigins (load_config cv E))) next r w = (rq_Header r, WriteHeader 403 w)"
proof -
  have "list_fields ''*'' = [''*'']" "TrimSpace ''*'' = ''*''" by code_simp+
  then have "map TrimSpace (cfg_AllowedOrigins (load_config cv E)) = [''*'']" using assms(1) by (simp add: load_config_def splitEnv_def env_def)
  then show ?thesis using assms(2-) unfolding CORS_def plugin_New_handler Let_def by (simp add: reply_def)
qed

section \<open>The properties at work\<close>

definition bare_config :: Config where
  "bare_config = load_config \<lparr> cv_ParseFloat = \<lambda>_. None, cv_ParseDuration = \<lambda>_. None \<rparr> (\<lambda>_. '''')"

theorem gateway_requires_token_witness:
  "gateway_handler some_ext some_jwt bare_config (answer 200) (blank_request\<lparr> rq_Header := [] \<rparr>) blank_world =
   gateway_handler some_ext some_jwt bare_config (answer 500) (blank_request\<lparr> rq_Header := [] \<rparr>) blank_world"
proof -
  let ?r = "blank_request\<lparr> rq_Header := [] \<rparr>"
  have "list_fields ''/health'' = [''/health'']" by code_simp
  then have "cfg_PublicPaths bare_config = [''/health'']" by (simp add: bare_config_def load_config_def splitEnv_def env_def)
  then have "rq_Method ?r \<noteq> ''OPTIONS''" "\<not> isPublic (rq_Path ?r) (cfg_PublicPaths bare_config)"
    by (simp_all add: blank_request_def isPublic_def HasSuffix_def)
  moreover have "jwt_token ?r = ''''"
    by (simp add: jwt_token_def header_Get_def extractBearer_def HasPrefix_def Cookie_def List.map_filter_def)
  ultimately show ?thesis
    using gateway_requires_token [of ?r bare_config some_jwt blank_world some_ext "answer 200" "answer 500"] by simp
qed

theorem websocket_never_tunnelled_witness:
  "fst (the (build_gateway some_ext some_net some_jwt (\<lambda>s. s) (\<lambda>_ _ x. x) (\<lambda>_. None) (answer 200) bare_config blank_world))
      (blank_request\<lparr> rq_Header := [(''Upgrade'', [''websocket''])] \<rparr>) blank_world =
   fst (the (build_gateway some_ext some_net some_jwt (\<lambda>s. s) (\<lambda>_ _ _. ()) (\<lambda>_. None) (answer 200) bare_config blank_world))
      (blank_request\<lparr> rq_Header := [(''Upgrade'', [''websocket''])] \<rparr>) blank_world"
proof -
  have "na_Parse some_net (cfg_BackendURL bare_config) \<noteq> None"
    by (simp add: some_net_def bare_config_def load_config_def env_def)
  then have "build_gateway some_ext some_net some_jwt (\<lambda>s. s) tun (\<lambda>_. None) (answer 200) bare_config blank_world \<noteq> None" for tun
    by (auto simp: build_gateway_def proxy_New_def Let_def split: prod.split)
  then obtain h w1 h' w1' where
    "build_gateway some_ext some_net some_jwt (\<lambda>s. s) (\<lambda>_ _ x. x) (\<lambda>_. None) (answer 200) bare_config blank_world = Some (h, w1)"
    "build_gateway some_ext some_net some_jwt (\<lambda>s. s) (\<lambda>_ _ _. ()) (\<lambda>_. None) (answer 200) bare_config blank_world = Some (h', w1')"
    by (metis not_None_eq surj_pair)
  from this websocket_never_tunnelled [OF this] show ?thesis by simp
qed

theorem default_origins_refuse_browsers_witness:
  "pl_Handler (CORS (cfg_AllowedOrigins bare_config)) (answer 200) (blank_request\<lparr> rq_Header := [(''Origin'', [''http://a''])] \<rparr>) blank_world =
     ([(''Origin'', [''http://a''])], WriteHeader 403 blank_world)"
proof -
  let ?r = "blank_request\<lparr> rq_Header := [(''Origin'', [''http://a''])] \<rparr>"
  have "CanonicalKey ''Origin'' = ''Origin''" by code_simp
  then have "header_Get (rq_Header ?r) ''Origin'' = ''http://a''" by (simp add: header_Get_def)
  from default_origins_refuse_browsers [OF _ this, of "\<lambda>_. []"] show ?thesis by (simp add: bare_config_def)
qed

end
