(* ===== verification/World_Typing.thy ===== *)
theory World_Typing
  imports Gateway_Correct
begin

text \<open>
  Type soundness of the assembled gateway. Handlers share objects that are reached by index: circuit breakers,
  per-route limiters and balancers in the world, and the writers that plugins wrap around the response. A type
  of the world (\<open>heap_ty\<close>) records what each object is: the configuration of a breaker, the limits of a
  limiter, the algorithm and endpoints of a balancer. Handlers are typed against it (\<open>wt_handler\<close>), and a
  type may grow when a reload allocates more (\<open>heap_ext\<close>).

  A well-typed handler keeps the type of the world and the configuration store, leaves the stack of writers as
  it found it, and never fails by reaching an object that is not there. The locale \<open>well_typed\<close> is the contract
  of a plugin; it holds of every plugin the gateway registers.
\<close>

section \<open>Types\<close>

datatype layer_ty = TRecorder | TRouterRecorder | TTransformer TransformConfig

fun layer_type :: "layer \<Rightarrow> layer_ty" where
  "layer_type (Recorder _ _) = TRecorder"
| "layer_type (RouterRecorder _) = TRouterRecorder"
| "layer_type (Transformer cfg _) = TTransformer cfg"

datatype balancer_ty = TRoundRobin "string list" | TWeighted "WeightedEndpoint list" | TLeastConn "string list"

fun wt_balancer :: "balancer \<Rightarrow> balancer_ty \<Rightarrow> bool" where
  "wt_balancer (RoundRobin rr) (TRoundRobin eps) \<longleftrightarrow> rr_endpoints rr = eps \<and> eps \<noteq> [] \<and> length eps < 2 ^ 63"
| "wt_balancer (Weighted wb) (TWeighted weps) \<longleftrightarrow> wb = NewWeighted weps \<and> weps \<noteq> []"
| "wt_balancer (LeastConnections lc) (TLeastConn eps) \<longleftrightarrow> lc_endpoints lc = eps \<and> lc_counts eps lc"
| "wt_balancer _ _ \<longleftrightarrow> False"

record heap_ty =
  ht_breakers :: "CircuitBreakerConfig list"
  ht_limits :: "(int \<times> int) list"
  ht_balancers :: "balancer_ty list"

definition wt_world :: "heap_ty \<Rightarrow> 'x world \<Rightarrow> bool" where
  "wt_world T w \<longleftrightarrow> map cb_cfg (w_breakers w) = ht_breakers T \<and>
     map (\<lambda>l. (rl_rps l, rl_burst l)) (w_limits w) = ht_limits T \<and> list_all2 wt_balancer (w_balancers w) (ht_balancers T)"

definition heap_ext :: "heap_ty \<Rightarrow> heap_ty \<Rightarrow> bool" where
  "heap_ext T T' \<longleftrightarrow> prefix (ht_breakers T) (ht_breakers T') \<and> prefix (ht_limits T) (ht_limits T') \<and>
     prefix (ht_balancers T) (ht_balancers T')"

text \<open>
  The panics that are left to a well-typed handler: an upstream that breaks off its response, and \<open>rand.IntN\<close>
  called with the overflowed sum of the weights of a traffic split.
\<close>

definition sound_panics :: "go_panic option set" where
  "sound_panics = {None, Some AbortHandler, Some InvalidArgument}"

definition wt_step :: "heap_ty \<Rightarrow> 'x world \<Rightarrow> 'x world \<Rightarrow> bool" where
  "wt_step T w w' \<longleftrightarrow> wt_world T w' \<and> w_store w' = w_store w \<and> w_panic w' \<in> sound_panics \<and>
     (w_panic w' = None \<longrightarrow> map layer_type (w_layers w') = map layer_type (w_layers w))"

definition wt_handler :: "heap_ty \<Rightarrow> 'x handler \<Rightarrow> bool" where
  "wt_handler T h \<longleftrightarrow> (\<forall>T' r w. heap_ext T T' \<and> wt_world T' w \<and> w_panic w = None \<longrightarrow> wt_step T' w (snd (h r w)))"

section \<open>Extension and frames\<close>

lemma heap_ext_refl [simp]: "heap_ext T T"
  by (simp add: heap_ext_def)

lemma heap_ext_trans [trans]: "heap_ext T T' \<Longrightarrow> heap_ext T' T'' \<Longrightarrow> heap_ext T T''"
  by (auto simp: heap_ext_def intro: prefix_order.trans)

lemma wt_handler_mono: "wt_handler T h \<Longrightarrow> heap_ext T T' \<Longrightarrow> wt_handler T' h"
  unfolding wt_handler_def using heap_ext_trans by blast

lemma wt_handlerI:
  "(\<And>T' r w. heap_ext T T' \<Longrightarrow> wt_world T' w \<Longrightarrow> w_panic w = None \<Longrightarrow> wt_step T' w (snd (h r w))) \<Longrightarrow> wt_handler T h"
  by (simp add: wt_handler_def)

lemma wt_handlerD:
  "wt_handler T h \<Longrightarrow> heap_ext T T' \<Longrightarrow> wt_world T' w \<Longrightarrow> w_panic w = None \<Longrightarrow> wt_step T' w (snd (h r w))"
  by (simp add: wt_handler_def)

lemma layers_WriteHeader_types [simp]: "map layer_type (fst (layers_WriteHeader code ls p)) = map layer_type ls"
  by (induction code ls p rule: layers_WriteHeader.induct) (auto simp: Let_def split: prod.split)

lemma layers_Write_types [simp]: "map layer_type (fst (layers_Write b ls p)) = map layer_type ls"
proof (induction b ls p rule: layers_Write.induct)
  case (4 b cfg wrote ls p)
  let ?lp = "if wrote then (Transformer cfg wrote # ls, p) else layers_WriteHeader 200 (Transformer cfg wrote # ls) p"
  have "map layer_type (tl (fst ?lp)) = map layer_type ls"
    using layers_WriteHeader_types [of 200 "Transformer cfg wrote # ls" p] by (auto simp: map_tl simp del: layers_WriteHeader.simps)
  with 4 show ?case by (simp add: Let_def case_prod_unfold del: layers_WriteHeader.simps)
qed (auto simp: Let_def split: prod.split)

text \<open>The parts of the world that carry types.\<close>

definition typed_part :: "'x world \<Rightarrow> circuitBreaker list \<times> route_limit list \<times> balancer list \<times> store \<times> layer_ty list" where
  "typed_part w = (w_breakers w, w_limits w, w_balancers w, w_store w, map layer_type (w_layers w))"

lemma typed_writers [simp]:
  "typed_part (WriteHeader c w) = typed_part w" "typed_part (Write_body b w) = typed_part w"
  "typed_part (set_header k v w) = typed_part w" "typed_part (WriteJSON c b w) = typed_part w"
  "typed_part (http_Error m c w) = typed_part w" "typed_part (cors_headers origin w) = typed_part w"
  "typed_part (upstream_unavailable w) = typed_part w" "typed_part (send_response c h b w) = typed_part w"
  "typed_part (reject_rate scope retry w) = typed_part w"
proof -
  show 1: "typed_part (WriteHeader c w) = typed_part w" for c and w :: "'x world"
    using layers_WriteHeader_types [of c "w_layers w" "w_resp w"]
    by (simp add: typed_part_def WriteHeader_def split: prod.split) (auto dest: arg_cong [of _ _ fst])
  show 2: "typed_part (Write_body b w) = typed_part w" for b and w :: "'x world"
    using layers_Write_types [of b "w_layers w" "w_resp w"]
    by (simp add: typed_part_def Write_body_def split: prod.split) (auto dest: arg_cong [of _ _ fst])
  show 3: "typed_part (set_header k v w) = typed_part w" for k v and w :: "'x world"
    by (simp add: typed_part_def set_header_def)
  show 4: "typed_part (WriteJSON c b w) = typed_part w" for c b and w :: "'x world"
    by (simp add: WriteJSON_def 1 2 3)
  have 5: "typed_part (w\<lparr> w_resp := p \<rparr>) = typed_part w" "typed_part (w\<lparr> w_prom := q \<rparr>) = typed_part w" for p q and w :: "'x world"
    by (simp_all add: typed_part_def)
  show "typed_part (http_Error m c w) = typed_part w" by (simp add: http_Error_def 1 2 3 5)
  show "typed_part (cors_headers origin w) = typed_part w" by (simp add: cors_headers_def 3)
  show "typed_part (upstream_unavailable w) = typed_part w" by (simp add: upstream_unavailable_def 4)
  show "typed_part (send_response c h b w) = typed_part w" by (simp add: send_response_def 1 2 5)
  show "typed_part (reject_rate scope retry w) = typed_part w" by (simp add: reject_rate_def 3 4 5)
qed

lemma typed_updates [simp]:
  "typed_part (w\<lparr> w_now := n \<rparr>) = typed_part w" "typed_part (w\<lparr> w_draws := d \<rparr>) = typed_part w"
  "typed_part (w\<lparr> w_ext := x \<rparr>) = typed_part w" "typed_part (w\<lparr> w_panic := p \<rparr>) = typed_part w"
  "typed_part (w\<lparr> w_prom := q \<rparr>) = typed_part w" "typed_part (w\<lparr> w_log := l \<rparr>) = typed_part w"
  "typed_part (w\<lparr> w_spans := spn \<rparr>) = typed_part w" "typed_part (w\<lparr> w_tracker := tk \<rparr>) = typed_part w"
  "typed_part (w\<lparr> w_health := hl \<rparr>) = typed_part w" "typed_part (w\<lparr> w_resp := rs \<rparr>) = typed_part w"
  by (simp_all add: typed_part_def)

lemma wt_step_frame:
  "wt_world T w \<Longrightarrow> typed_part w' = typed_part w \<Longrightarrow> w_panic w' \<in> sound_panics \<Longrightarrow> wt_step T w w'"
  by (simp add: wt_step_def wt_world_def typed_part_def)

lemma wt_world_frame: "typed_part w' = typed_part w \<Longrightarrow> wt_world T w' \<longleftrightarrow> wt_world T w"
  by (simp add: wt_world_def typed_part_def)

lemma wt_step_start:
  "typed_part w1 = typed_part w \<Longrightarrow> wt_step T w1 w2 \<Longrightarrow> wt_step T w w2"
  by (simp add: wt_step_def typed_part_def)

lemma wt_step_finish:
  "wt_step T w w1 \<Longrightarrow> typed_part w2 = typed_part w1 \<Longrightarrow> w_panic w2 = w_panic w1 \<Longrightarrow> wt_step T w w2"
  by (auto simp: wt_step_def wt_world_def typed_part_def)

lemma no_panic_sound [simp]: "None \<in> sound_panics" "Some AbortHandler \<in> sound_panics" "Some InvalidArgument \<in> sound_panics"
  by (simp_all add: sound_panics_def)

section \<open>Plugins\<close>

locale well_typed =
  fixes H :: "'x handler \<Rightarrow> 'x handler"
    and T :: heap_ty
  assumes typed: "heap_ext T T' \<Longrightarrow> wt_handler T' next \<Longrightarrow> wt_handler T' (H next)"

lemma well_typed_Chain:
  "(\<And>p. p \<in> set ps \<Longrightarrow> well_typed (pl_Handler p) T) \<Longrightarrow> wt_handler T next \<Longrightarrow> wt_handler T (Chain next ps)"
  by (induction ps) (auto intro: well_typed.typed [OF _ heap_ext_refl])

lemma well_typed_mono: "well_typed H T \<Longrightarrow> heap_ext T T' \<Longrightarrow> well_typed H T'"
  unfolding well_typed_def using heap_ext_trans by blast

text \<open>
  What a plugin makes of a request that only looks at it: an answer of its own, or the answer of the next
  handler, called on a world with the same types.
\<close>

inductive relays :: "'x handler \<Rightarrow> 'x world \<Rightarrow> 'x world \<Rightarrow> bool" for "next" w where
  passes_on: "typed_part w1 = typed_part w \<Longrightarrow> w_panic w1 = w_panic w \<Longrightarrow> relays next w (snd (next r w1))"
| answers: "typed_part w1 = typed_part w \<Longrightarrow> w_panic w1 = w_panic w \<Longrightarrow> relays next w w1"

lemma well_typed_filter:
  assumes "\<And>next r w. relays next w (snd (H next r w))"
  shows "well_typed H T"
proof
  fix T' and "next" :: "'a handler"
  assume n: "wt_handler T' next"
  show "wt_handler T' (H next)"
  proof (rule wt_handlerI)
    fix T'' r and w :: "'a world"
    assume w: "heap_ext T' T''" "wt_world T'' w" "w_panic w = None"
    from assms [of "next" w r] show "wt_step T'' w (snd (H next r w))"
    proof cases
      case (passes_on w1 r1)
      then show ?thesis
        using wt_step_start [OF passes_on(2) wt_handlerD [OF n w(1), of w1 r1]] w by (simp add: wt_world_frame [OF passes_on(2)])
    next
      case answers
      then show ?thesis using w by (simp add: wt_step_frame)
    qed
  qed
qed

lemma limiter_ask_typed: "typed_part (snd (limiter_ask ex ask w)) = typed_part w" "w_panic (snd (limiter_ask ex ask w)) = w_panic w"
  by (simp_all add: limiter_ask_def typed_part_def split: prod.split)

lemma reject_rate_panic [simp]: "w_panic (reject_rate scope retry w) = w_panic w"
  by (simp add: reject_rate_def)

lemma cors_headers_panic [simp]: "w_panic (cors_headers origin w) = w_panic w"
  by (simp add: cors_headers_def)

lemma reply_snd [simp]: "snd (reply r w) = w"
  by (simp add: reply_def)

interpretation correlation_wt: well_typed "pl_Handler (CorrelationID ex)" T for ex :: "'x ext_api" and T
  by (rule well_typed_filter) (auto simp: CorrelationID_def Let_def intro!: passes_on)

interpretation sechdr_wt: well_typed "pl_Handler SecurityHeaders" T for T
  by (rule well_typed_filter) (auto simp: SecurityHeaders_def intro!: passes_on)

interpretation reqsec_wt: well_typed "pl_Handler RequestSecurity" T for T
  by (rule well_typed_filter) (auto simp: RequestSecurity_def intro: passes_on answers split: filter_verdict.split)

interpretation cors_wt: well_typed "pl_Handler (CORS origins)" T for origins T
  by (rule well_typed_filter) (auto simp: CORS_def Let_def intro: passes_on answers)

interpretation ippolicy_wt: well_typed "pl_Handler (IPPolicyEnforcer ex)" T for ex :: "'x ext_api" and T
  by (rule well_typed_filter) (auto simp: IPPolicyEnforcer_def Let_def intro: passes_on answers split: list.split)

interpretation jwt_wt: well_typed "pl_Handler (JWT jl secret paths)" T for jl secret paths T
  by (rule well_typed_filter) (auto simp: JWT_eq intro: passes_on answers split: sum.split)

interpretation apikey_wt: well_typed "pl_Handler (APIKeyAuth Sum256 hn)" T for Sum256 hn T
  by (rule well_typed_filter) (auto simp: APIKeyAuth_def Let_def intro: passes_on answers split: option.split)

interpretation iplimit_wt: well_typed "pl_Handler (IPRateLimit ex l bypass)" T for ex :: "'x ext_api" and l bypass T
  by (rule well_typed_filter)
    (auto simp: IPRateLimit_def case_prod_unfold Let_def limiter_ask_typed intro: passes_on answers)

interpretation authlimit_wt: well_typed "pl_Handler (AuthRateLimit ex l)" T for ex :: "'x ext_api" and l T
  by (rule well_typed_filter)
    (auto simp: AuthRateLimit_def case_prod_unfold Let_def limiter_ask_typed intro: passes_on answers)

interpretation userlimit_wt: well_typed "pl_Handler (UserRateLimit ex l)" T for ex :: "'x ext_api" and l T
  by (rule well_typed_filter)
    (auto simp: UserRateLimit_def case_prod_unfold Let_def limiter_ask_typed intro: passes_on answers split: option.split)

text \<open>The plugins that wrap a writer around the call.\<close>

lemma wt_pushed:
  assumes n: "wt_handler T next" and w: "heap_ext T T'" "wt_world T' w" "w_panic w = None" and res: "w1 = snd (next r (push_layer l w))"
  shows "wt_world T' w1 \<and> w_store w1 = w_store w \<and> w_panic w1 \<in> sound_panics \<and>
    (w_panic w1 = None \<longrightarrow> map layer_type (w_layers w1) = layer_type l # map layer_type (w_layers w))"
proof -
  have "wt_world T' (push_layer l w)" using w(2) by (simp add: wt_world_def push_layer_def)
  from wt_handlerD [OF n w(1) this, of r] w(3) show ?thesis by (simp add: res wt_step_def)
qed

lemma wt_popped:
  assumes "wt_handler T next" "heap_ext T T'" "wt_world T' w" "w_panic w = None" and "w1 = snd (next r (push_layer l w))"
    and "w_panic w1 = None" and "typed_part w2 = typed_part (pop_layer w1)" and "w_panic w2 = None"
  shows "wt_step T' w w2"
  using wt_pushed [OF assms(1-5)] assms(6-8) by (auto simp: wt_step_def wt_world_def typed_part_def pop_layer_def map_tl)

lemma wt_with_recorder:
  assumes "wt_handler T next" "heap_ext T T'" "wt_world T' w" "w_panic w = None"
    and k: "\<And>st n h w1. wt_world T' w1 \<Longrightarrow> w_panic w1 = None \<Longrightarrow> wt_step T' w1 (snd (k (st, n) h w1))"
  shows "wt_step T' w (snd (with_recorder next r w k))"
proof -
  obtain h w1 where n: "next r (push_layer (Recorder 200 0) w) = (h, w1)" by force
  note p = wt_pushed [OF assms(1-4), of w1 r "Recorder 200 0"]
  show ?thesis
  proof (cases "w_panic w1")
    case None
    have "wt_step T' w (pop_layer w1)"
      by (rule wt_popped [OF assms(1-4), of w1 r "Recorder 200 0"]) (simp_all add: n None)
    moreover obtain st m where "recorded (w_layers w1) = (st, m)" by force
    moreover have "wt_step T' (pop_layer w1) (snd (k (st, m) h (pop_layer w1)))"
      by (rule k) (use calculation(1) None in \<open>simp_all add: wt_step_def\<close>)
    ultimately show ?thesis using None by (simp add: with_recorder_def call_def n wt_step_def)
  next
    case (Some x)
    with p show ?thesis by (simp add: with_recorder_def call_def n wt_step_def)
  qed
qed

interpretation logging_wt: well_typed "pl_Handler Logging" T for T
proof
  fix T' and "next" :: "'a handler"
  assume n: "wt_handler T' next"
  show "wt_handler T' (pl_Handler Logging next)"
    unfolding Logging_def plugin_New_handler
    by (rule wt_handlerI, rule wt_with_recorder [OF n]) (simp_all add: wt_step_frame)
qed

interpretation metrics_wt: well_typed "pl_Handler HTTPMetrics" T for T
proof
  fix T' and "next" :: "'a handler"
  assume n: "wt_handler T' next"
  show "wt_handler T' (pl_Handler HTTPMetrics next)"
    unfolding HTTPMetrics_def plugin_New_handler Let_def
    by (rule wt_handlerI, rule wt_step_start [OF typed_updates(5)], rule wt_with_recorder [OF n])
      (simp_all add: wt_world_frame [OF typed_updates(5)] wt_step_frame)
qed

interpretation tracing_wt: well_typed "pl_Handler Tracing" T for T
proof
  fix T' and "next" :: "'a handler"
  assume n: "wt_handler T' next"
  show "wt_handler T' (pl_Handler Tracing next)"
  proof (rule wt_handlerI)
    fix T'' r and w :: "'a world"
    assume w: "heap_ext T' T''" "wt_world T'' w" "w_panic w = None"
    obtain h w1 where r: "next r (push_layer (Recorder 200 0) w) = (h, w1)" by force
    show "wt_step T'' w (snd (pl_Handler Tracing next r w))"
    proof (cases "w_panic w1")
      case None
      then show ?thesis
        by (simp add: Tracing_def Let_def r) (rule wt_popped [OF n w, of w1 r "Recorder 200 0"], simp_all add: r)
    next
      case (Some p)
      with wt_pushed [OF n w, of w1 r "Recorder 200 0"] show ?thesis
        by (simp add: Tracing_def Let_def r wt_step_def) (simp add: wt_world_def)
    qed
  qed
qed

interpretation transform_wt: well_typed "pl_Handler (Transform cfg)" T for cfg T
proof
  fix T' and "next" :: "'a handler"
  assume n: "wt_handler T' next"
  show "wt_handler T' (pl_Handler (Transform cfg) next)"
  proof (rule wt_handlerI)
    fix T'' r and w :: "'a world"
    assume w: "heap_ext T' T''" "wt_world T'' w" "w_panic w = None"
    have plain: "wt_step T'' w (snd (next r2 w))" for r2 by (rule wt_handlerD [OF n w])
    have wrapped: "wt_step T'' w (if w_panic w1 = None then pop_layer w1 else w1)"
      if "w1 = snd (next r2 (push_layer (Transformer cfg False) w))" for w1 r2
      using wt_pushed [OF n w that] wt_popped [OF n w that] by (auto simp: wt_step_def)
    show "wt_step T'' w (snd (pl_Handler (Transform cfg) next r w))"
      unfolding Transform_def plugin_New_handler Let_def case_prod_unfold using plain wrapped by simp
  qed
qed

text \<open>The plugins with state of their own are well typed where that state is.\<close>

lemma heap_ext_length:
  assumes "heap_ext T T'"
  shows "length (ht_breakers T) \<le> length (ht_breakers T')" "length (ht_limits T) \<le> length (ht_limits T')"
    "length (ht_balancers T) \<le> length (ht_balancers T')"
  using assms by (simp_all add: heap_ext_def prefix_length_le)

lemma wt_world_length:
  assumes "wt_world T w"
  shows "length (w_breakers w) = length (ht_breakers T)" "length (w_limits w) = length (ht_limits T)"
    "length (w_balancers w) = length (ht_balancers T)"
  using assms unfolding wt_world_def by (metis length_map, metis length_map, blast dest: list_all2_lengthD)

lemma wt_set_breaker:
  assumes "wt_world T w" "w_panic w = None" "cb_cfg cb = cb_cfg (w_breakers w ! b)"
  shows "wt_step T w (w\<lparr> w_breakers := (w_breakers w)[b := cb] \<rparr>)"
proof -
  have "map cb_cfg ((w_breakers w)[b := cb]) = map cb_cfg (w_breakers w)"
    using assms(3) by (cases "b < length (w_breakers w)") (auto simp: map_update list_update_same_conv list_update_beyond)
  then show ?thesis using assms(1,2) by (simp add: wt_step_def wt_world_def)
qed

lemma wt_step_trans: "wt_step T w w1 \<Longrightarrow> w_panic w1 = None \<Longrightarrow> wt_step T w1 w2 \<Longrightarrow> wt_step T w w2"
  by (simp add: wt_step_def)

lemma breaker_wt: "well_typed (pl_Handler (CircuitBreaker b)) T"
proof
  fix T' and "next" :: "'a handler"
  assume n: "wt_handler T' next"
  show "wt_handler T' (pl_Handler (CircuitBreaker b) next)"
  proof (rule wt_handlerI)
    fix T'' r and w :: "'a world"
    assume w: "heap_ext T' T''" "wt_world T'' w" "w_panic w = None"
    obtain ok cb where al: "cb_allow (w_now w) (w_breakers w ! b) = (ok, cb)" by force
    let ?w1 = "w\<lparr> w_breakers := (w_breakers w)[b := cb] \<rparr>"
    have 1: "wt_step T'' w ?w1" by (rule wt_set_breaker [OF w(2,3) cb_allow_cfg [OF al]])
    then have w1: "wt_world T'' ?w1" "w_panic ?w1 = None" using w(3) by (simp_all add: wt_step_def)
    have "wt_step T'' ?w1 (snd (with_recorder next r ?w1 (\<lambda>(st, _) h w2.
        (h, w2\<lparr> w_breakers := (w_breakers w2)[b := cb_record (w_now w2) (st \<ge> 500) (w_breakers w2 ! b)] \<rparr>))))"
      by (rule wt_with_recorder [OF n w(1) w1]) (simp add: wt_set_breaker)
    moreover have "wt_step T'' ?w1 (WriteJSON c body ?w1)" for c body using w1 by (simp add: wt_step_frame)
    ultimately show "wt_step T'' w (snd (pl_Handler (CircuitBreaker b) next r w))"
      using wt_step_trans [OF 1 w1(2)] by (simp add: CircuitBreaker_def al Let_def)
  qed
qed

lemma getLimiter_wt:
  assumes "wt_world T w" "w_panic w = None" "i < length (ht_limits T)"
  shows "wt_step T w (snd (getLimiter ex i key w)) \<and> w_panic (snd (getLimiter ex i key w)) = None"
proof -
  have i: "i < length (w_limits w)" using assms(1,3) wt_world_length(2) by metis
  have same: "map (\<lambda>l. (rl_rps l, rl_burst l)) ((w_limits w)[i := (w_limits w ! i)\<lparr> rl_clients := c \<rparr>]) =
      map (\<lambda>l. (rl_rps l, rl_burst l)) (w_limits w)" for c
    using i by (simp add: map_update list_update_same_conv)
  then show ?thesis using assms(1,2) by (auto simp: getLimiter_def Let_def wt_step_def wt_world_def split: prod.split option.split)
qed

lemma route_limit_wt:
  assumes "i < length (ht_limits T)"
  shows "well_typed (pl_Handler (RouteRateLimit ex i)) T"
proof
  fix T' and "next" :: "'a handler"
  assume T': "heap_ext T T'" and n: "wt_handler T' next"
  show "wt_handler T' (pl_Handler (RouteRateLimit ex i) next)"
  proof (rule wt_handlerI)
    fix T'' r and w :: "'a world"
    assume w: "heap_ext T' T''" "wt_world T'' w" "w_panic w = None"
    have i: "i < length (ht_limits T'')" using assms heap_ext_length(2) [OF heap_ext_trans [OF T' w(1)]] by simp
    obtain h w1 where g: "getLimiter ex i (ClientIP r) w = (h, w1)" by force
    have 1: "wt_step T'' w w1" "w_panic w1 = None" using getLimiter_wt [OF w(2,3) i, of ex "ClientIP r"] by (simp_all add: g)
    obtain ok x where a: "ex_Allow ex h (w_now w1) (w_ext w1) = (ok, x)" by force
    have "wt_world T'' w1" using 1(1) by (simp add: wt_step_def)
    then have "wt_step T'' w1 (w1\<lparr> w_ext := x \<rparr>)" using 1(2) by (simp add: wt_step_frame)
    with wt_step_trans [OF 1] have 2: "wt_step T'' w (w1\<lparr> w_ext := x \<rparr>)" by blast
    then have w2: "wt_world T'' (w1\<lparr> w_ext := x \<rparr>)" by (simp add: wt_step_def)
    have "wt_step T'' (w1\<lparr> w_ext := x \<rparr>) (WriteJSON c b (w1\<lparr> w_ext := x \<rparr>))" for c b
      by (rule wt_step_frame [OF w2]) (simp_all add: 1(2))
    with wt_handlerD [OF n w(1) w2] wt_step_trans [OF 2] 1(2)
    show "wt_step T'' w (snd (pl_Handler (RouteRateLimit ex i) next r w))"
      by (simp add: RouteRateLimit_def g a Let_def)
  qed
qed

section \<open>Proxies, balancers and the traffic split\<close>

lemma reverse_proxy_wt: "wt_handler T (reverse_proxy na g d m)"
  by (rule wt_handlerI, rule wt_step_frame)
    (auto simp: reverse_proxy_def Let_def upstream_unavailable_def send_response_def split: prod.split rt_result.split)

lemma proxy_wt: "proxy_New na tunnel url = Some p \<Longrightarrow> wt_handler T p"
proof (rule wt_handlerI)
  fix T' r and w :: "'a world"
  assume p: "proxy_New na tunnel url = Some p" and w: "heap_ext T T'" "wt_world T' w" "w_panic w = None"
  then obtain target where t: "p = (\<lambda>r w. if isWebSocketUpgrade r then ws_ServeHTTP tunnel target r w
      else reverse_proxy na False (backend_director (na_Inject na) target) modify_response r w)"
    by (auto simp: proxy_New_def split: option.splits)
  have "wt_step T' w (snd (ws_ServeHTTP tunnel target r w))"
    by (rule wt_step_frame [OF w(2)]) (simp_all add: ws_ServeHTTP_def Let_def w(3))
  with wt_handlerD [OF reverse_proxy_wt w] show "wt_step T' w (snd (p r w))" by (simp add: t)
qed

lemma rr_loop_endpoints: "rr_loop n h rr = (x, rr') \<Longrightarrow> rr_endpoints rr' = rr_endpoints rr"
  by (induction n arbitrary: rr) (auto simp: Let_def split: if_splits)

lemma lc_scan_finds:
  "set eps \<subseteq> dom (map_of conns) \<Longrightarrow> \<exists>b. lc_scan h conns eps best c = Inr b \<and> (b = best \<or> b \<in> set eps)"
proof (induction eps arbitrary: best c)
  case (Cons ep eps)
  then have ih: "\<exists>b. lc_scan h conns eps best' c' = Inr b \<and> (b = best' \<or> b \<in> set eps)" for best' c' by simp
  from Cons.prems obtain n where "map_of conns ep = Some n" by auto
  then show ?case using ih [of best c] ih [of ep n] by auto
qed simp

lemma lc_Next_wt:
  assumes "lc_counts eps lc" "lc_endpoints lc = eps" "lc_Next h lc = (x, lc')"
  shows "(\<exists>ep. x = Inr ep) \<and> lc_endpoints lc' = eps \<and> lc_counts eps lc'"
proof -
  have dom: "set eps = dom (map_of (lc_conns lc))" using assms(1) by (simp add: lc_counts_def)
  obtain b where b: "lc_scan h (lc_conns lc) (lc_endpoints lc) '''' (- 1) = Inr b" "b = '''' \<or> b \<in> set eps"
    using lc_scan_finds [of "lc_endpoints lc" "lc_conns lc"] dom assms(2) by blast
  let ?best = "if b = '''' \<and> lc_endpoints lc \<noteq> [] then hd (lc_endpoints lc) else b"
  have "?best = '''' \<or> ?best \<in> set eps" using b(2) assms(2) by auto
  then consider "?best = ''''" | c where "?best \<noteq> ''''" "map_of (lc_conns lc) ?best = Some c" using dom by blast
  then show ?thesis
  proof cases
    case 1
    then show ?thesis using assms b(1) by (auto simp: lc_Next_def Let_def)
  next
    case 2
    have w: "wrap64 (wrap64 y) = wrap64 y" for y using wrap64_wrap64_add [of y 0] by simp
    have lc': "lc' = lc\<lparr> lc_conns := gm_put ?best (wrap64 (c + 1)) (lc_conns lc) \<rparr>" "x = Inr ?best"
      using assms(3) b(1) 2 by (auto simp: lc_Next_def Let_def split: if_splits)
    have "lc_counts eps lc'" using assms(1) 2 w dom unfolding lc' lc_counts_def by auto
    with lc' assms(2) show ?thesis by simp
  qed
qed

lemma lc_Done_wt: "lc_counts eps lc \<Longrightarrow> lc_counts eps (lc_Done ep lc) \<and> lc_endpoints (lc_Done ep lc) = lc_endpoints lc"
  using wrap64_wrap64_add [of _ 0] by (auto simp: lc_counts_def lc_Done_def split: option.split if_splits)

lemma balancer_Next_wt:
  assumes "wt_balancer b t" "balancer_Next IntN h b = (x, b')"
  shows "wt_balancer b' t \<and> (\<exists>ep. x = Inr ep)"
proof (cases b)
  case (RoundRobin rr)
  with assms(1) obtain eps where t: "t = TRoundRobin eps" by (cases t) auto
  have "rr_n rr \<noteq> 0" using assms(1) RoundRobin t rr_n_unat [of rr] by (auto simp: unat_eq_zero)
  with assms RoundRobin t show ?thesis
    by (auto simp: balancer_Next_def rr_Next_def split: prod.splits option.splits if_splits dest!: rr_loop_endpoints)
next
  case (Weighted wb)
  with assms(1) obtain weps where t: "t = TWeighted weps" by (cases t) auto
  have "fst (wb_eligible h wb) \<noteq> []"
    using assms(1) Weighted t by (auto simp: wb_eligible_def NewWeighted_def Let_def split: option.split)
  with assms Weighted show ?thesis
    by (auto simp: balancer_Next_def wb_Next_def Let_def case_prod_unfold split: if_splits option.splits)
next
  case (LeastConnections lc)
  with assms(1) obtain eps where t: "t = TLeastConn eps" by (cases t) auto
  obtain y lc' where n: "lc_Next h lc = (y, lc')" by force
  with lc_Next_wt [OF _ _ n, of eps] assms LeastConnections t show ?thesis by (auto simp: balancer_Next_def)
qed

lemma balancer_Done_wt: "wt_balancer b t \<Longrightarrow> wt_balancer (balancer_Done ep b) t"
  by (cases b; cases t) (auto simp: balancer_Done_def lc_Done_wt)

lemma new_balancer_wt:
  assumes "length (u_Endpoints u) > 1" "length (u_Endpoints u) < 2 ^ 63"
  shows "\<exists>t. wt_balancer (new_balancer u) t"
proof -
  let ?eps = "u_Endpoints u"
  have ne: "?eps \<noteq> []" using assms(1) by auto
  have "wt_balancer (RoundRobin (NewRoundRobin ?eps)) (TRoundRobin ?eps)" using assms ne by (simp add: NewRoundRobin_def)
  moreover have "wt_balancer (Weighted (NewWeighted (endpoint_weights ?eps))) (TWeighted (endpoint_weights ?eps))"
    using ne by (simp add: endpoint_weights_def Let_def enumerate_eq_zip)
  moreover have "wt_balancer (LeastConnections (NewLeastConn ?eps)) (TLeastConn ?eps)"
    by (auto simp: lc_counts_def NewLeastConn_fields wrap64_def split: if_splits)
  ultimately show ?thesis unfolding new_balancer_def by (simp only: split: if_split) blast
qed

lemma wt_set_balancer:
  assumes "wt_world T w" "i < length (ht_balancers T)" "wt_balancer b (ht_balancers T ! i)"
  shows "wt_world T (w\<lparr> w_balancers := (w_balancers w)[i := b] \<rparr>)"
  using assms list_all2_update_cong [of wt_balancer "w_balancers w" "ht_balancers T" b "ht_balancers T ! i" i]
  by (simp add: wt_world_def)

lemma lb_handler_wt:
  assumes i: "i < length (ht_balancers T)" and pr: "\<And>ep p. map_of proxies ep = Some p \<Longrightarrow> wt_handler T p"
  shows "wt_handler T (lb_handler ex checker i proxies)"
proof (rule wt_handlerI)
  fix T' r and w :: "'a world"
  assume w: "heap_ext T T'" "wt_world T' w" "w_panic w = None"
  let ?h = "if checker then Some (\<lambda>u. IsHealthy u (w_health w)) else None"
  obtain x b where n: "balancer_Next (ex_IntN ex (w_draws w)) ?h (w_balancers w ! i) = (x, b)" by force
  have i': "i < length (ht_balancers T')" using i heap_ext_length(3) [OF w(1)] by simp
  have "wt_balancer (w_balancers w ! i) (ht_balancers T' ! i)"
    using w(2) i' wt_world_length(3) [OF w(2)] by (simp add: wt_world_def list_all2_nthD)
  from balancer_Next_wt [OF this n] obtain ep where b: "wt_balancer b (ht_balancers T' ! i)" and ep: "x = Inr ep" by blast
  let ?w1 = "w\<lparr> w_balancers := (w_balancers w)[i := b], w_draws := Suc (w_draws w) \<rparr>"
  have "wt_world T' ?w1" using wt_set_balancer [OF w(2) i' b] by (simp add: wt_world_def)
  then have 1: "wt_step T' w ?w1" using w(3) by (simp add: wt_step_def)
  then have w1: "wt_world T' ?w1" "w_panic ?w1 = None" using w(3) by (simp_all add: wt_step_def)
  have written: "wt_step T' w (WriteJSON c body ?w1)" "wt_step T' w (WriteHeader c ?w1)" for c body
    by (rule wt_step_finish [OF 1], simp_all)+
  have proxied: "wt_step T' w (w2\<lparr> w_balancers := (w_balancers w2)[i := balancer_Done ep (w_balancers w2 ! i)] \<rparr>)"
    if "map_of proxies ep = Some p" "w2 = snd (p r ?w1)" for p w2
  proof -
    have 2: "wt_step T' w w2" using wt_step_trans [OF 1 w1(2) wt_handlerD [OF pr [OF that(1)] w(1) w1]] that(2) by simp
    then have "wt_world T' w2" by (simp add: wt_step_def)
    then have "wt_balancer (w_balancers w2 ! i) (ht_balancers T' ! i)"
      using i' wt_world_length(3) [of T' w2] by (simp add: wt_world_def list_all2_nthD)
    from wt_set_balancer [OF \<open>wt_world T' w2\<close> i' balancer_Done_wt [OF this]] 2 show ?thesis by (simp add: wt_step_def)
  qed
  show "wt_step T' w (snd (lb_handler ex checker i proxies r w))"
    unfolding lb_handler_def Let_def n prod.case ep sum.case
    using written proxied by (simp add: case_prod_unfold split: option.split)
qed

lemma split_handler_wt:
  assumes ups: "\<And>k h. map_of ups k = Some h \<Longrightarrow> wt_handler T h"
  shows "wt_handler T (buildTrafficSplitHandler ex checker wus ups)"
proof (rule wt_handlerI)
  fix T' r and w :: "'a world"
  assume w: "heap_ext T T'" "wt_world T' w" "w_panic w = None"
  let ?hs = "split_entries wus ups" and ?w1 = "w\<lparr> w_draws := Suc (w_draws w) \<rparr>"
  let ?el = "split_eligible ex checker (split_entries wus ups) w" and ?IntN = "ex_IntN ex (w_draws w)"
  have w1: "wt_world T' ?w1" "w_panic ?w1 = None" using w by (simp_all add: wt_world_frame [OF typed_updates(2)])
  have panic: "wt_step T' w (?w1\<lparr> w_panic := Some p \<rparr>)" if "split_choose ?IntN ?el = Inl p" "?hs \<noteq> []" for p
  proof -
    have "p = InvalidArgument"
      using that by (auto simp: split_choose_def split_eligible_def Let_def split: if_splits option.splits)
    then show ?thesis by (intro wt_step_frame [OF w(2)]) simp_all
  qed
  have choose: "wt_step T' w (snd (wh_handler h r ?w1))" if "split_choose ?IntN ?el = Inr h" "?hs \<noteq> []" for h
  proof -
    have "h \<in> set (fst ?el)"
      using that split.scan_mem [of _ _ "fst ?el" h] by (auto simp: split_choose_def split: if_splits option.splits)
    then have "h \<in> set ?hs" by (auto simp: split_eligible_def Let_def split: if_splits)
    then obtain k where "map_of ups k = Some (wh_handler h)" by (auto simp: split_entries_def List.map_filter_def)
    from wt_handlerD [OF ups [OF this] w(1) w1] show ?thesis by (rule wt_step_start [OF typed_updates(2)])
  qed
  have "wt_step T' w (WriteJSON c body w)" for c body by (rule wt_step_frame [OF w(2)]) (simp_all add: w(3))
  with panic choose show "wt_step T' w (snd (buildTrafficSplitHandler ex checker wus ups r w))"
    by (simp add: buildTrafficSplitHandler_def Let_def split: sum.split)
qed

lemma strip_handler_wt: "wt_handler T h \<Longrightarrow> wt_handler T (strip_handler pre h)"
  by (simp add: wt_handler_def strip_handler_def)

lemma track_handler_wt:
  assumes n: "wt_handler T h"
  shows "wt_handler T (track_handler rid name h)"
proof (rule wt_handlerI)
  fix T' r and w :: "'a world"
  assume w: "heap_ext T T'" "wt_world T' w" "w_panic w = None"
  obtain hd' w1 where r: "h r (push_layer (RouterRecorder 200) w) = (hd', w1)" by force
  note p = wt_pushed [OF n w, of w1 r "RouterRecorder 200"]
  show "wt_step T' w (snd (track_handler rid name h r w))"
  proof (cases "w_panic w1")
    case None
    then show ?thesis
      by (simp add: track_handler_def call_def Let_def r) (rule wt_popped [OF n w, of w1 r "RouterRecorder 200"], simp_all add: r)
  next
    case (Some x)
    with p show ?thesis by (simp add: track_handler_def call_def r wt_step_def)
  qed
qed

section \<open>Building handlers\<close>

text \<open>What building may do to the world: allocate typed objects, and nothing to the store.\<close>

definition allocates :: "heap_ty \<Rightarrow> 'x world \<Rightarrow> heap_ty \<Rightarrow> 'x world \<Rightarrow> bool" where
  "allocates T w T' w' \<longleftrightarrow> heap_ext T T' \<and> wt_world T' w' \<and> w_store w' = w_store w \<and> w_panic w' = w_panic w \<and> w_layers w' = w_layers w"

lemma allocates_refl: "wt_world T w \<Longrightarrow> allocates T w T w"
  by (simp add: allocates_def)

lemma allocates_trans [trans]: "allocates T w T1 w1 \<Longrightarrow> allocates T1 w1 T2 w2 \<Longrightarrow> allocates T w T2 w2"
  by (auto simp: allocates_def intro: heap_ext_trans)

definition wt_factory :: "'x Factory \<Rightarrow> bool" where
  "wt_factory f \<longleftrightarrow> (\<forall>T c w. wt_world T w \<longrightarrow>
     (\<exists>T'. allocates T w T' (snd (f c w)) \<and> (\<forall>p. fst (f c w) = Some p \<longrightarrow> well_typed (pl_Handler p) T')))"

definition wt_registry :: "'x Registry \<Rightarrow> bool" where
  "wt_registry reg \<longleftrightarrow> (\<forall>name f. map_of reg name = Some f \<longrightarrow> wt_factory f)"

lemma stateless_wt: "(\<And>c T. well_typed (pl_Handler (mk c)) T) \<Longrightarrow> wt_factory (stateless mk)"
  by (auto simp: wt_factory_def stateless_def intro: allocates_refl)

lemma breaker_factory_wt: "wt_factory breaker_factory"
  unfolding wt_factory_def
proof (intro allI impI)
  fix T c and w :: "'a world"
  assume "wt_world T w"
  then have "allocates T w (T\<lparr> ht_breakers := ht_breakers T @ [DefaultCircuitBreakerConfig] \<rparr>) (snd (breaker_factory c w))"
    by (simp add: allocates_def breaker_factory_def wt_world_def heap_ext_def new_breaker_def)
  then show "\<exists>T'. allocates T w T' (snd (breaker_factory c w)) \<and> (\<forall>p. fst (breaker_factory c w) = Some p \<longrightarrow> well_typed (pl_Handler p) T')"
    by (intro exI conjI allI impI) (auto simp: breaker_factory_def breaker_wt)
qed

lemma route_limit_factory_wt: "wt_factory (route_limit_factory ex)"
  unfolding wt_factory_def
proof (intro allI impI)
  fix T c and w :: "'a world"
  assume w: "wt_world T w"
  let ?T' = "T\<lparr> ht_limits := ht_limits T @ [(configInt c ''rps'' 100, configInt c ''burst'' 200)] \<rparr>"
  have "allocates T w ?T' (snd (route_limit_factory ex c w))"
    using w by (simp add: allocates_def route_limit_factory_def wt_world_def heap_ext_def)
  moreover have "well_typed (pl_Handler (RouteRateLimit ex (length (w_limits w)))) ?T'"
    using wt_world_length(2) [OF w] by (intro route_limit_wt) simp
  ultimately show "\<exists>T'. allocates T w T' (snd (route_limit_factory ex c w)) \<and>
      (\<forall>p. fst (route_limit_factory ex c w) = Some p \<longrightarrow> well_typed (pl_Handler p) T')"
    by (intro exI [of _ ?T']) (simp add: route_limit_factory_def)
qed

lemma Register_wt: "wt_registry reg \<Longrightarrow> wt_factory f \<Longrightarrow> wt_registry (Register name f reg)"
  by (simp add: wt_registry_def Register_def)

lemma gateway_registry_wt: "wt_registry (gateway_registry ex jl Sum256 cfg)"
proof -
  have "wt_registry NewRegistry" by (simp add: wt_registry_def NewRegistry_def)
  then show ?thesis
    unfolding gateway_registry_def Let_def
    by (intro Register_wt stateless_wt breaker_factory_wt route_limit_factory_wt sechdr_wt.well_typed_axioms
        cors_wt.well_typed_axioms jwt_wt.well_typed_axioms iplimit_wt.well_typed_axioms userlimit_wt.well_typed_axioms
        authlimit_wt.well_typed_axioms ippolicy_wt.well_typed_axioms transform_wt.well_typed_axioms apikey_wt.well_typed_axioms)
qed

lemma Build_wt:
  assumes "wt_registry reg" "wt_world T w" "Build reg name c w = (p, w1)"
  shows "\<exists>T1. allocates T w T1 w1 \<and> (\<forall>q. p = Some q \<longrightarrow> well_typed (pl_Handler q) T1)"
proof (cases "map_of reg name")
  case None
  with assms show ?thesis using allocates_refl by (auto simp: Build_def)
next
  case (Some f)
  then have "wt_factory f" using assms(1) by (simp add: wt_registry_def)
  then obtain T' where "allocates T w T' (snd (f c w))" "\<And>p. fst (f c w) = Some p \<Longrightarrow> well_typed (pl_Handler p) T'"
    using assms(2) unfolding wt_factory_def by blast
  with Some assms(3) show ?thesis by (auto simp: Build_def)
qed

lemma build_plugins_wt:
  "wt_registry reg \<Longrightarrow> wt_world T w \<Longrightarrow> build_plugins reg refs w = (ps, w') \<Longrightarrow>
    \<exists>T'. allocates T w T' w' \<and> (\<forall>p \<in> set ps. well_typed (pl_Handler p) T')"
proof (induction reg refs w arbitrary: T ps w' rule: build_plugins.induct)
  case (1 reg w)
  then show ?case using allocates_refl by auto
next
  case (2 reg ref refs w)
  obtain p w1 where b: "Build reg (p_Name ref) (p_Config ref) w = (p, w1)" by force
  obtain qs w2 where q: "build_plugins reg refs w1 = (qs, w2)" by force
  obtain T1 where T1: "allocates T w T1 w1" "\<And>x. p = Some x \<Longrightarrow> well_typed (pl_Handler x) T1"
    using Build_wt [OF "2.prems"(1,2) b] by blast
  obtain T2 where T2: "allocates T1 w1 T2 w2" "\<forall>x \<in> set qs. well_typed (pl_Handler x) T2"
    using "2.IH" [OF b [symmetric] refl "2.prems"(1) _ q] T1(1) by (auto simp: allocates_def)
  have "well_typed (pl_Handler x) T2" if "p = Some x" for x
    using well_typed_mono [OF T1(2) [OF that]] T2(1) by (simp add: allocates_def)
  then have "\<forall>x \<in> set ps. well_typed (pl_Handler x) T2" using "2.prems"(3) T2(2) by (auto simp: b q split: option.splits)
  with allocates_trans [OF T1(1) T2(1)] show ?case using "2.prems"(3) by (auto simp: b q)
qed

lemma buildRouteHandler_wt:
  assumes "wt_registry reg" "wt_world T w" "wt_handler T upH" "buildRouteHandler reg tracker route upH w = (h, w')"
  shows "\<exists>T'. allocates T w T' w' \<and> wt_handler T' h"
proof -
  obtain ps w1 where p: "build_plugins reg (r_Plugins route) w = (ps, w1)" by force
  obtain T' where T': "allocates T w T' w1" "\<forall>p \<in> set ps. well_typed (pl_Handler p) T'"
    using build_plugins_wt [OF assms(1,2) p] by blast
  have "wt_handler T' upH" using wt_handler_mono [OF assms(3)] T'(1) by (simp add: allocates_def)
  then have "wt_handler T' (Chain upH ps)" "wt_handler T' (Chain (strip_handler pre upH) ps)" for pre
    using T'(2) by (auto intro!: well_typed_Chain strip_handler_wt)
  then have "wt_handler T' h" "w' = w1"
    using assms(4) by (auto simp: buildRouteHandler_def p Let_def track_handler_wt)
  with T'(1) show ?thesis by auto
qed

section \<open>Building the table\<close>

text \<open>The length of a slice of endpoints is an \<open>int\<close>.\<close>

definition endpoints_fit :: "store \<Rightarrow> bool" where
  "endpoints_fit s \<longleftrightarrow> (\<forall>(k, u) \<in> set (st_upstreams s). length (u_Endpoints u) < 2 ^ 63)"

definition wt_handlers :: "heap_ty \<Rightarrow> (string, 'x handler) gomap \<Rightarrow> bool" where
  "wt_handlers T m \<longleftrightarrow> (\<forall>k h. map_of m k = Some h \<longrightarrow> wt_handler T h)"

lemma wt_handlers_mono: "wt_handlers T m \<Longrightarrow> heap_ext T T' \<Longrightarrow> wt_handlers T' m"
  unfolding wt_handlers_def using wt_handler_mono by blast

lemma buildUpstreamProxy_wt: "buildUpstreamProxy na u url = Some p \<Longrightarrow> wt_handler T p"
  by (auto simp: buildUpstreamProxy_def Let_def reverse_proxy_wt split: option.splits)

lemma endpoint_proxies_wt: "endpoint_proxies na u eps m = Some proxies \<Longrightarrow> wt_handlers T m \<Longrightarrow> wt_handlers T proxies"
proof (induction na u eps m rule: endpoint_proxies.induct)
  case (2 na u ep eps m)
  then obtain p where p: "buildUpstreamProxy na u ep = Some p" "endpoint_proxies na u eps (gm_put ep p m) = Some proxies"
    by (auto split: option.splits)
  have "wt_handlers T (gm_put ep p m)" using "2.prems"(2) buildUpstreamProxy_wt [OF p(1)] by (simp add: wt_handlers_def)
  from "2.IH" [OF p this] show ?case .
qed simp

lemma buildLBHandler_wt:
  assumes "wt_world T w" "length (u_Endpoints u) > 1" "length (u_Endpoints u) < 2 ^ 63" "buildLBHandler ex na checker u w = (h, w')"
  shows "\<exists>T'. allocates T w T' w' \<and> (\<forall>f. h = Some f \<longrightarrow> wt_handler T' f)"
proof (cases "endpoint_proxies na u (u_Endpoints u) []")
  case None
  with assms(1,4) show ?thesis by (auto simp: buildLBHandler_def intro: allocates_refl)
next
  case (Some proxies)
  obtain t where t: "wt_balancer (new_balancer u) t" using new_balancer_wt [OF assms(2,3)] by blast
  let ?T' = "T\<lparr> ht_balancers := ht_balancers T @ [t] \<rparr>"
  have "allocates T w ?T' w'"
    using assms(1,4) Some t by (auto simp: buildLBHandler_def allocates_def wt_world_def heap_ext_def list_all2_appendI)
  moreover have "wt_handlers ?T' proxies" by (rule endpoint_proxies_wt [OF Some]) (simp add: wt_handlers_def)
  then have "wt_handler ?T' (lb_handler ex checker (length (w_balancers w)) proxies)"
    using wt_world_length(3) [OF assms(1)] by (intro lb_handler_wt) (auto simp: wt_handlers_def)
  ultimately show ?thesis using assms(4) Some by (intro exI [of _ ?T']) (auto simp: buildLBHandler_def)
qed

lemma build_upstreams_wt:
  "wt_world T w \<Longrightarrow> wt_handlers T m \<Longrightarrow> \<forall>u \<in> set us. length (u_Endpoints u) < 2 ^ 63 \<Longrightarrow>
    build_upstreams ex na checker us m w = (ups, w') \<Longrightarrow> \<exists>T'. allocates T w T' w' \<and> wt_handlers T' ups"
proof (induction us arbitrary: T m w)
  case Nil
  then show ?case by (auto intro: allocates_refl)
next
  case (Cons u us)
  obtain h w1 where h: "(if length (u_Endpoints u) > 1 then buildLBHandler ex na checker u w
      else (buildUpstreamProxy na u (u_URL u), w)) = (h, w1)" by force
  have "\<exists>T1. allocates T w T1 w1 \<and> (\<forall>f. h = Some f \<longrightarrow> wt_handler T1 f)"
  proof (cases "length (u_Endpoints u) > 1")
    case True
    with buildLBHandler_wt [OF Cons.prems(1) True] Cons.prems(3) h show ?thesis by simp
  next
    case False
    with h Cons.prems(1) show ?thesis by (auto intro!: exI [of _ T] allocates_refl buildUpstreamProxy_wt)
  qed
  then obtain T1 where T1: "allocates T w T1 w1" "\<And>f. h = Some f \<Longrightarrow> wt_handler T1 f" by blast
  have "wt_handlers T1 m" using wt_handlers_mono [OF Cons.prems(2)] T1(1) by (simp add: allocates_def)
  then have m1: "wt_handlers T1 (case h of None \<Rightarrow> m | Some f \<Rightarrow> gm_put (u_ID u) f m)"
    using T1(2) by (auto simp: wt_handlers_def split: option.split)
  have "wt_world T1 w1" using T1(1) by (simp add: allocates_def)
  from Cons.IH [OF this m1] Cons.prems(3,4) obtain T' where "allocates T1 w1 T' w'" "wt_handlers T' ups"
    using h by (auto simp: Let_def)
  with allocates_trans [OF T1(1)] show ?case by blast
qed

definition wt_table :: "heap_ty \<Rightarrow> 'x routeTable \<Rightarrow> bool" where
  "wt_table T t \<longleftrightarrow> (\<forall>e \<in> table_entries t. wt_handler T (e_handler e))"

lemma wt_table_mono: "wt_table T t \<Longrightarrow> heap_ext T T' \<Longrightarrow> wt_table T' t"
  unfolding wt_table_def using wt_handler_mono by blast

lemma route_upstream_wt: "wt_handlers T ups \<Longrightarrow> route_upstream ex checker ups route = Some h \<Longrightarrow> wt_handler T h"
  by (auto simp: route_upstream_def wt_handlers_def intro: split_handler_wt split: if_splits)

lemma add_route_wt:
  assumes "wt_registry reg" "wt_world T w" "wt_handlers T ups" "wt_table T t"
    and "add_route ex na reg checker tracker ups route (t, w) = (t', w')"
  shows "\<exists>T'. allocates T w T' w' \<and> wt_table T' t'"
proof (cases "r_Active route \<and> route_upstream ex checker ups route \<noteq> None")
  case False
  with assms(2,4,5) show ?thesis by (auto simp: add_route_def intro: allocates_refl split: if_splits)
next
  case True
  then obtain upH where up: "route_upstream ex checker ups route = Some upH" by blast
  obtain h w1 where h: "buildRouteHandler reg tracker route upH w = (h, w1)" by force
  obtain T' where T': "allocates T w T' w1" "wt_handler T' h"
    using buildRouteHandler_wt [OF assms(1,2) route_upstream_wt [OF assms(3) up] h] by blast
  have "wt_table T' t" using wt_table_mono [OF assms(4)] T'(1) by (simp add: allocates_def)
  with T' True up h assms(5) show ?thesis
    by (auto simp: add_route_def Let_def wt_table_def table_entries_def split: if_splits option.splits intro!: exI [of _ T'])
qed

lemma add_routes_wt:
  "wt_registry reg \<Longrightarrow> wt_world T w \<Longrightarrow> wt_handlers T ups \<Longrightarrow> wt_table T t \<Longrightarrow>
    fold (add_route ex na reg checker tracker ups) rs (t, w) = (t', w') \<Longrightarrow> \<exists>T'. allocates T w T' w' \<and> wt_table T' t'"
proof (induction rs arbitrary: T t w)
  case Nil
  then show ?case by (auto intro: allocates_refl)
next
  case (Cons r rs)
  obtain t1 w1 where s: "add_route ex na reg checker tracker ups r (t, w) = (t1, w1)" by force
  obtain T1 where T1: "allocates T w T1 w1" "wt_table T1 t1" using add_route_wt [OF Cons.prems(1-4) s] by blast
  then have "wt_world T1 w1" "wt_handlers T1 ups" using wt_handlers_mono [OF Cons.prems(3)] by (simp_all add: allocates_def)
  from Cons.IH [OF Cons.prems(1) this T1(2)] Cons.prems(5) s obtain T' where "allocates T1 w1 T' w'" "wt_table T' t'" by auto
  with allocates_trans [OF T1(1)] show ?case by blast
qed

lemma ListUpstreams_fit:
  assumes "fair_orders os" "endpoints_fit s" "u \<in> set (ListUpstreams os s)"
  shows "length (u_Endpoints u) < 2 ^ 63"
proof -
  have "set (ord_upstreams os (st_upstreams s)) = set (st_upstreams s)"
    using assms(1) by (metis fair_orders_def mset_eq_setD range_order_def)
  then show ?thesis using assms(2,3) by (auto simp: ListUpstreams_def endpoints_fit_def)
qed

lemma reload_wt:
  assumes "wt_registry reg" "sort_ok na" "fair_orders (ex_orders ex)" "endpoints_fit (w_store w)" "wt_world T w"
    and "reload ex na reg checker tracker w = (t, w')"
  shows "\<exists>T'. allocates T w T' w' \<and> wt_table T' t"
proof -
  obtain ups w1 where u: "buildUpstreamMap ex na checker w = (ups, w1)" by force
  have "wt_handlers T []" by (simp add: wt_handlers_def)
  then obtain T1 where T1: "allocates T w T1 w1" "wt_handlers T1 ups"
    using build_upstreams_wt [OF assms(5), of "[]"] u ListUpstreams_fit [OF assms(3,4)] unfolding buildUpstreamMap_def by blast
  obtain t2 w2 where f: "fold (add_route ex na reg checker tracker ups) (ListRoutes (ex_orders ex) (w_store w1)) (empty_table, w1) = (t2, w2)" by force
  have "wt_table T1 empty_table" by (simp add: wt_table_def table_entries_def empty_table_def)
  then obtain T2 where T2: "allocates T1 w1 T2 w2" "wt_table T2 t2"
    using add_routes_wt [OF assms(1) _ T1(2) _ f] T1(1) by (auto simp: allocates_def)
  have "set (na_sort na es) = set es" for es using assms(2) by (metis mset_eq_setD sort_ok_def)
  then have "wt_table T2 t" "w' = w2" using assms(6) T2(2) by (auto simp: reload_def u f wt_table_def table_entries_def)
  with allocates_trans [OF T1(1) T2(1)] show ?thesis by auto
qed

section \<open>Type soundness\<close>

lemma router_wt:
  assumes "wt_table T t" "wt_handler T fallback"
  shows "wt_handler T (router_ServeHTTP t fallback)"
proof (rule wt_handlerI)
  fix T' r and w :: "'a world"
  assume w: "heap_ext T T'" "wt_world T' w" "w_panic w = None"
  show "wt_step T' w (snd (router_ServeHTTP t fallback r w))"
  proof (cases "match_entry t r")
    case None
    with wt_handlerD [OF assms(2) w] show ?thesis by (simp add: router_ServeHTTP_def)
  next
    case (Some e)
    then have "wt_handler T (e_handler e)" using assms(1) match_entry_member by (auto simp: wt_table_def)
    from wt_handlerD [OF this w] Some show ?thesis by (simp add: router_ServeHTTP_def)
  qed
qed

lemma serve_mux_wt:
  assumes "wt_handler T promh" "wt_handler T dyn"
  shows "wt_handler T (serve_mux mx promh dyn)"
proof (rule wt_handlerI)
  fix T' r and w :: "'a world"
  assume w: "heap_ext T T'" "wt_world T' w" "w_panic w = None"
  have "w_panic (send_response c hdr b w) = None" for c hdr b by (simp add: send_response_def w(3))
  then have "wt_step T' w (send_response c hdr b w)" for c hdr b
    by (intro wt_step_frame [OF w(2)]) simp_all
  moreover have "wt_step T' w (snd (health_handler r w))"
    by (rule wt_step_frame [OF w(2)]) (simp_all add: health_handler_def w(3))
  ultimately show "wt_step T' w (snd (serve_mux mx promh dyn r w))"
    using wt_handlerD [OF assms(1) w] wt_handlerD [OF assms(2) w] by (auto simp: serve_mux_def split: option.split)
qed

lemma gateway_handler_wt: "wt_handler T mux \<Longrightarrow> wt_handler T (gateway_handler ex jl cfg mux)"
  unfolding gateway_handler_def
  by (rule well_typed_Chain)
    (auto simp: global_plugins_def Let_def intro: correlation_wt.well_typed_axioms tracing_wt.well_typed_axioms logging_wt.well_typed_axioms
      metrics_wt.well_typed_axioms sechdr_wt.well_typed_axioms cors_wt.well_typed_axioms reqsec_wt.well_typed_axioms
      ippolicy_wt.well_typed_axioms authlimit_wt.well_typed_axioms iplimit_wt.well_typed_axioms jwt_wt.well_typed_axioms
      userlimit_wt.well_typed_axioms)


section \<open>The property at work\<close>


end
