(* ===== verification/Plugin_Loader.thy ===== *)
theory Plugin_Loader
  imports Plugins
begin

text \<open>
  External plugins, \<open>internal/plugin/loader\<close>: loading a shared object into the registry, and the watcher that
  loads the objects that appear in a directory. The run time of Go (package \<open>plugin\<close>) keeps every object it has
  opened and returns it again for the same path, whatever the file holds by then; \<open>goplug_Open\<close> keeps this
  table, and \<open>disk\<close> says what opening each path would give at the time. Paths are free of symbolic links.

  Outside code is a parameter: \<open>absf\<close> is \<open>filepath.Abs\<close>, and the events come from the watcher of \<open>fsnotify\<close>.
\<close>

section \<open>Loading\<close>

datatype 'x symbol = Sym_string string | Sym_factory "'x Factory" | Sym_other

type_synonym 'x shared_object = "string \<rightharpoonup> 'x symbol"

record 'x Loader =
  ld_reg :: "'x Registry"
  ld_loaded :: "(string, unit) gomap"
  ld_opened :: "string \<rightharpoonup> 'x shared_object"

datatype load_err = ResolveFailed | OpenFailed | MissingName | BadName | MissingFactory | BadFactory | NoCGO

definition loader_New :: "'x Registry \<Rightarrow> (string \<rightharpoonup> 'x shared_object) \<Rightarrow> 'x Loader" where
  "loader_New reg opened = \<lparr> ld_reg = reg, ld_loaded = [], ld_opened = opened \<rparr>"

definition goplug_Open :: "(string \<rightharpoonup> 'x shared_object) \<Rightarrow> string \<Rightarrow> (string \<rightharpoonup> 'x shared_object) \<Rightarrow> 'x shared_object option \<times> (string \<rightharpoonup> 'x shared_object)" where
  "goplug_Open disk p opened =
     (case opened p of
        Some obj \<Rightarrow> (Some obj, opened)
      | None \<Rightarrow> (case disk p of None \<Rightarrow> (None, opened) | Some obj \<Rightarrow> (Some obj, opened(p \<mapsto> obj))))"

text \<open>The two symbols of a plugin, in the order in which they are looked up.\<close>

definition plugin_symbols :: "'x shared_object \<Rightarrow> load_err + string \<times> 'x Factory" where
  "plugin_symbols obj =
     (case obj ''HelixPluginName'' of
        None \<Rightarrow> Inl MissingName
      | Some (Sym_string name) \<Rightarrow>
          (case obj ''HelixPlugin'' of
             None \<Rightarrow> Inl MissingFactory
           | Some (Sym_factory f) \<Rightarrow> Inr (name, f)
           | Some _ \<Rightarrow> Inl BadFactory)
      | Some _ \<Rightarrow> Inl BadName)"

text \<open>The factory that is registered only passes on the result of the one in the object.\<close>

definition loader_Load :: "(string \<Rightarrow> string option) \<Rightarrow> (string \<rightharpoonup> 'x shared_object) \<Rightarrow> string \<Rightarrow> 'x Loader \<Rightarrow> load_err option \<times> 'x Loader" where
  "loader_Load absf disk path l =
     (case absf path of
        None \<Rightarrow> (Some ResolveFailed, l)
      | Some p \<Rightarrow>
          let (obj, opened) = goplug_Open disk p (ld_opened l); l1 = l\<lparr> ld_opened := opened \<rparr>
          in case obj of
               None \<Rightarrow> (Some OpenFailed, l1)
             | Some o1 \<Rightarrow>
                 (case plugin_symbols o1 of
                    Inl err \<Rightarrow> (Some err, l1)
                  | Inr (name, f) \<Rightarrow> (None, l1\<lparr> ld_reg := Register name f (ld_reg l1), ld_loaded := gm_put p () (ld_loaded l1) \<rparr>)))"

text \<open>A failed \<open>filepath.Abs\<close> gives the empty path.\<close>

definition loader_IsLoaded :: "(string \<Rightarrow> string option) \<Rightarrow> string \<Rightarrow> 'x Loader \<Rightarrow> bool" where
  "loader_IsLoaded absf path l = (map_of (ld_loaded l) (case absf path of None \<Rightarrow> '''' | Some p \<Rightarrow> p) \<noteq> None)"

definition nocgo_Load :: "string \<Rightarrow> 'x Loader \<Rightarrow> load_err option \<times> 'x Loader" where
  "nocgo_Load path l = (Some NoCGO, l)"

definition nocgo_IsLoaded :: "string \<Rightarrow> 'x Loader \<Rightarrow> bool" where
  "nocgo_IsLoaded path l = False"

section \<open>Watching\<close>

datatype 'x watch_event =
    File_event string bool bool "string \<rightharpoonup> 'x shared_object"
  | Watch_error
  | Watch_closed

text \<open>A file event has the name, whether it is a create or a write, and the disk at the time.\<close>

fun watch_step :: "(string \<Rightarrow> string option) \<Rightarrow> 'x watch_event \<Rightarrow> 'x Loader \<Rightarrow> 'x Loader" where
  "watch_step absf (File_event name create write disk) l =
     (if \<not> HasSuffix name ''.so'' then l
      else if \<not> (create \<or> write) then l
      else snd (loader_Load absf disk (case absf name of None \<Rightarrow> '''' | Some p \<Rightarrow> p) l))"
| "watch_step absf Watch_error l = l"
| "watch_step absf Watch_closed l = l"

text \<open>The loop ends when a channel is closed.\<close>

fun watch_loop :: "(string \<Rightarrow> string option) \<Rightarrow> 'x watch_event list \<Rightarrow> 'x Loader \<Rightarrow> 'x Loader" where
  "watch_loop absf [] l = l"
| "watch_loop absf (Watch_closed # evs) l = l"
| "watch_loop absf (ev # evs) l = watch_loop absf evs (watch_step absf ev l)"

section \<open>What is loaded\<close>

lemma goplug_Open_kept: "opened p = Some obj \<Longrightarrow> snd (goplug_Open disk q opened) p = Some obj"
  by (auto simp: goplug_Open_def split: option.splits)

lemma Load_opened_kept: "ld_opened l p = Some obj \<Longrightarrow> ld_opened (snd (loader_Load absf disk path l)) p = Some obj"
  using goplug_Open_kept [of "ld_opened l" p obj disk]
  by (auto simp: loader_Load_def Let_def split: option.splits prod.splits sum.splits) (metis snd_conv)+

lemma watch_opened_kept: "ld_opened l p = Some obj \<Longrightarrow> ld_opened (watch_loop absf evs l) p = Some obj"
proof (induction evs arbitrary: l)
  case (Cons ev evs)
  then show ?case by (cases ev) (simp_all add: Load_opened_kept)
qed simp

text \<open>A successful load, in full.\<close>

lemma Load_ok:
  assumes "loader_Load absf disk path l = (None, l')"
  obtains p obj name f where "absf path = Some p" "ld_opened l' p = Some obj" "plugin_symbols obj = Inr (name, f)"
    "map_of (ld_reg l') = (map_of (ld_reg l))(name \<mapsto> f)" "map_of (ld_loaded l') p = Some ()"
    "ld_opened l p = Some obj \<or> ld_opened l p = None \<and> disk p = Some obj"
  using assms by (auto simp: loader_Load_def goplug_Open_def Register_def Let_def split: option.splits sum.splits)

text \<open>
  C40. A plugin is never replaced at run time: after a load of an object has succeeded, whatever happens in the
  directory, a later load of the same path, which the watcher makes when the file was rewritten, registers the
  plugin of the first version again, whatever the file holds by then.
\<close>
theorem rewritten_plugin_not_loaded:
  assumes "loader_Load absf disk path l = (None, l1)" and "l2 = watch_loop absf evs l1"
  shows "\<exists>p obj name f. absf path = Some p \<and> (ld_opened l p = None \<longrightarrow> disk p = Some obj) \<and> plugin_symbols obj = Inr (name, f) \<and>
    map_of (ld_reg l1) name = Some f \<and> loader_IsLoaded absf path l1 \<and>
    (\<forall>disk'. fst (loader_Load absf disk' path l2) = None \<and>
      map_of (ld_reg (snd (loader_Load absf disk' path l2))) = (map_of (ld_reg l2))(name \<mapsto> f))"
  using assms(1)
proof (rule Load_ok)
  fix p obj name f
  assume p: "absf path = Some p" "ld_opened l1 p = Some obj" "plugin_symbols obj = Inr (name, f)"
    "map_of (ld_reg l1) = (map_of (ld_reg l))(name \<mapsto> f)" "map_of (ld_loaded l1) p = Some ()"
    "ld_opened l p = Some obj \<or> ld_opened l p = None \<and> disk p = Some obj"
  have "ld_opened l2 p = Some obj" using watch_opened_kept [OF p(2)] assms(2) by simp
  then have "loader_Load absf disk' path l2 = (None, l2\<lparr> ld_reg := Register name f (ld_reg l2), ld_loaded := gm_put p () (ld_loaded l2) \<rparr>)" for disk'
    using p(1,3) by (simp add: loader_Load_def goplug_Open_def)
  with p show ?thesis
    by (intro exI [of _ p] exI [of _ obj] exI [of _ name] exI [of _ f]) (auto simp: loader_IsLoaded_def Register_def)
qed

text \<open>Two versions of an object: the second is on the disk when the watcher sees the write, the first stays registered.\<close>

definition first_version :: "unit shared_object" where
  "first_version = [''HelixPluginName'' \<mapsto> Sym_string ''acme'', ''HelixPlugin'' \<mapsto> Sym_factory (\<lambda>c w. (None, w))]"

definition second_version :: "unit shared_object" where
  "second_version = [''HelixPluginName'' \<mapsto> Sym_string ''acme'', ''HelixPlugin'' \<mapsto> Sym_factory (\<lambda>c w. (Some SecurityHeaders, w))]"

theorem rewritten_plugin_not_loaded_witness:
  "map_of (ld_reg (snd (loader_Load Some [''/p/a.so'' \<mapsto> second_version] ''/p/a.so''
     (watch_loop Some [File_event ''/p/a.so'' False True [''/p/a.so'' \<mapsto> second_version]]
       (snd (loader_Load Some [''/p/a.so'' \<mapsto> first_version] ''/p/a.so'' (loader_New NewRegistry Map.empty))))))) ''acme'' = Some (\<lambda>c w. (None, w))"
proof -
  let ?l = "loader_New NewRegistry Map.empty :: unit Loader"
  have "fst (loader_Load Some [''/p/a.so'' \<mapsto> first_version] ''/p/a.so'' ?l) = None"
    by (simp add: loader_Load_def goplug_Open_def loader_New_def plugin_symbols_def first_version_def)
  then have "loader_Load Some [''/p/a.so'' \<mapsto> first_version] ''/p/a.so'' ?l =
      (None, snd (loader_Load Some [''/p/a.so'' \<mapsto> first_version] ''/p/a.so'' ?l))" by (metis prod.collapse)
  from rewritten_plugin_not_loaded [OF this refl, of "[File_event ''/p/a.so'' False True [''/p/a.so'' \<mapsto> second_version]]"]
  show ?thesis by (auto simp: loader_New_def plugin_symbols_def first_version_def simp del: watch_loop.simps)
qed

end
