(* ===== verification/WebSocket_Tunnel.thy ===== *)
theory WebSocket_Tunnel
  imports Proxy
begin

text \<open>
  The WebSocket proxy behind \<open>Hijack\<close>, the rest of \<open>internal/proxy/websocket.go\<close>: dialling the backend, sending
  the upgrade, relaying its answer, and the two goroutines that copy bytes between the connections until one of
  them ends. It is the value the gateway gives to the parameter \<open>tunnel\<close> of \<open>ws_ServeHTTP\<close>.

  A connection is the stream of bytes its peer sends and the stream the gateway has written to it. Outside code
  is a parameter (\<open>ws_env\<close>): whether each network operation works, the bytes of a request, what
  \<open>http.ReadResponse\<close> takes from a stream, and the order in which the copying goroutines run.
\<close>

section \<open>Definitions\<close>

record conn =
  cn_in :: string
  cn_out :: string
  cn_closed :: bool

definition fresh_conn :: "string \<Rightarrow> conn" where
  "fresh_conn input = \<lparr> cn_in = input, cn_out = '''', cn_closed = False \<rparr>"

definition conn_write :: "string \<Rightarrow> conn \<Rightarrow> conn" where
  "conn_write bs c = c\<lparr> cn_out := cn_out c @ bs \<rparr>"

definition conn_close :: "conn \<Rightarrow> conn" where
  "conn_close c = c\<lparr> cn_closed := True \<rparr>"

text \<open>The first \<open>n\<close> bytes that have not been read yet go to the other side: one turn of \<open>io.Copy\<close>.\<close>

definition copy_bytes :: "nat \<Rightarrow> conn \<Rightarrow> conn \<Rightarrow> conn \<times> conn" where
  "copy_bytes n src dst = (src\<lparr> cn_in := drop n (cn_in src) \<rparr>, conn_write (take n (cn_in src)) dst)"

text \<open>What the goroutines do: either may copy, and the first to end (end of stream or an error) ends the tunnel.\<close>

datatype copy_event = To_upstream nat | To_client nat | Ended

fun copy_loop :: "copy_event list \<Rightarrow> conn \<Rightarrow> conn \<Rightarrow> conn \<times> conn" where
  "copy_loop [] client up = (client, up)"
| "copy_loop (To_upstream n # evs) client up = (let (client', up') = copy_bytes n client up in copy_loop evs client' up')"
| "copy_loop (To_client n # evs) client up = (let (up', client') = copy_bytes n up client in copy_loop evs client' up')"
| "copy_loop (Ended # evs) client up = (conn_close client, conn_close up)"

record ws_env =
  we_Hijack :: bool
  we_Dial :: "string \<Rightarrow> string option"
  we_request :: "request \<Rightarrow> string option"
  we_ReadResponse :: "string \<Rightarrow> (string \<times> string) option"
  we_WriteResponse :: "string \<Rightarrow> bool"
  we_Flush :: bool
  we_events :: "copy_event list"

definition bad_gateway :: string where
  "bad_gateway = ''HTTP/1.1 502 Bad Gateway'' @ [CHR 0x0D, CHR 0x0A] @ ''Content-Length: 0'' @ [CHR 0x0D, CHR 0x0A, CHR 0x0D, CHR 0x0A]"

text \<open>
  From \<open>Hijack\<close> on: the client's connection and that of the backend, if one was made. \<open>we_Dial\<close> gives the bytes
  the backend will send, \<open>we_ReadResponse\<close> splits them into the response, as \<open>resp.Write\<close> puts it, and the rest.
\<close>

definition ws_serve :: "ws_env \<Rightarrow> string \<Rightarrow> request \<Rightarrow> conn \<Rightarrow> conn \<times> conn option" where
  "ws_serve e host out client =
     (if \<not> we_Hijack e then (client, None)
      else case we_Dial e host of
        None \<Rightarrow> (conn_close (conn_write bad_gateway client), None)
      | Some upBytes \<Rightarrow>
          let up = fresh_conn upBytes
          in case we_request e out of
               None \<Rightarrow> (conn_close client, Some (conn_close up))
             | Some req \<Rightarrow>
                 let up1 = conn_write req up
                 in case we_ReadResponse e (cn_in up1) of
                      None \<Rightarrow> (conn_close client, Some (conn_close up1))
                    | Some (resp, rest) \<Rightarrow>
                        let up2 = up1\<lparr> cn_in := rest \<rparr>
                        in if \<not> we_WriteResponse e resp \<or> \<not> we_Flush e then (conn_close client, Some (conn_close up2))
                           else (case copy_loop (we_events e) (conn_write resp client) up2 of (c, u) \<Rightarrow> (c, Some u)))"

text \<open>The tunnel of the gateway, on a list of finished connections.\<close>

definition ws_tunnel :: "ws_env \<Rightarrow> string \<Rightarrow> string \<Rightarrow> request \<Rightarrow> (conn \<times> conn option) list \<Rightarrow> (conn \<times> conn option) list" where
  "ws_tunnel e clientBytes host out conns = conns @ [ws_serve e host out (fresh_conn clientBytes)]"

section \<open>What the tunnel carries\<close>

text \<open>Bytes are neither lost, repeated nor reordered while they are copied.\<close>

lemma copy_loop_streams:
  assumes "copy_loop evs client up = (client', up')"
  shows "\<exists>a b. cn_in client = a @ cn_in client' \<and> cn_out up' = cn_out up @ a \<and> cn_in up = b @ cn_in up' \<and> cn_out client' = cn_out client @ b"
  using assms
proof (induction evs client up rule: copy_loop.induct)
  case (2 n evs client up)
  from "2.IH" [OF refl prod.collapse] "2.prems" obtain a b where
    "drop n (cn_in client) = a @ cn_in client'" "cn_out up' = (cn_out up @ take n (cn_in client)) @ a"
    "cn_in up = b @ cn_in up'" "cn_out client' = cn_out client @ b"
    by (auto simp: copy_bytes_def conn_write_def)
  moreover from this(1) have "cn_in client = (take n (cn_in client) @ a) @ cn_in client'"
    using append_take_drop_id [of n "cn_in client"] by simp
  ultimately show ?case by (metis append.assoc)
next
  case (3 n evs client up)
  from "3.IH" [OF refl prod.collapse] "3.prems" obtain a b where
    "drop n (cn_in up) = b @ cn_in up'" "cn_out client' = (cn_out client @ take n (cn_in up)) @ b"
    "cn_in client = a @ cn_in client'" "cn_out up' = cn_out up @ a"
    by (auto simp: copy_bytes_def conn_write_def)
  moreover from this(1) have "cn_in up = (take n (cn_in up) @ b) @ cn_in up'"
    using append_take_drop_id [of n "cn_in up"] by simp
  ultimately show ?case by (metis append.assoc)
qed (auto simp: conn_close_def)

lemma copy_loop_closes:
  "Ended \<in> set evs \<Longrightarrow> copy_loop evs client up = (client', up') \<Longrightarrow> cn_closed client' \<and> cn_closed up'"
  by (induction evs client up rule: copy_loop.induct) (auto simp: copy_bytes_def conn_close_def)


text \<open>A dial that fails is answered with a bare 502 on the raw connection, which is then closed.\<close>

lemma tunnel_dial_failure:
  "we_Hijack e \<Longrightarrow> we_Dial e host = None \<Longrightarrow>
    ws_serve e host out (fresh_conn bs) = (\<lparr> cn_in = bs, cn_out = bad_gateway, cn_closed = True \<rparr>, None)"
  by (simp add: ws_serve_def conn_write_def conn_close_def fresh_conn_def)

text \<open>
  The tunnel ends with the first direction to end: what the backend still had to say when the client stopped
  sending is dropped.
\<close>

lemma half_close_drops_answer:
  "copy_loop [To_upstream n, Ended, To_client m] client up =
     (conn_close (fst (copy_bytes n client up)), conn_close (snd (copy_bytes n client up)))"
  by (simp add: case_prod_unfold Let_def)

section \<open>The property at work\<close>

definition some_ws :: ws_env where
  "some_ws = \<lparr> we_Hijack = True, we_Dial = (\<lambda>h. Some ''101.hello''), we_request = (\<lambda>r. Some (rq_Method r)),
     we_ReadResponse = (\<lambda>bs. Some (take 3 bs, drop 4 bs)), we_WriteResponse = (\<lambda>_. True), we_Flush = True,
     we_events = [To_upstream 2, To_client 9, To_upstream 1, Ended] \<rparr>"


end
