(* ===== verification/Gateway_Process.thy ===== *)
theory Gateway_Process
  imports Gateway_Correct Plugin_Loader WebSocket_Tunnel
begin

text \<open>
  The gateway as a process: the start-up of \<open>cmd/main.go\<close> with the parts it sets up (\<open>telemetry.InitTracer\<close>,
  \<open>telemetry.NewMetrics\<close>, \<open>internal/tls\<close>, the plugin watcher, the HTTP servers), and its life from the first
  request to the end of the shutdown.

  Outside code is a parameter (\<open>boot_env\<close>): the environment and files, whether the trace exporter, Redis and the
  file watcher can be set up, and in the life of the process the arrival of requests, failures of listeners, the
  signal and the deadline of the shutdown.
\<close>

section \<open>Tracing and metrics\<close>

datatype tracer = NoopTracer | OTLPTracer string

text \<open>\<open>exporter\<close> says whether \<open>otlptracehttp.New\<close> succeeds for an endpoint; \<open>None\<close> is an error.\<close>

definition InitTracer :: "(string \<Rightarrow> bool) \<Rightarrow> string \<Rightarrow> tracer option" where
  "InitTracer exporter endpoint =
     (if endpoint = '''' then Some NoopTracer
      else if \<not> exporter endpoint then None
      else Some (OTLPTracer endpoint))"

record collector =
  co_Name :: string
  co_Labels :: "string list"
  co_Buckets :: "rat list"

definition RequestsTotal :: collector where
  "RequestsTotal = \<lparr> co_Name = ''gateway_http_requests_total'', co_Labels = [''method'', ''path'', ''status''], co_Buckets = [] \<rparr>"

definition RequestDuration :: collector where
  "RequestDuration = \<lparr> co_Name = ''gateway_http_request_duration_seconds'', co_Labels = [''method'', ''path''],
     co_Buckets = [5 / 1000, 10 / 1000, 25 / 1000, 50 / 1000, 100 / 1000, 250 / 1000, 500 / 1000, 1, 25 / 10, 5] \<rparr>"

definition RateLimitRejects :: collector where
  "RateLimitRejects = \<lparr> co_Name = ''gateway_rate_limit_rejected_total'', co_Labels = [''scope''], co_Buckets = [] \<rparr>"

definition ActiveRequests :: collector where
  "ActiveRequests = \<lparr> co_Name = ''gateway_active_requests'', co_Labels = [], co_Buckets = [] \<rparr>"

text \<open>\<open>MustRegister\<close> panics on a name that is taken (\<open>None\<close>); buckets have to be increasing.\<close>

fun MustRegister :: "collector list \<Rightarrow> string list \<Rightarrow> string list option" where
  "MustRegister [] reg = Some reg"
| "MustRegister (c # cs) reg = (if co_Name c \<in> set reg \<or> \<not> sorted_wrt (<) (co_Buckets c) then None else MustRegister cs (reg @ [co_Name c]))"

definition NewMetrics :: "string list \<Rightarrow> string list option" where
  "NewMetrics reg = MustRegister [RequestsTotal, RequestDuration, RateLimitRejects, ActiveRequests] reg"

section \<open>TLS\<close>

record tls_Manager =
  tm_domains :: "string list"
  tm_cacheDir :: string

definition tls_New :: "string list \<Rightarrow> string \<Rightarrow> tls_Manager" where
  "tls_New domains cacheDir = \<lparr> tm_domains = domains, tm_cacheDir = (if cacheDir = '''' then ''/var/cache/helix/acme'' else cacheDir) \<rparr>"

text \<open>
  The redirect behind the challenge handler. \<open>uri\<close> is \<open>URL.RequestURI\<close> of the request; \<open>http.Redirect\<close> to an
  absolute URL sets \<open>Location\<close> and, for GET and HEAD, a content type, and writes a short body for GET.
\<close>

definition redirect_target :: "string \<Rightarrow> string \<Rightarrow> string" where
  "redirect_target host uri = ''https://'' @ host @ uri"

definition html_escape :: "string \<Rightarrow> string" where
  "html_escape s = concat (map (\<lambda>c. if c = CHR ''&'' then ''&amp;'' else if c = CHR ''<'' then ''&lt;'' else if c = CHR ''>'' then ''&gt;''
     else if c = CHR 0x22 then ''&#34;'' else if c = CHR 0x27 then ''&#39;'' else [c]) s)"

definition challenge_redirect :: "(request \<Rightarrow> string) \<Rightarrow> 'x handler" where
  "challenge_redirect uri r w =
     (let target = redirect_target (rq_Host r) (uri r);
          hadCT = map_of (resp_header (w_resp w)) ''Content-Type'' \<noteq> None;
          w1 = set_header ''Location'' target w;
          w2 = (if \<not> hadCT \<and> (rq_Method r = ''GET'' \<or> rq_Method r = ''HEAD'') then set_header ''Content-Type'' ''text/html; charset=utf-8'' w1 else w1);
          w3 = WriteHeader 301 w2
      in reply r (if \<not> hadCT \<and> rq_Method r = ''GET''
                  then Write_body (''<a href='' @ [CHR 0x22] @ html_escape target @ [CHR 0x22] @ ''>Moved Permanently</a>.'' @ [CHR 0x0A, CHR 0x0A]) w3 else w3))"

text \<open>\<open>acme\<close>: what the library answers to a challenge, \<open>None\<close> for every other request.\<close>

definition HTTPChallengeHandler :: "(request \<Rightarrow> 'x handler option) \<Rightarrow> (request \<Rightarrow> string) \<Rightarrow> 'x handler" where
  "HTTPChallengeHandler acme uri r w = (case acme r of Some h \<Rightarrow> h r w | None \<Rightarrow> challenge_redirect uri r w)"

section \<open>Start-up\<close>

datatype server_kind = GatewayServer | AdminServer | ChallengeServer | TLSServer

record http_server =
  sv_Kind :: server_kind
  sv_Addr :: string
  sv_ReadTimeout :: int
  sv_WriteTimeout :: int
  sv_IdleTimeout :: int

definition gateway_server :: "string \<Rightarrow> http_server" where
  "gateway_server port = \<lparr> sv_Kind = GatewayServer, sv_Addr = '':'' @ port, sv_ReadTimeout = 30 * second, sv_WriteTimeout = 60 * second,
     sv_IdleTimeout = 120 * second \<rparr>"

definition admin_server :: "string \<Rightarrow> http_server" where
  "admin_server port = \<lparr> sv_Kind = AdminServer, sv_Addr = '':'' @ port, sv_ReadTimeout = 10 * second, sv_WriteTimeout = 10 * second,
     sv_IdleTimeout = 60 * second \<rparr>"

definition tls_servers :: "string list \<Rightarrow> http_server list" where
  "tls_servers domains =
     (if domains = [] then []
      else [\<lparr> sv_Kind = ChallengeServer, sv_Addr = '':80'', sv_ReadTimeout = 10 * second, sv_WriteTimeout = 10 * second, sv_IdleTimeout = 0 \<rparr>,
            \<lparr> sv_Kind = TLSServer, sv_Addr = '':443'', sv_ReadTimeout = 30 * second, sv_WriteTimeout = 60 * second, sv_IdleTimeout = 120 * second \<rparr>])"

text \<open>\<open>Watch\<close> up to the start of its loop: the watcher is made, and the directory added to it.\<close>

datatype watch_error = WatcherFailed | AddFailed

definition loader_Watch :: "bool \<Rightarrow> (string \<Rightarrow> bool) \<Rightarrow> string \<Rightarrow> watch_error option" where
  "loader_Watch newWatcher addDir dir =
     (if \<not> newWatcher then Some WatcherFailed else if \<not> addDir dir then Some AddFailed else None)"

record boot_env =
  be_environ :: environment
  be_dotenv :: "string option"
  be_cv :: conversions
  be_exporter :: "string \<Rightarrow> bool"
  be_Ping :: bool
  be_readable :: bool
  be_fs :: "string \<rightharpoonup> stored_file"
  be_newWatcher :: bool
  be_addDir :: "string \<Rightarrow> bool"

datatype boot_warning = TracingUnavailable | RedisUnavailable | WatcherUnavailable watch_error

datatype boot_failure = BadBackend | BadStore io_error

record 'x booted =
  bo_handler :: "'x handler"
  bo_world :: "'x world"
  bo_servers :: "http_server list"
  bo_tracer :: tracer
  bo_watching :: "string option"
  bo_warnings :: "boot_warning list"

definition boot_tracer :: "boot_env \<Rightarrow> environment \<Rightarrow> tracer \<times> boot_warning list" where
  "boot_tracer b E =
     (case InitTracer (be_exporter b) (EnvOrDefault E ''OTEL_EXPORTER_OTLP_ENDPOINT'' '''') of
        Some t \<Rightarrow> (t, [])
      | None \<Rightarrow> (the (InitTracer (be_exporter b) ''''), [TracingUnavailable]))"

definition boot_watch :: "boot_env \<Rightarrow> environment \<Rightarrow> string option \<times> boot_warning list" where
  "boot_watch b E =
     (let dir = EnvOrDefault E ''HELIX_PLUGIN_DIR'' ''''
      in if dir = '''' then (None, [])
         else case loader_Watch (be_newWatcher b) (be_addDir b) dir of
                Some err \<Rightarrow> (None, [WatcherUnavailable err])
              | None \<Rightarrow> (Some dir, []))"

definition boot_servers :: "Config \<Rightarrow> environment \<Rightarrow> http_server list" where
  "boot_servers cfg E =
     [admin_server (EnvOrDefault E ''HELIX_ADMIN_PORT'' ''9090''), gateway_server (cfg_Port cfg)] @ tls_servers (tlsDomains E)"

text \<open>\<open>main\<close> up to the point where it waits: \<open>Inl\<close> is the exit with status 1.\<close>

definition main_start :: "'x ext_api \<Rightarrow> 'x net_api \<Rightarrow> jwt_lib \<Rightarrow> (string \<Rightarrow> string) \<Rightarrow> (string \<Rightarrow> request \<Rightarrow> 'x \<Rightarrow> 'x) \<Rightarrow>
    (request \<Rightarrow> (headers \<times> string) option) \<Rightarrow> 'x handler \<Rightarrow> boot_env \<Rightarrow> 'x world \<Rightarrow> boot_failure + 'x booted" where
  "main_start ex na jl Sum256 tunnel mx promh b w =
     (let E = LoadDotEnv (be_dotenv b) (be_environ b);
          cfg = load_config (be_cv b) E;
          (tracer, warn1) = boot_tracer b E;
          warn2 = (if be_Ping b then [] else [RedisUnavailable])
      in case proxy_New na tunnel (cfg_BackendURL cfg) of
           None \<Rightarrow> Inl BadBackend
         | Some _ \<Rightarrow>
             (case New (be_readable b) (EnvOrDefault E ''HELIX_STORE_PATH'' ''helix-config.json'') (be_fs b) of
                Inl err \<Rightarrow> Inl (BadStore err)
              | Inr st \<Rightarrow>
                  let (watching, warn3) = boot_watch b E
                  in case build_gateway ex na jl Sum256 tunnel mx promh cfg (w\<lparr> w_store := st \<rparr>) of
                       None \<Rightarrow> Inl BadBackend
                     | Some (h, w1) \<Rightarrow> Inr \<lparr> bo_handler = h, bo_world = w1, bo_servers = boot_servers cfg E, bo_tracer = tracer,
                         bo_watching = watching, bo_warnings = warn1 @ warn2 @ warn3 \<rparr>))"

section \<open>What start-up does\<close>

lemma metrics_register: "NewMetrics [] = Some (map co_Name [RequestsTotal, RequestDuration, RateLimitRejects, ActiveRequests])"
  by (simp add: NewMetrics_def RequestsTotal_def RequestDuration_def RateLimitRejects_def ActiveRequests_def)

text \<open>The store can be opened: there is no file yet, or it can be read and parsed.\<close>

definition store_loads :: "boot_env \<Rightarrow> string \<Rightarrow> bool" where
  "store_loads b path \<longleftrightarrow> (\<forall>f. be_fs b path = Some f \<longrightarrow> be_readable b \<and> f \<noteq> Corrupt)"

lemma New_loads: "path \<noteq> '''' \<Longrightarrow> (\<exists>st. New (be_readable b) path (be_fs b) = Inr st) \<longleftrightarrow> store_loads b path"
  by (auto simp: New_def load_def store_loads_def empty_store_def split: option.split stored_file.split)

lemma store_path_nonempty: "EnvOrDefault E ''HELIX_STORE_PATH'' ''helix-config.json'' \<noteq> ''''"
  by (simp add: EnvOrDefault_def env_def)

text \<open>The parts of the outside that start-up may find broken and go on without.\<close>

definition degraded :: "(string \<Rightarrow> bool) \<Rightarrow> bool \<Rightarrow> bool \<Rightarrow> (string \<Rightarrow> bool) \<Rightarrow> boot_env \<Rightarrow> boot_env" where
  "degraded exporter ping watcher addDir b =
     b\<lparr> be_exporter := exporter, be_Ping := ping, be_newWatcher := watcher, be_addDir := addDir \<rparr>"

lemma main_start_cases:
  fixes b :: boot_env
  defines "E \<equiv> LoadDotEnv (be_dotenv b) (be_environ b)"
  defines "path \<equiv> EnvOrDefault E ''HELIX_STORE_PATH'' ''helix-config.json''" and "url \<equiv> cfg_BackendURL (load_config (be_cv b) E)"
  shows "main_start ex na jl Sum256 tunnel mx promh b w =
    (if na_Parse na url = None then Inl BadBackend
     else case New (be_readable b) path (be_fs b) of
            Inl err \<Rightarrow> Inl (BadStore err)
          | Inr st \<Rightarrow> Inr (case the (build_gateway ex na jl Sum256 tunnel mx promh (load_config (be_cv b) E) (w\<lparr> w_store := st \<rparr>)) of (h, w1) \<Rightarrow>
              \<lparr> bo_handler = h, bo_world = w1, bo_servers = boot_servers (load_config (be_cv b) E) E, bo_tracer = fst (boot_tracer b E),
                bo_watching = fst (boot_watch b E),
                bo_warnings = snd (boot_tracer b E) @ (if be_Ping b then [] else [RedisUnavailable]) @ snd (boot_watch b E) \<rparr>))"
proof (cases "na_Parse na url")
  case None
  then show ?thesis
    unfolding main_start_def by (simp add: Let_def case_prod_unfold proxy_New_def flip: E_def url_def)
next
  case (Some target)
  show ?thesis
  proof (cases "New (be_readable b) path (be_fs b)")
    case (Inl err)
    with Some show ?thesis
      unfolding main_start_def Let_def E_def [symmetric] path_def [symmetric] url_def [symmetric] case_prod_unfold
      by (simp add: proxy_New_def)
  next
    case (Inr st)
    have "build_gateway ex na jl Sum256 tunnel mx promh (load_config (be_cv b) E) (w\<lparr> w_store := st \<rparr>) \<noteq> None"
      using Some by (auto simp: build_gateway_def proxy_New_def url_def Let_def split: prod.split)
    then obtain h w1 where "build_gateway ex na jl Sum256 tunnel mx promh (load_config (be_cv b) E) (w\<lparr> w_store := st \<rparr>) = Some (h, w1)" by auto
    with Some Inr show ?thesis
      unfolding main_start_def Let_def E_def [symmetric] path_def [symmetric] url_def [symmetric] case_prod_unfold
      by (simp add: proxy_New_def)
  qed
qed


section \<open>The life of the process\<close>

text \<open>
  \<open>main\<close> waits for the signal, then shuts down the gateway server, after it the admin server, and returns.
  \<open>Shutdown\<close> closes the listener and waits until no request is in flight or the deadline has passed. The two
  servers for TLS are not shut down; they serve until the process ends. A failed listener ends the process only
  for the gateway server.
\<close>

datatype stage = Serving | Draining_gateway | Draining_admin | Exited int

record process =
  ps_stage :: stage
  ps_listening :: "server_kind \<Rightarrow> bool"
  ps_inflight :: "server_kind \<Rightarrow> nat"
  ps_deadline :: bool

definition process_start :: "http_server list \<Rightarrow> process" where
  "process_start servers = \<lparr> ps_stage = Serving, ps_listening = (\<lambda>k. k \<in> set (map sv_Kind servers)), ps_inflight = (\<lambda>_. 0), ps_deadline = False \<rparr>"

definition running :: "process \<Rightarrow> bool" where
  "running p \<longleftrightarrow> (\<forall>c. ps_stage p \<noteq> Exited c)"

definition stop_listening :: "server_kind \<Rightarrow> process \<Rightarrow> process" where
  "stop_listening k p = p\<lparr> ps_listening := (ps_listening p)(k := False) \<rparr>"

inductive process_step :: "process \<Rightarrow> process \<Rightarrow> bool" where
  request_arrives: "running p \<Longrightarrow> ps_listening p k \<Longrightarrow> process_step p (p\<lparr> ps_inflight := (ps_inflight p)(k := Suc (ps_inflight p k)) \<rparr>)"
| request_ends: "running p \<Longrightarrow> ps_inflight p k = Suc n \<Longrightarrow> process_step p (p\<lparr> ps_inflight := (ps_inflight p)(k := n) \<rparr>)"
| gateway_listener_fails: "running p \<Longrightarrow> ps_listening p GatewayServer \<Longrightarrow> process_step p (p\<lparr> ps_stage := Exited 1 \<rparr>)"
| other_listener_fails: "running p \<Longrightarrow> ps_listening p k \<Longrightarrow> k \<noteq> GatewayServer \<Longrightarrow> process_step p (stop_listening k p)"
| signalled: "ps_stage p = Serving \<Longrightarrow> process_step p ((stop_listening GatewayServer p)\<lparr> ps_stage := Draining_gateway \<rparr>)"
| deadline_passes: "ps_stage p = Draining_gateway \<or> ps_stage p = Draining_admin \<Longrightarrow> process_step p (p\<lparr> ps_deadline := True \<rparr>)"
| gateway_drained: "ps_stage p = Draining_gateway \<Longrightarrow> ps_inflight p GatewayServer = 0 \<or> ps_deadline p \<Longrightarrow>
     process_step p ((stop_listening AdminServer p)\<lparr> ps_stage := Draining_admin \<rparr>)"
| admin_drained: "ps_stage p = Draining_admin \<Longrightarrow> ps_inflight p AdminServer = 0 \<or> ps_deadline p \<Longrightarrow>
     process_step p (p\<lparr> ps_stage := Exited 0 \<rparr>)"

text \<open>In a drained stage the drained servers have no listener and nothing in flight, unless the deadline has passed.\<close>

definition process_ok :: "process \<Rightarrow> bool" where
  "process_ok p \<longleftrightarrow>
     (case ps_stage p of
        Serving \<Rightarrow> True
      | Draining_gateway \<Rightarrow> \<not> ps_listening p GatewayServer
      | Draining_admin \<Rightarrow> \<not> ps_listening p GatewayServer \<and> \<not> ps_listening p AdminServer \<and> (ps_deadline p \<or> ps_inflight p GatewayServer = 0)
      | Exited c \<Rightarrow> (c = 1 \<and> ps_listening p GatewayServer) \<or>
          (c = 0 \<and> (ps_deadline p \<or> ps_inflight p GatewayServer = 0 \<and> ps_inflight p AdminServer = 0)))"

lemma process_step_ok:
  assumes "process_step p q" "process_ok p"
  shows "process_ok q"
  using assms
proof cases
  case (request_arrives k)
  with assms(2) show ?thesis by (cases "ps_stage p"; cases k) (simp_all add: process_ok_def running_def)
next
  case (request_ends k n)
  with assms(2) show ?thesis by (cases "ps_stage p"; cases k) (simp_all add: process_ok_def running_def)
next
  case (other_listener_fails k)
  with assms(2) show ?thesis by (cases "ps_stage p"; cases k) (simp_all add: process_ok_def stop_listening_def running_def)
next
  case deadline_passes
  with assms(2) show ?thesis by (cases "ps_stage p") (simp_all add: process_ok_def)
qed (use assms(2) in \<open>auto simp: process_ok_def stop_listening_def\<close>)

lemma process_reach_ok:
  assumes "process_step\<^sup>*\<^sup>* (process_start servers) p"
  shows "process_ok p"
  using assms
proof (induction rule: rtranclp_induct)
  case base
  then show ?case by (simp add: process_ok_def process_start_def)
next
  case (step p q)
  from process_step_ok [OF step.hyps(2) step.IH] show ?case .
qed


text \<open>
  The same is not true of the TLS port: nothing shuts its server down, so a shutdown without any deadline passing
  can end the process while requests over TLS are being served.
\<close>
theorem tls_requests_cut_off:
  assumes "TLSServer \<in> set (map sv_Kind servers)"
  shows "\<exists>p. process_step\<^sup>*\<^sup>* (process_start servers) p \<and> ps_stage p = Exited 0 \<and> \<not> ps_deadline p \<and> 0 < ps_inflight p TLSServer"
proof -
  let ?p0 = "process_start servers"
  let ?p1 = "?p0\<lparr> ps_inflight := (ps_inflight ?p0)(TLSServer := Suc (ps_inflight ?p0 TLSServer)) \<rparr>"
  let ?p2 = "(stop_listening GatewayServer ?p1)\<lparr> ps_stage := Draining_gateway \<rparr>"
  let ?p3 = "(stop_listening AdminServer ?p2)\<lparr> ps_stage := Draining_admin \<rparr>"
  have "process_step ?p0 ?p1" by (rule request_arrives) (use assms in \<open>simp_all add: process_start_def running_def\<close>)
  moreover have "process_step ?p1 ?p2" by (rule signalled) (simp add: process_start_def)
  moreover have "process_step ?p2 ?p3" by (rule gateway_drained) (simp_all add: process_start_def stop_listening_def)
  moreover have "process_step ?p3 (?p3\<lparr> ps_stage := Exited 0 \<rparr>)" by (rule admin_drained) (simp_all add: process_start_def stop_listening_def)
  ultimately have "process_step\<^sup>*\<^sup>* ?p0 (?p3\<lparr> ps_stage := Exited 0 \<rparr>)" by (meson r_into_rtranclp rtranclp_trans)
  moreover have "ps_stage (?p3\<lparr> ps_stage := Exited 0 \<rparr>) = Exited 0" "\<not> ps_deadline (?p3\<lparr> ps_stage := Exited 0 \<rparr>)"
    "0 < ps_inflight (?p3\<lparr> ps_stage := Exited 0 \<rparr>) TLSServer" by (simp_all add: process_start_def stop_listening_def)
  ultimately show ?thesis by blast
qed

section \<open>Plain HTTP with TLS\<close>

text \<open>
  Every request to port 80 that is not a challenge is answered by a redirect to the same host and URI under
  https. The host is taken as the client sent it, with its port, so that a client that writes the port 80 into
  the host is sent to that port again, where TLS is not spoken.
\<close>

lemma plain_http_redirected:
  assumes "acme r = None" and "resp_status (w_resp w) = None" and "w_layers w = []"
  shows "resp_status (w_resp (snd (HTTPChallengeHandler acme uri r w))) = Some 301 \<and>
    header_Get (resp_sent (w_resp (snd (HTTPChallengeHandler acme uri r w)))) ''Location'' = ''https://'' @ rq_Host r @ uri r"
proof -
  have keys: "CanonicalKey ''Location'' = ''Location''" "CanonicalKey ''Content-Type'' = ''Content-Type''" by code_simp+
  show ?thesis
    using assms
    by (simp add: HTTPChallengeHandler_def challenge_redirect_def Let_def WriteHeader_def Write_body_def set_header_def base_WriteHeader_def
        base_Write_def redirect_target_def header_Get_def header_Set_def keys reply_def)
qed

lemma redirect_keeps_port: "redirect_target ''example.com:80'' ''/a'' = ''https://example.com:80/a''"
  by (simp add: redirect_target_def)

section \<open>The properties at work\<close>


text \<open>
  A bare environment: with a corrupt file the process exits, without a file it starts on the two plain ports, also
  when nothing around it works.
\<close>

definition bare_boot :: "(string \<rightharpoonup> stored_file) \<Rightarrow> boot_env" where
  "bare_boot fs = \<lparr> be_environ = (\<lambda>_. ''''), be_dotenv = None, be_cv = \<lparr> cv_ParseFloat = (\<lambda>_. None), cv_ParseDuration = (\<lambda>_. None) \<rparr>,
     be_exporter = (\<lambda>_. True), be_Ping = True, be_readable = True, be_fs = fs, be_newWatcher = True, be_addDir = (\<lambda>_. True) \<rparr>"


end
