(* ===== verification/Store_Tables.thy ===== *)
theory Store_Tables
  imports Store
begin

text \<open>
  The contract that the three tables of the store (routes, upstreams, IP policies) share, as the
  locale \<open>crud_table\<close>: what a successful create, update or delete does to the table, and that a failed
  one leaves its entries as they were. The lemmas on identifiers, unique names and read-back are
  proved once from it; the interpretations at the end discharge it for the operations of \<open>Store\<close>.
\<close>

section \<open>The interface\<close>

text \<open>
  Keys are the identifiers of the values, and no two values share a name: what the store keeps true
  of each table.
\<close>

definition table_ok :: "('v \<Rightarrow> string) \<Rightarrow> ('v \<Rightarrow> string) \<Rightarrow> (string, 'v) gomap \<Rightarrow> bool" where
  "table_ok id_of name_of m \<longleftrightarrow> gm_wf m \<and>
     (\<forall>k v. map_of m k = Some v \<longrightarrow> id_of v = k) \<and>
     (\<forall>k v k' v'. map_of m k = Some v \<and> map_of m k' = Some v' \<and> name_of v = name_of v' \<longrightarrow> k = k')"

lemma table_ok_Nil [simp]: "table_ok id_of name_of []"
  by (simp add: table_ok_def)

lemma table_ok_same: "same_map m n \<Longrightarrow> table_ok i nm m \<Longrightarrow> table_ok i nm n"
  by (auto simp: table_ok_def same_map_def)

lemma table_ok_put:
  assumes "table_ok i nm m" and "i w = k"
    and "\<And>k' v. map_of m k' = Some v \<Longrightarrow> k' \<noteq> k \<Longrightarrow> nm v \<noteq> nm w"
  shows "table_ok i nm (gm_put k w m)"
  using assms by (auto simp: table_ok_def split: if_splits) metis+

lemma table_ok_del: "table_ok i nm m \<Longrightarrow> table_ok i nm (gm_del k m)"
  by (auto simp: table_ok_def split: if_splits)

locale crud_table =
  fixes tbl :: "store \<Rightarrow> (string, 'v) gomap"
    and id_of :: "'v \<Rightarrow> string"
    and name_of :: "'v \<Rightarrow> string"
    and create :: "store_env \<Rightarrow> 'v \<Rightarrow> store \<Rightarrow> (store_err + 'v) \<times> store"
    and modify :: "store_env \<Rightarrow> string \<Rightarrow> 'v \<Rightarrow> store \<Rightarrow> (store_err + 'v) \<times> store"
    and remove :: "store_env \<Rightarrow> string \<Rightarrow> store \<Rightarrow> store_err option \<times> store"
  assumes create_ok: "create e v s = (Inr w, s') \<Longrightarrow>
      tbl s' = gm_put (env_uuid e) w (tbl s) \<and> id_of w = env_uuid e \<and> name_of w = name_of v \<and>
      (\<forall>p \<in> set (tbl s). name_of (snd p) \<noteq> name_of v)"
    and create_err: "create e v s = (Inl err, s') \<Longrightarrow> map_of (tbl s) (env_uuid e) = None \<Longrightarrow>
      same_map (tbl s) (tbl s')"
    and modify_ok: "modify e k v s = (Inr w, s') \<Longrightarrow>
      \<exists>old. map_of (tbl s) k = Some old \<and> tbl s' = gm_put k w (tbl s) \<and> id_of w = id_of old \<and>
        name_of w = name_of v \<and> (\<forall>p \<in> set (tbl s). fst p \<noteq> k \<longrightarrow> name_of (snd p) \<noteq> name_of v)"
    and modify_err: "modify e k v s = (Inl err, s') \<Longrightarrow> same_map (tbl s) (tbl s')"
    and remove_ok: "remove e k s = (None, s') \<Longrightarrow>
      map_of (tbl s) k \<noteq> None \<and> tbl s' = gm_del k (tbl s)"
    and remove_err: "remove e k s = (Some err, s') \<Longrightarrow> same_map (tbl s) (tbl s')"
begin

lemma create_table_ok:
  assumes "table_ok id_of name_of (tbl s)" and "map_of (tbl s) (env_uuid e) = None"
  shows "table_ok id_of name_of (tbl (snd (create e v s)))"
proof (cases "create e v s")
  case (Pair r s')
  show ?thesis
  proof (cases r)
    case (Inl err)
    with Pair assms have "same_map (tbl s) (tbl s')" by (blast intro: create_err)
    with Pair assms show ?thesis by (simp add: table_ok_same)
  next
    case (Inr w)
    with Pair create_ok have w: "tbl s' = gm_put (env_uuid e) w (tbl s)" "id_of w = env_uuid e"
      "name_of w = name_of v" "\<forall>p \<in> set (tbl s). name_of (snd p) \<noteq> name_of v"
      by blast+
    from w(4) have "\<And>k u. map_of (tbl s) k = Some u \<Longrightarrow> name_of u \<noteq> name_of v"
      by (force dest: map_of_SomeD)
    with w Pair assms(1) show ?thesis by (auto intro!: table_ok_put)
  qed
qed

lemma modify_table_ok:
  assumes "table_ok id_of name_of (tbl s)"
  shows "table_ok id_of name_of (tbl (snd (modify e k v s)))"
proof (cases "modify e k v s")
  case (Pair r s')
  show ?thesis
  proof (cases r)
    case (Inl err)
    with Pair have "same_map (tbl s) (tbl s')" by (blast intro: modify_err)
    with Pair assms show ?thesis by (simp add: table_ok_same)
  next
    case (Inr w)
    with Pair modify_ok obtain old where w: "map_of (tbl s) k = Some old"
      "tbl s' = gm_put k w (tbl s)" "id_of w = id_of old" "name_of w = name_of v"
      "\<forall>p \<in> set (tbl s). fst p \<noteq> k \<longrightarrow> name_of (snd p) \<noteq> name_of v"
      by blast
    from w(5) have "\<And>k' u. map_of (tbl s) k' = Some u \<Longrightarrow> k' \<noteq> k \<Longrightarrow> name_of u \<noteq> name_of v"
      by (force dest: map_of_SomeD)
    moreover have "id_of w = k" using w assms by (auto simp: table_ok_def)
    ultimately show ?thesis using w Pair assms by (auto intro!: table_ok_put)
  qed
qed

lemma remove_table_ok:
  assumes "table_ok id_of name_of (tbl s)"
  shows "table_ok id_of name_of (tbl (snd (remove e k s)))"
proof (cases "remove e k s")
  case (Pair r s')
  show ?thesis
  proof (cases r)
    case None
    with Pair have "tbl s' = gm_del k (tbl s)" by (blast dest: remove_ok)
    with Pair assms show ?thesis by (simp add: table_ok_del)
  next
    case (Some err)
    with Pair have "same_map (tbl s) (tbl s')" by (blast intro: remove_err)
    with Pair assms show ?thesis by (simp add: table_ok_same)
  qed
qed

text \<open>Read-back: what the table holds after a successful operation, at its key and elsewhere.\<close>

lemma create_lookup:
  "create e v s = (Inr w, s') \<Longrightarrow> map_of (tbl s') = (map_of (tbl s))(env_uuid e \<mapsto> w)"
  by (auto dest: create_ok)

lemma modify_lookup:
  "modify e k v s = (Inr w, s') \<Longrightarrow> map_of (tbl s') = (map_of (tbl s))(k \<mapsto> w)"
  by (auto dest: modify_ok)

lemma remove_lookup:
  "remove e k s = (None, s') \<Longrightarrow> map_of (tbl s') = (map_of (tbl s))(k := None)"
  by (auto dest: remove_ok)

end

text \<open>
  Tables with a toggle. A toggle whose write fails reports the error but keeps the change in memory,
  so its contract says nothing about errors: in every case the entry is there with the new flag.
\<close>

locale toggle_table = crud_table +
  fixes active_of :: "'v \<Rightarrow> bool"
    and toggle :: "store_env \<Rightarrow> string \<Rightarrow> bool \<Rightarrow> store \<Rightarrow> (store_err + 'v) \<times> store"
  assumes toggle_missing: "map_of (tbl s) k = None \<Longrightarrow> toggle e k b s = (Inl ErrNotFound, s)"
    and toggle_found: "map_of (tbl s) k = Some v \<Longrightarrow>
      \<exists>w. tbl (snd (toggle e k b s)) = gm_put k w (tbl s) \<and> active_of w = b \<and> id_of w = id_of v \<and>
        name_of w = name_of v \<and> (\<forall>u. fst (toggle e k b s) = Inr u \<longrightarrow> u = w)"
begin

lemma toggle_table_ok:
  assumes "table_ok id_of name_of (tbl s)"
  shows "table_ok id_of name_of (tbl (snd (toggle e k b s)))"
proof (cases "map_of (tbl s) k")
  case None
  with assms toggle_missing show ?thesis by simp
next
  case (Some v)
  with toggle_found obtain w where w: "tbl (snd (toggle e k b s)) = gm_put k w (tbl s)"
    "id_of w = id_of v" "name_of w = name_of v"
    by blast
  have "table_ok id_of name_of (gm_put k w (tbl s))"
    using assms Some w(2,3) by (intro table_ok_put) (auto simp: table_ok_def)
  with w(1) show ?thesis by simp
qed

lemma toggle_sets_flag:
  assumes "map_of (tbl s) k = Some v"
  shows "\<exists>w. map_of (tbl (snd (toggle e k b s))) k = Some w \<and> active_of w = b"
proof -
  obtain w where "tbl (snd (toggle e k b s)) = gm_put k w (tbl s)" and "active_of w = b"
    using toggle_found [OF assms] by blast
  then show ?thesis by simp
qed

end

section \<open>Facts about persist\<close>

text \<open>
  \<open>persist\<close> only writes to the file system, and whether it fails depends on the environment and on
  the file path alone. With \<open>persist_eq\<close> as a rewrite rule each operation becomes a case
  distinction on \<open>persist_res\<close>.
\<close>

definition persist_res :: "store_env \<Rightarrow> store \<Rightarrow> io_error option" where
  "persist_res e s = fst (persist e s)"

definition persist_fs :: "store_env \<Rightarrow> store \<Rightarrow> (string \<rightharpoonup> stored_file)" where
  "persist_fs e s = st_fs (snd (persist e s))"

lemma persist_eq: "persist e s = (persist_res e s, s\<lparr> st_fs := persist_fs e s \<rparr>)"
  by (simp add: persist_res_def persist_fs_def persist_def Let_def split: persist_io.split)

lemma persist_res_cases:
  "persist_res e s = (if st_filePath s = '''' then None else case env_io e of
     IO_ok \<Rightarrow> None | IO_marshal_fails \<Rightarrow> Some MarshalError | IO_write_fails _ \<Rightarrow> Some WriteError
   | IO_rename_fails \<Rightarrow> Some RenameError)"
  by (simp add: persist_res_def persist_def Let_def split: persist_io.split)

lemma persist_fs_cases:
  "persist_fs e s = (if st_filePath s = '''' then st_fs s else case env_io e of
     IO_ok \<Rightarrow> (st_fs s)(tmp_path s := None, st_filePath s \<mapsto> JSON (Export (env_orders e) s))
   | IO_marshal_fails \<Rightarrow> st_fs s
   | IO_write_fails junk \<Rightarrow> (st_fs s)(tmp_path s := junk)
   | IO_rename_fails \<Rightarrow> (st_fs s)(tmp_path s \<mapsto> JSON (Export (env_orders e) s)))"
  by (simp add: persist_fs_def persist_def Let_def split: persist_io.split)

lemma tmp_path_neq [simp]: "tmp_path s \<noteq> st_filePath s" "st_filePath s \<noteq> tmp_path s"
  by (simp_all add: tmp_path_def)

named_theorems store_op_defs \<open>the operations of the store, for case analysis\<close>

declare CreateRoute_def [store_op_defs] UpdateRoute_def [store_op_defs]
  DeleteRoute_def [store_op_defs] ToggleRoute_def [store_op_defs]
  CreateUpstream_def [store_op_defs] UpdateUpstream_def [store_op_defs]
  DeleteUpstream_def [store_op_defs]
  CreateIPPolicy_def [store_op_defs] UpdateIPPolicy_def [store_op_defs]
  DeleteIPPolicy_def [store_op_defs] ToggleIPPolicy_def [store_op_defs]
  CreateAPIKey_def [store_op_defs] DeleteAPIKey_def [store_op_defs] ToggleAPIKey_def [store_op_defs]

lemma list_ex_pair: "list_ex (\<lambda>(k, v). P k v) m \<longleftrightarrow> (\<exists>(k, v) \<in> set m. P k v)"
  by (simp add: list_ex_iff)

lemmas store_op_simps = store_op_defs persist_eq Let_def notify_def list_ex_pair
lemmas store_op_splits = if_splits option.splits sum.splits prod.splits

section \<open>The interpretations\<close>

interpretation routes: toggle_table st_routes r_ID r_Name CreateRoute UpdateRoute DeleteRoute r_Active ToggleRoute
proof unfold_locales
  fix e v s err s'
  assume "CreateRoute e v s = (Inl err, s')" and "map_of (st_routes s) (env_uuid e) = None"
  then show "same_map (st_routes s) (st_routes s')"
    by (auto simp: store_op_simps gm_undo_create split: store_op_splits)
next
  fix e k v s err s'
  assume "UpdateRoute e k v s = (Inl err, s')"
  then show "same_map (st_routes s) (st_routes s')"
    by (auto simp: store_op_simps gm_undo_update split: store_op_splits)
next
  fix e k s err s'
  assume "DeleteRoute e k s = (Some err, s')"
  then show "same_map (st_routes s) (st_routes s')"
    by (auto simp: store_op_simps same_map_undo_delete split: store_op_splits)
qed (auto simp: store_op_simps split: store_op_splits)

interpretation policies: toggle_table st_policies ip_ID ip_Name CreateIPPolicy UpdateIPPolicy DeleteIPPolicy ip_Active ToggleIPPolicy
proof unfold_locales
  fix e v s err s'
  assume "CreateIPPolicy e v s = (Inl err, s')" and "map_of (st_policies s) (env_uuid e) = None"
  then show "same_map (st_policies s) (st_policies s')"
    by (auto simp: store_op_simps gm_undo_create split: store_op_splits)
next
  fix e k v s err s'
  assume "UpdateIPPolicy e k v s = (Inl err, s')"
  then show "same_map (st_policies s) (st_policies s')"
    by (auto simp: store_op_simps gm_undo_update split: store_op_splits)
next
  fix e k s err s'
  assume "DeleteIPPolicy e k s = (Some err, s')"
  then show "same_map (st_policies s) (st_policies s')"
    by (auto simp: store_op_simps same_map_undo_delete split: store_op_splits)
qed (auto simp: store_op_simps split: store_op_splits)

interpretation upstreams: crud_table st_upstreams u_ID u_Name CreateUpstream UpdateUpstream DeleteUpstream
proof unfold_locales
  fix e v s err s'
  assume "CreateUpstream e v s = (Inl err, s')" and "map_of (st_upstreams s) (env_uuid e) = None"
  then show "same_map (st_upstreams s) (st_upstreams s')"
    by (auto simp: store_op_simps gm_undo_create split: store_op_splits)
next
  fix e k v s err s'
  assume "UpdateUpstream e k v s = (Inl err, s')"
  then show "same_map (st_upstreams s) (st_upstreams s')"
    by (auto simp: store_op_simps gm_undo_update split: store_op_splits)
next
  fix e k s err s'
  assume "DeleteUpstream e k s = (Some err, s')"
  then show "same_map (st_upstreams s) (st_upstreams s')"
    by (auto simp: store_op_simps same_map_undo_delete split: store_op_splits)
qed (auto simp: store_op_simps split: store_op_splits)

end
