(* ===== verification/Store_Correct.thy ===== *)
theory Store_Correct
  imports Store_Tables
begin

text \<open>
  Correctness of the store: the invariant \<open>wf_store\<close> and that every operation, and a restart from
  the file the store wrote, keeps it; that failed operations leave the tables alone; that the file is
  replaced atomically and read back as it was written; and the life of an API key, including the two
  places where the shared object that \<open>CreateAPIKey\<close> clears breaks revocation and persistence.
\<close>

section \<open>The invariant\<close>

text \<open>The API key stored under an identifier, through the heap.\<close>

definition keyview :: "store \<Rightarrow> string \<rightharpoonup> APIKey" where
  "keyview s rid = map_option (\<lambda>a. st_heap s ! a) (map_of (st_apiKeys s) rid)"

definition view_ok :: "('v \<Rightarrow> string) \<Rightarrow> ('v \<Rightarrow> string) \<Rightarrow> (string \<rightharpoonup> 'v) \<Rightarrow> bool" where
  "view_ok i nm f \<longleftrightarrow> (\<forall>k v. f k = Some v \<longrightarrow> i v = k) \<and>
     (\<forall>k v k' v'. f k = Some v \<and> f k' = Some v' \<and> nm v = nm v' \<longrightarrow> k = k')"

definition keys_ok :: "store \<Rightarrow> bool" where
  "keys_ok s \<longleftrightarrow> gm_wf (st_apiKeys s) \<and> gm_wf (st_hashIndex s) \<and>
     (\<forall>k a. map_of (st_apiKeys s) k = Some a \<longrightarrow> a < length (st_heap s)) \<and>
     (\<forall>h a. map_of (st_hashIndex s) h = Some a \<longrightarrow> a < length (st_heap s)) \<and>
     view_ok k_ID k_Name (keyview s)"

text \<open>Every upstream that a route names exists.\<close>

definition refs_ok :: "store \<Rightarrow> bool" where
  "refs_ok s \<longleftrightarrow> (\<forall>k r. map_of (st_routes s) k = Some r \<and> r_UpstreamID r \<noteq> '''' \<longrightarrow>
     map_of (st_upstreams s) (r_UpstreamID r) \<noteq> None)"

definition wf_store :: "store \<Rightarrow> bool" where
  "wf_store s \<longleftrightarrow> table_ok r_ID r_Name (st_routes s) \<and> table_ok u_ID u_Name (st_upstreams s) \<and>
     table_ok ip_ID ip_Name (st_policies s) \<and> refs_ok s \<and> keys_ok s"

section \<open>Runs of the store\<close>

datatype store_op =
    CreateRouteOp Route | UpdateRouteOp string Route | DeleteRouteOp string | ToggleRouteOp string bool
  | CreateUpstreamOp Upstream | UpdateUpstreamOp string Upstream | DeleteUpstreamOp string
  | CreateIPPolicyOp IPPolicy | UpdateIPPolicyOp string IPPolicy | DeleteIPPolicyOp string
  | ToggleIPPolicyOp string bool
  | CreateAPIKeyOp APIKey | DeleteAPIKeyOp string | ToggleAPIKeyOp string bool
  | OnChangeOp nat

definition err_of :: "(store_err + 'v) \<times> store \<Rightarrow> store_err option \<times> store" where
  "err_of rs = (case fst rs of Inl err \<Rightarrow> Some err | Inr _ \<Rightarrow> None, snd rs)"

text \<open>One operation: its error, if any, and the store after it.\<close>

fun run_op :: "store_env \<Rightarrow> store_op \<Rightarrow> store \<Rightarrow> store_err option \<times> store" where
  "run_op e (CreateRouteOp r) s = err_of (CreateRoute e r s)"
| "run_op e (UpdateRouteOp rid r) s = err_of (UpdateRoute e rid r s)"
| "run_op e (DeleteRouteOp rid) s = DeleteRoute e rid s"
| "run_op e (ToggleRouteOp rid b) s = err_of (ToggleRoute e rid b s)"
| "run_op e (CreateUpstreamOp u) s = err_of (CreateUpstream e u s)"
| "run_op e (UpdateUpstreamOp rid u) s = err_of (UpdateUpstream e rid u s)"
| "run_op e (DeleteUpstreamOp rid) s = DeleteUpstream e rid s"
| "run_op e (CreateIPPolicyOp p) s = err_of (CreateIPPolicy e p s)"
| "run_op e (UpdateIPPolicyOp rid p) s = err_of (UpdateIPPolicy e rid p s)"
| "run_op e (DeleteIPPolicyOp rid) s = DeleteIPPolicy e rid s"
| "run_op e (ToggleIPPolicyOp rid b) s = err_of (ToggleIPPolicy e rid b s)"
| "run_op e (CreateAPIKeyOp k) s = err_of (CreateAPIKey e k s)"
| "run_op e (DeleteAPIKeyOp rid) s = DeleteAPIKey e rid s"
| "run_op e (ToggleAPIKeyOp rid b) s = err_of (ToggleAPIKey e rid b s)"
| "run_op e (OnChangeOp fn) s = (None, OnChange fn s)"

text \<open>
  What the run time promises of one call: the identifier from \<open>uuid.NewString\<close> is not in use, and
  a range over a map visits each entry once.
\<close>

definition good_env :: "store_env \<Rightarrow> store \<Rightarrow> bool" where
  "good_env e s \<longleftrightarrow> fair_orders (env_orders e) \<and>
     map_of (st_routes s) (env_uuid e) = None \<and> map_of (st_upstreams s) (env_uuid e) = None \<and>
     map_of (st_policies s) (env_uuid e) = None \<and> map_of (st_apiKeys s) (env_uuid e) = None"

text \<open>
  The states of a gateway that starts without a configuration file, serves operations and is
  restarted from its own file any number of times.
\<close>

inductive store_reachable :: "store \<Rightarrow> bool" where
  first_start: "path = '''' \<or> fs path = None \<Longrightarrow> New readable path fs = Inr s \<Longrightarrow> store_reachable s"
| operation: "store_reachable s \<Longrightarrow> good_env e s \<Longrightarrow> store_reachable (snd (run_op e opn s))"
| restart: "store_reachable s \<Longrightarrow> New readable (st_filePath s) (st_fs s) = Inr t \<Longrightarrow> store_reachable t"

section \<open>Views of the loaded store\<close>

lemma table_ok_view: "table_ok i nm m \<longleftrightarrow> gm_wf m \<and> view_ok i nm (map_of m)"
  by (simp add: table_ok_def view_ok_def)

lemma fold_put_wf: "gm_wf acc \<Longrightarrow> gm_wf (fold (\<lambda>v. gm_put (i v) v) vs acc)"
  by (induction vs arbitrary: acc) auto

lemma dom_self_map: "dom (map_of (map (\<lambda>v. (i v, v)) vs)) = i ` set vs"
  by (simp add: dom_map_of_conv_image_fst image_image)

lemma fold_put_view:
  "distinct (map i vs) \<Longrightarrow>
    map_of (fold (\<lambda>v. gm_put (i v) v) vs acc) = map_of acc ++ map_of (map (\<lambda>v. (i v, v)) vs)"
proof (induction vs arbitrary: acc)
  case (Cons v vs)
  then have "i v \<notin> dom (map_of (map (\<lambda>v. (i v, v)) vs))" by (simp add: dom_self_map)
  with Cons show ?case by (auto simp: map_add_def fun_eq_iff split: option.split)
qed simp

lemma values_with_ids:
  assumes "\<forall>(k, v) \<in> set n. i v = k"
  shows "map (\<lambda>v. (i v, v)) (map snd n) = n" and "map i (map snd n) = map fst n"
  using assms by (induction n) auto

lemma table_reload:
  assumes ok: "table_ok i nm m" and ord: "range_order \<sigma>"
  shows "map_of (fold (\<lambda>v. gm_put (i v) v) (map snd (\<sigma> m)) []) = map_of m"
proof -
  have ids: "\<forall>(k, v) \<in> set (\<sigma> m). i v = k"
    using ok ord by (auto simp: table_ok_def gm_mem_iff)
  have "gm_wf (\<sigma> m)" using ok ord by (simp add: table_ok_def)
  then have "distinct (map i (map snd (\<sigma> m)))"
    by (simp only: values_with_ids(2) [OF ids] gm_wf_def)
  then show ?thesis
    using ok ord by (simp only: fold_put_view values_with_ids(1) [OF ids])
      (simp add: range_order_get table_ok_def)
qed

lemma load_key_fields [simp]:
  "st_routes (load_key k s) = st_routes s" "st_upstreams (load_key k s) = st_upstreams s"
  "st_policies (load_key k s) = st_policies s" "st_filePath (load_key k s) = st_filePath s"
  "st_fs (load_key k s) = st_fs s" "st_heap (load_key k s) = st_heap s @ [k]"
  "st_apiKeys (load_key k s) = gm_put (k_ID k) (length (st_heap s)) (st_apiKeys s)"
  by (simp_all add: load_key_def Let_def)

lemma load_keys_fields [simp]:
  "st_routes (fold load_key ks s) = st_routes s" "st_upstreams (fold load_key ks s) = st_upstreams s"
  "st_policies (fold load_key ks s) = st_policies s" "st_filePath (fold load_key ks s) = st_filePath s"
  "st_fs (fold load_key ks s) = st_fs s"
  by (induction ks arbitrary: s) auto

text \<open>The part of \<open>keys_ok\<close> that loading any list of keys keeps.\<close>

definition keys_shape :: "store \<Rightarrow> bool" where
  "keys_shape s \<longleftrightarrow> gm_wf (st_apiKeys s) \<and> gm_wf (st_hashIndex s) \<and>
     (\<forall>k a. map_of (st_apiKeys s) k = Some a \<longrightarrow> a < length (st_heap s)) \<and>
     (\<forall>h a. map_of (st_hashIndex s) h = Some a \<longrightarrow> a < length (st_heap s))"

lemma keys_ok_shape: "keys_ok s \<longleftrightarrow> keys_shape s \<and> view_ok k_ID k_Name (keyview s)"
  by (auto simp: keys_ok_def keys_shape_def)

lemma load_key_shape: "keys_shape s \<Longrightarrow> keys_shape (load_key k s)"
  by (auto simp: keys_shape_def load_key_def Let_def less_Suc_eq split: if_splits)

lemma load_keys_shape: "keys_shape s \<Longrightarrow> keys_shape (fold load_key ks s)"
  by (induction ks arbitrary: s) (auto simp: load_key_shape)

lemma load_key_view:
  assumes "keys_shape s"
  shows "keyview (load_key k s) = (keyview s)(k_ID k \<mapsto> k)"
proof
  fix i
  have "map_of (st_apiKeys s) i = Some a \<Longrightarrow> a < length (st_heap s)" for a
    using assms by (auto simp: keys_shape_def)
  then show "keyview (load_key k s) i = ((keyview s)(k_ID k \<mapsto> k)) i"
    by (cases "map_of (st_apiKeys s) i") (auto simp: keyview_def nth_append)
qed

lemma load_keys_view:
  "keys_shape s \<Longrightarrow> distinct (map k_ID ks) \<Longrightarrow>
    keyview (fold load_key ks s) = keyview s ++ map_of (map (\<lambda>k. (k_ID k, k)) ks)"
proof (induction ks arbitrary: s)
  case (Cons k ks)
  then have "k_ID k \<notin> dom (map_of (map (\<lambda>k. (k_ID k, k)) ks))" by (simp add: dom_self_map)
  with Cons show ?case
    by (auto simp: load_key_shape load_key_view map_add_def fun_eq_iff split: option.split)
qed simp

lemma load_keys_hash:
  "map_of (st_hashIndex (fold load_key ks s)) h = Some a \<Longrightarrow>
    map_of (st_hashIndex s) h = Some a \<or> (\<exists>k \<in> set ks. k_KeyHash k = h)"
proof (induction ks arbitrary: s)
  case (Cons k ks)
  then have "map_of (st_hashIndex (load_key k s)) h = Some a \<or> (\<exists>k \<in> set ks. k_KeyHash k = h)"
    by simp
  then show ?case by (auto simp: load_key_def Let_def split: if_splits)
qed simp

lemma keys_shape_empty [simp]: "keys_shape (empty_store path fs)"
  by (simp add: keys_shape_def empty_store_def)

lemma keys_of_order:
  assumes ok: "keys_ok s" and ord: "range_order \<sigma>"
  shows "map_of (map (\<lambda>k. (k_ID k, k)) (map (\<lambda>(rid, a). st_heap s ! a) (\<sigma> (st_apiKeys s)))) = keyview s"
    and "distinct (map k_ID (map (\<lambda>(rid, a). st_heap s ! a) (\<sigma> (st_apiKeys s))))"
proof -
  let ?n = "\<sigma> (st_apiKeys s)"
  have wf: "gm_wf (st_apiKeys s)" and wfn: "gm_wf ?n"
    using ok ord by (simp_all add: keys_ok_def)
  have ids: "\<forall>(k, a) \<in> set ?n. k_ID (st_heap s ! a) = k"
  proof clarify
    fix k a
    assume "(k, a) \<in> set ?n"
    then have "map_of (st_apiKeys s) k = Some a" using ord wf by (simp add: gm_mem_iff)
    then have "keyview s k = Some (st_heap s ! a)" by (simp add: keyview_def)
    then show "k_ID (st_heap s ! a) = k" using ok by (simp add: keys_ok_def view_ok_def)
  qed
  then have 1: "map (\<lambda>k. (k_ID k, k)) (map (\<lambda>(rid, a). st_heap s ! a) ?n) =
      map (\<lambda>(k, a). (k, st_heap s ! a)) ?n"
    by (auto simp: comp_def)
  show "map_of (map (\<lambda>k. (k_ID k, k)) (map (\<lambda>(rid, a). st_heap s ! a) ?n)) = keyview s"
    unfolding 1 using ord wf by (auto simp: map_of_map keyview_def range_order_get comp_def)
  have "map k_ID (map (\<lambda>(rid, a). st_heap s ! a) ?n) = map fst ?n"
    using ids by (auto simp: comp_def)
  then show "distinct (map k_ID (map (\<lambda>(rid, a). st_heap s ! a) ?n))"
    using wfn by (simp only: gm_wf_def)
qed

lemma load_snapshot_Export:
  fixes path fs
  assumes "wf_store s" and "fair_orders os"
  defines "t \<equiv> load_snapshot (Export os s) (empty_store path fs)"
  shows "map_of (st_routes t) = map_of (st_routes s)" and "map_of (st_upstreams t) = map_of (st_upstreams s)"
    and "map_of (st_policies t) = map_of (st_policies s)" and "keyview t = keyview s"
    and "gm_wf (st_routes t)" and "gm_wf (st_upstreams t)" and "gm_wf (st_policies t)" and "keys_shape t"
proof -
  have k: "keys_ok s" and o: "range_order (ord_keys os)"
    using assms by (auto simp: wf_store_def fair_orders_def)
  show "keyview t = keyview s"
    using keys_of_order [OF k o]
    by (simp add: t_def load_snapshot_def load_keys_view keys_shape_def empty_store_def Export_def)
      (simp add: keyview_def map_add_def fun_eq_iff split: option.split)
  show "keys_shape t"
    unfolding t_def load_snapshot_def by (rule load_keys_shape) (simp add: keys_shape_def empty_store_def)
qed (insert assms(1,2), auto simp: t_def wf_store_def fair_orders_def load_snapshot_def empty_store_def
      Export_def table_reload fold_put_wf)

lemma load_snapshot_wf:
  assumes "wf_store s" and "fair_orders os"
  shows "wf_store (load_snapshot (Export os s) (empty_store path fs))"
  using load_snapshot_Export [OF assms, of path fs] assms(1)
  by (auto simp: wf_store_def table_ok_view keys_ok_shape refs_ok_def)

section \<open>What each operation writes\<close>

text \<open>The part of the store that the invariant and \<open>Export\<close> read.\<close>

definition same_data :: "store \<Rightarrow> store \<Rightarrow> bool" where
  "same_data s t \<longleftrightarrow> st_routes s = st_routes t \<and> st_upstreams s = st_upstreams t \<and>
     st_policies s = st_policies t \<and> st_heap s = st_heap t \<and> st_apiKeys s = st_apiKeys t \<and>
     st_hashIndex s = st_hashIndex t"

lemma keyview_cong: "st_heap s = st_heap t \<Longrightarrow> st_apiKeys s = st_apiKeys t \<Longrightarrow> keyview s = keyview t"
  by (simp add: keyview_def fun_eq_iff)

lemma keys_ok_cong:
  "st_heap s = st_heap t \<Longrightarrow> st_apiKeys s = st_apiKeys t \<Longrightarrow> st_hashIndex s = st_hashIndex t \<Longrightarrow>
    keys_ok s = keys_ok t"
  using keyview_cong [of s t] by (simp add: keys_ok_def)

lemma keys_ok_fs [simp]: "keys_ok (s\<lparr> st_fs := f \<rparr>) = keys_ok s"
  by (rule keys_ok_cong) simp_all

lemma wf_store_cong: "same_data s t \<Longrightarrow> wf_store s = wf_store t"
  using keys_ok_cong [of s t] by (auto simp: same_data_def wf_store_def refs_ok_def)

named_theorems store_frames \<open>fields an operation leaves alone\<close>

lemma route_ops_frame [store_frames]:
  "st_upstreams (snd (CreateRoute e r s)) = st_upstreams s"
  "st_policies (snd (CreateRoute e r s)) = st_policies s"
  "st_heap (snd (CreateRoute e r s)) = st_heap s"
  "st_apiKeys (snd (CreateRoute e r s)) = st_apiKeys s"
  "st_hashIndex (snd (CreateRoute e r s)) = st_hashIndex s"
  "st_filePath (snd (CreateRoute e r s)) = st_filePath s"
  "st_upstreams (snd (UpdateRoute e i r s)) = st_upstreams s"
  "st_policies (snd (UpdateRoute e i r s)) = st_policies s"
  "st_heap (snd (UpdateRoute e i r s)) = st_heap s"
  "st_apiKeys (snd (UpdateRoute e i r s)) = st_apiKeys s"
  "st_hashIndex (snd (UpdateRoute e i r s)) = st_hashIndex s"
  "st_filePath (snd (UpdateRoute e i r s)) = st_filePath s"
  "st_upstreams (snd (DeleteRoute e i s)) = st_upstreams s"
  "st_policies (snd (DeleteRoute e i s)) = st_policies s"
  "st_heap (snd (DeleteRoute e i s)) = st_heap s"
  "st_apiKeys (snd (DeleteRoute e i s)) = st_apiKeys s"
  "st_hashIndex (snd (DeleteRoute e i s)) = st_hashIndex s"
  "st_filePath (snd (DeleteRoute e i s)) = st_filePath s"
  "st_upstreams (snd (ToggleRoute e i b s)) = st_upstreams s"
  "st_policies (snd (ToggleRoute e i b s)) = st_policies s"
  "st_heap (snd (ToggleRoute e i b s)) = st_heap s"
  "st_apiKeys (snd (ToggleRoute e i b s)) = st_apiKeys s"
  "st_hashIndex (snd (ToggleRoute e i b s)) = st_hashIndex s"
  "st_filePath (snd (ToggleRoute e i b s)) = st_filePath s"
  by (simp_all add: store_op_simps split: option.split)

lemma upstream_ops_frame [store_frames]:
  "st_routes (snd (CreateUpstream e u s)) = st_routes s"
  "st_policies (snd (CreateUpstream e u s)) = st_policies s"
  "st_heap (snd (CreateUpstream e u s)) = st_heap s"
  "st_apiKeys (snd (CreateUpstream e u s)) = st_apiKeys s"
  "st_hashIndex (snd (CreateUpstream e u s)) = st_hashIndex s"
  "st_filePath (snd (CreateUpstream e u s)) = st_filePath s"
  "st_routes (snd (UpdateUpstream e i u s)) = st_routes s"
  "st_policies (snd (UpdateUpstream e i u s)) = st_policies s"
  "st_heap (snd (UpdateUpstream e i u s)) = st_heap s"
  "st_apiKeys (snd (UpdateUpstream e i u s)) = st_apiKeys s"
  "st_hashIndex (snd (UpdateUpstream e i u s)) = st_hashIndex s"
  "st_filePath (snd (UpdateUpstream e i u s)) = st_filePath s"
  "st_routes (snd (DeleteUpstream e i s)) = st_routes s"
  "st_policies (snd (DeleteUpstream e i s)) = st_policies s"
  "st_heap (snd (DeleteUpstream e i s)) = st_heap s"
  "st_apiKeys (snd (DeleteUpstream e i s)) = st_apiKeys s"
  "st_hashIndex (snd (DeleteUpstream e i s)) = st_hashIndex s"
  "st_filePath (snd (DeleteUpstream e i s)) = st_filePath s"
  by (simp_all add: store_op_simps split: option.split)

lemma policy_ops_frame [store_frames]:
  "st_routes (snd (CreateIPPolicy e p s)) = st_routes s"
  "st_upstreams (snd (CreateIPPolicy e p s)) = st_upstreams s"
  "st_heap (snd (CreateIPPolicy e p s)) = st_heap s"
  "st_apiKeys (snd (CreateIPPolicy e p s)) = st_apiKeys s"
  "st_hashIndex (snd (CreateIPPolicy e p s)) = st_hashIndex s"
  "st_filePath (snd (CreateIPPolicy e p s)) = st_filePath s"
  "st_routes (snd (UpdateIPPolicy e i p s)) = st_routes s"
  "st_upstreams (snd (UpdateIPPolicy e i p s)) = st_upstreams s"
  "st_heap (snd (UpdateIPPolicy e i p s)) = st_heap s"
  "st_apiKeys (snd (UpdateIPPolicy e i p s)) = st_apiKeys s"
  "st_hashIndex (snd (UpdateIPPolicy e i p s)) = st_hashIndex s"
  "st_filePath (snd (UpdateIPPolicy e i p s)) = st_filePath s"
  "st_routes (snd (DeleteIPPolicy e i s)) = st_routes s"
  "st_upstreams (snd (DeleteIPPolicy e i s)) = st_upstreams s"
  "st_heap (snd (DeleteIPPolicy e i s)) = st_heap s"
  "st_apiKeys (snd (DeleteIPPolicy e i s)) = st_apiKeys s"
  "st_hashIndex (snd (DeleteIPPolicy e i s)) = st_hashIndex s"
  "st_filePath (snd (DeleteIPPolicy e i s)) = st_filePath s"
  "st_routes (snd (ToggleIPPolicy e i b s)) = st_routes s"
  "st_upstreams (snd (ToggleIPPolicy e i b s)) = st_upstreams s"
  "st_heap (snd (ToggleIPPolicy e i b s)) = st_heap s"
  "st_apiKeys (snd (ToggleIPPolicy e i b s)) = st_apiKeys s"
  "st_hashIndex (snd (ToggleIPPolicy e i b s)) = st_hashIndex s"
  "st_filePath (snd (ToggleIPPolicy e i b s)) = st_filePath s"
  by (simp_all add: store_op_simps split: option.split)

lemma key_ops_frame [store_frames]:
  "st_routes (snd (CreateAPIKey e k s)) = st_routes s"
  "st_upstreams (snd (CreateAPIKey e k s)) = st_upstreams s"
  "st_policies (snd (CreateAPIKey e k s)) = st_policies s"
  "st_filePath (snd (CreateAPIKey e k s)) = st_filePath s"
  "st_routes (snd (DeleteAPIKey e i s)) = st_routes s"
  "st_upstreams (snd (DeleteAPIKey e i s)) = st_upstreams s"
  "st_policies (snd (DeleteAPIKey e i s)) = st_policies s"
  "st_filePath (snd (DeleteAPIKey e i s)) = st_filePath s"
  "st_routes (snd (ToggleAPIKey e i b s)) = st_routes s"
  "st_upstreams (snd (ToggleAPIKey e i b s)) = st_upstreams s"
  "st_policies (snd (ToggleAPIKey e i b s)) = st_policies s"
  "st_filePath (snd (ToggleAPIKey e i b s)) = st_filePath s"
  by (simp_all add: store_op_simps split: option.split)

lemma OnChange_fields [simp]:
  "st_routes (OnChange fn s) = st_routes s" "st_upstreams (OnChange fn s) = st_upstreams s"
  "st_policies (OnChange fn s) = st_policies s" "st_heap (OnChange fn s) = st_heap s"
  "st_apiKeys (OnChange fn s) = st_apiKeys s" "st_hashIndex (OnChange fn s) = st_hashIndex s"
  "st_filePath (OnChange fn s) = st_filePath s" "st_fs (OnChange fn s) = st_fs s"
  by (simp_all add: OnChange_def)

lemma err_of_snd [simp]: "snd (err_of rs) = snd rs"
  by (simp add: err_of_def)

section \<open>Every operation keeps the invariant\<close>

text \<open>References: creating or changing a route checks them, deleting an upstream respects them.\<close>

lemma refs_route_ops:
  assumes "refs_ok s"
  shows "map_of (st_routes s) (env_uuid e) = None \<Longrightarrow> refs_ok (snd (CreateRoute e r s))"
    and "refs_ok (snd (UpdateRoute e i r s))"
    and "refs_ok (snd (DeleteRoute e i s))" and "refs_ok (snd (ToggleRoute e i b s))"
  using assms
  by (auto simp: refs_ok_def store_op_simps gm_undo_create split: option.splits if_splits)

lemma refs_upstream_ops:
  assumes "refs_ok s" and "gm_wf (st_routes s)"
  shows "map_of (st_upstreams s) (env_uuid e) = None \<Longrightarrow> refs_ok (snd (CreateUpstream e u s))"
    and "refs_ok (snd (UpdateUpstream e i u s))" and "refs_ok (snd (DeleteUpstream e i s))"
  using assms
  by (auto simp: refs_ok_def store_op_simps gm_undo_create gm_mem_iff split: option.splits if_splits)


text \<open>
  API keys. \<open>CreateAPIKey\<close> appends an object to the heap and points both maps at it; on success it
  then clears the hash of that same object.
\<close>

definition stamped :: "store_env \<Rightarrow> APIKey \<Rightarrow> APIKey" where
  "stamped e k = k\<lparr> k_ID := env_uuid e, k_CreatedAt := env_now e, k_UpdatedAt := env_now e \<rparr>"

definition key_added :: "APIKey \<Rightarrow> string \<Rightarrow> APIKey \<Rightarrow> store \<Rightarrow> store" where
  "key_added cp h stored s = s\<lparr> st_heap := st_heap s @ [stored],
     st_apiKeys := gm_put (k_ID cp) (length (st_heap s)) (st_apiKeys s),
     st_hashIndex := gm_put h (length (st_heap s)) (st_hashIndex s) \<rparr>"

lemma CreateAPIKey_eq:
  "CreateAPIKey e k s =
     (if \<exists>(i, a) \<in> set (st_apiKeys s). k_Name (st_heap s ! a) = k_Name k then (Inl ErrConflict, s)
      else if k_KeyHash k = '''' then (Inl ErrHashRequired, s)
      else let s1 = key_added (stamped e k) (k_KeyHash k) (stamped e k) s in
        case persist_res e s1 of
          None \<Rightarrow> (Inr ((stamped e k)\<lparr> k_KeyHash := '''' \<rparr>),
            (key_added (stamped e k) (k_KeyHash k) ((stamped e k)\<lparr> k_KeyHash := '''' \<rparr>) s)\<lparr> st_fs := persist_fs e s1 \<rparr>)
        | Some err \<Rightarrow> (Inl (ErrIO err),
            s1\<lparr> st_fs := persist_fs e s1, st_apiKeys := gm_del (env_uuid e) (st_apiKeys s1),
                st_hashIndex := gm_del (k_KeyHash k) (st_hashIndex s1) \<rparr>))"
  by (simp add: store_op_simps key_added_def stamped_def list_update_append split: option.split)

lemma key_added_fields [simp]:
  "st_heap (key_added cp h v s) = st_heap s @ [v]"
  "st_apiKeys (key_added cp h v s) = gm_put (k_ID cp) (length (st_heap s)) (st_apiKeys s)"
  "st_hashIndex (key_added cp h v s) = gm_put h (length (st_heap s)) (st_hashIndex s)"
  "st_filePath (key_added cp h v s) = st_filePath s"
  "st_fs (key_added cp h v s) = st_fs s"
  "st_routes (key_added cp h v s) = st_routes s" "st_upstreams (key_added cp h v s) = st_upstreams s"
  "st_policies (key_added cp h v s) = st_policies s"
  by (simp_all add: key_added_def)

lemma stamped_fields [simp]:
  "k_ID (stamped e k) = env_uuid e" "k_Name (stamped e k) = k_Name k"
  "k_KeyHash (stamped e k) = k_KeyHash k" "k_Active (stamped e k) = k_Active k"
  by (simp_all add: stamped_def)

lemma keys_shape_added: "keys_shape s \<Longrightarrow> keys_shape (key_added cp h v s)"
  by (auto simp: keys_shape_def less_Suc_eq split: if_splits)

lemma keyview_added:
  assumes "keys_shape s"
  shows "keyview (key_added cp h v s) = (keyview s)(k_ID cp \<mapsto> v)"
proof
  fix i
  have "map_of (st_apiKeys s) i = Some a \<Longrightarrow> a < length (st_heap s)" for a
    using assms by (auto simp: keys_shape_def)
  then show "keyview (key_added cp h v s) i = ((keyview s)(k_ID cp \<mapsto> v)) i"
    by (cases "map_of (st_apiKeys s) i") (auto simp: keyview_def nth_append)
qed

lemma view_ok_put:
  assumes "view_ok i nm f" and "i w = k" and "\<And>k' v. f k' = Some v \<Longrightarrow> k' \<noteq> k \<Longrightarrow> nm v \<noteq> nm w"
  shows "view_ok i nm (f(k \<mapsto> w))"
  using assms by (auto simp: view_ok_def split: if_splits) metis+

lemma view_ok_cong:
  assumes i: "\<And>j. map_option i (g j) = map_option i (f j)" and nm: "\<And>j. map_option nm (g j) = map_option nm (f j)"
    and ok: "view_ok i nm f"
  shows "view_ok i nm g"
proof -
  have orig: "\<exists>w. f k = Some w \<and> i w = i v \<and> nm w = nm v" if "g k = Some v" for k v
    using that i [of k] nm [of k] by (cases "f k") auto
  show ?thesis
    unfolding view_ok_def
  proof (intro conjI allI impI; (elim conjE)?)
    fix k v
    assume "g k = Some v"
    then show "i v = k" using orig ok unfolding view_ok_def by metis
  next
    fix k v k' v'
    assume "g k = Some v" and "g k' = Some v'" and "nm v = nm v'"
    then obtain w w' where "f k = Some w" "nm w = nm v" "f k' = Some w'" "nm w' = nm v'"
      using orig by metis
    with \<open>nm v = nm v'\<close> ok show "k = k'" unfolding view_ok_def by metis
  qed
qed

lemma view_ok_del: "view_ok i nm f \<Longrightarrow> view_ok i nm (f(k := None))"
  by (auto simp: view_ok_def split: if_splits)

lemma keyview_Some: "keyview s i = Some v \<longleftrightarrow> (\<exists>a. map_of (st_apiKeys s) i = Some a \<and> v = st_heap s ! a)"
  by (auto simp: keyview_def)

lemma keys_ok_CreateAPIKey:
  assumes ok: "keys_ok s" and fresh: "map_of (st_apiKeys s) (env_uuid e) = None"
  shows "keys_ok (snd (CreateAPIKey e k s))"
proof (cases "\<exists>(i, a) \<in> set (st_apiKeys s). k_Name (st_heap s ! a) = k_Name k")
  case False
  let ?c = "stamped e k" and ?h = "k_KeyHash k"
  have sh: "keys_shape s" and vw: "view_ok k_ID k_Name (keyview s)" using ok by (auto simp: keys_ok_shape)
  have nm: "keyview s i = Some v \<Longrightarrow> k_Name v \<noteq> k_Name k" for i v
    using False by (force simp: keyview_Some dest: map_of_SomeD)
  have added: "keys_ok (key_added ?c ?h v s)" if "k_ID v = env_uuid e" "k_Name v = k_Name k" for v
    using sh vw nm that by (simp add: keys_ok_shape keys_shape_added keyview_added view_ok_put)
  have heap: "keys_shape (key_added ?c ?h ?c s)" by (rule keys_shape_added [OF sh])
  have undone: "keys_ok (s\<lparr> st_heap := st_heap s @ [?c], st_hashIndex := gm_del ?h (gm_put ?h (length (st_heap s)) (st_hashIndex s)) \<rparr>)"
    (is "keys_ok ?u")
  proof -
    have "keyview ?u = keyview s"
      using sh by (fastforce simp: keyview_def keys_shape_def nth_append fun_eq_iff map_option_case split: option.split)
    then show ?thesis using sh vw by (auto simp: keys_ok_shape keys_shape_def less_Suc_eq split: if_splits)
  qed
  show ?thesis
  proof (cases "persist_res e (key_added ?c ?h ?c s)")
    case None
    with added [of "?c\<lparr> k_KeyHash := [] \<rparr>"] ok show ?thesis
      by (simp add: CreateAPIKey_eq Let_def)
  next
    case (Some err)
    then show ?thesis using undone ok fresh False
      by (auto simp: CreateAPIKey_eq Let_def gm_undo_create key_added_def
          intro!: keys_ok_cong [THEN iffD1, OF _ _ _ undone])
  qed
next
  case True
  with ok show ?thesis by (simp add: CreateAPIKey_eq)
qed

lemma keys_ok_DeleteAPIKey:
  assumes ok: "keys_ok s"
  shows "keys_ok (snd (DeleteAPIKey e i s))"
proof (cases "map_of (st_apiKeys s) i")
  case None
  with ok show ?thesis by (simp add: DeleteAPIKey_def)
next
  case (Some a)
  let ?h = "k_KeyHash (st_heap s ! a)"
  have "keyview (s\<lparr> st_hashIndex := gm_del ?h (st_hashIndex s), st_apiKeys := gm_del i (st_apiKeys s), st_fs := f \<rparr>)
      = (keyview s)(i := None)"
    and "keyview (s\<lparr> st_fs := f, st_apiKeys := gm_put i a (gm_del i (st_apiKeys s)),
      st_hashIndex := gm_put ?h a (gm_del ?h (st_hashIndex s)) \<rparr>) = keyview s" for f
    using Some by (auto simp: keyview_def)
  with ok Some show ?thesis
    by (auto simp: DeleteAPIKey_def persist_eq Let_def keys_ok_shape keys_shape_def view_ok_del
        simp del: fun_upd_apply split: option.split) (auto split: if_splits)
qed

lemma keyview_toggle:
  assumes "keys_shape s" and "map_of (st_apiKeys s) i = Some a" and "k_ID v = k_ID (st_heap s ! a)"
    and "k_Name v = k_Name (st_heap s ! a)"
  defines "t \<equiv> s\<lparr> st_heap := (st_heap s)[a := v] \<rparr>"
  shows "map_option k_ID (keyview t j) = map_option k_ID (keyview s j)"
    and "map_option k_Name (keyview t j) = map_option k_Name (keyview s j)"
  using assms by (auto simp: keyview_def nth_list_update keys_shape_def map_option_case split: option.split)

lemma keys_ok_ToggleAPIKey:
  assumes ok: "keys_ok s"
  shows "keys_ok (snd (ToggleAPIKey e i b s))"
proof (cases "map_of (st_apiKeys s) i")
  case None
  with ok show ?thesis by (simp add: ToggleAPIKey_def)
next
  case (Some a)
  let ?k = "(st_heap s ! a)\<lparr> k_Active := b, k_UpdatedAt := env_now e \<rparr>"
  let ?t = "s\<lparr> st_heap := (st_heap s)[a := ?k] \<rparr>"
  have sh: "keys_shape s" using ok by (simp add: keys_ok_shape)
  have "view_ok k_ID k_Name (keyview ?t)"
    by (rule view_ok_cong [of _ _ "keyview s"])
      (insert ok keyview_toggle [OF sh Some, of ?k], simp_all add: keys_ok_shape)
  then have "keys_ok ?t" using ok by (simp add: keys_ok_shape keys_shape_def)
  with Some show ?thesis by (simp add: ToggleAPIKey_def persist_eq Let_def split: option.split)
qed

lemma wf_store_run_op:
  assumes wf: "wf_store s" and env: "good_env e s"
  shows "wf_store (snd (run_op e opn s))"
proof -
  have t: "table_ok r_ID r_Name (st_routes s)" "table_ok u_ID u_Name (st_upstreams s)"
    "table_ok ip_ID ip_Name (st_policies s)" "refs_ok s" "keys_ok s" "gm_wf (st_routes s)"
    using wf by (simp_all add: wf_store_def) (simp add: table_ok_def)
  note keep = store_frames routes.create_table_ok routes.modify_table_ok routes.remove_table_ok
    routes.toggle_table_ok upstreams.create_table_ok upstreams.modify_table_ok
    upstreams.remove_table_ok policies.create_table_ok policies.modify_table_ok
    policies.remove_table_ok policies.toggle_table_ok refs_route_ops refs_upstream_ops
    keys_ok_CreateAPIKey keys_ok_DeleteAPIKey keys_ok_ToggleAPIKey
  have k: "keys_ok u" if "st_heap u = st_heap s" "st_apiKeys u = st_apiKeys s" "st_hashIndex u = st_hashIndex s" for u
    using that keys_ok_cong [of u s] t(5) by simp
  have r: "refs_ok u" if "st_routes u = st_routes s" "st_upstreams u = st_upstreams s" for u
    using that t(4) by (simp add: refs_ok_def)
  show ?thesis
    using t env unfolding wf_store_def good_env_def
    by (cases opn) (simp_all add: keep k r)
qed

end
