(* ===== verification/Store_Properties.thy ===== *)
theory Store_Properties
  imports Store_Correct
begin

text \<open>
  The properties of the store: its invariant in every reachable state, rollback of failed
  operations, what a restart brings back, when listeners are told, and the life of an API key.
\<close>

section \<open>Which operations write, notify and roll back\<close>

fun is_toggle :: "store_op \<Rightarrow> bool" where
  "is_toggle (ToggleRouteOp _ _) = True"
| "is_toggle (ToggleIPPolicyOp _ _) = True"
| "is_toggle (ToggleAPIKeyOp _ _) = True"
| "is_toggle _ = False"

fun is_key_op :: "store_op \<Rightarrow> bool" where
  "is_key_op (CreateAPIKeyOp _) = True"
| "is_key_op (DeleteAPIKeyOp _) = True"
| "is_key_op (ToggleAPIKeyOp _ _) = True"
| "is_key_op _ = False"

fun is_subscribe :: "store_op \<Rightarrow> bool" where
  "is_subscribe (OnChangeOp _) = True"
| "is_subscribe _ = False"

text \<open>What the file holds: nothing yet, or the export of a well-formed store.\<close>

definition disk_ok :: "store \<Rightarrow> bool" where
  "disk_ok s \<longleftrightarrow> st_filePath s = '''' \<or> st_fs s (st_filePath s) = None \<or>
     (\<exists>os u. st_fs s (st_filePath s) = Some (JSON (Export os u)) \<and> fair_orders os \<and> wf_store u)"

text \<open>Two stores that the reading operations cannot tell apart.\<close>

definition reads_same :: "store \<Rightarrow> store \<Rightarrow> bool" where
  "reads_same s t \<longleftrightarrow> (\<forall>i. GetRoute i s = GetRoute i t \<and> GetUpstream i s = GetUpstream i t \<and>
     GetIPPolicy i s = GetIPPolicy i t \<and> GetAPIKey i s = GetAPIKey i t)"

text \<open>Sample data: an empty store with a configuration file, an upstream, a route and a key.\<close>

definition sample_env :: "string \<Rightarrow> persist_io \<Rightarrow> store_env" where
  "sample_env u io = \<lparr> env_now = 7, env_uuid = u, env_io = io,
     env_orders = \<lparr> ord_routes = rev, ord_upstreams = \<lambda>m. m, ord_policies = rev, ord_keys = rev \<rparr> \<rparr>"

definition sample_store :: store where
  "sample_store = empty_store ''cfg.json'' Map.empty"

definition sample_upstream :: Upstream where
  "sample_upstream = \<lparr> u_ID = '''', u_Name = ''api'', u_URL = ''http://a'', u_Protocol = ''http'', u_Endpoints = [],
     u_LBAlgorithm = '''', u_HealthPath = '''', u_CreatedAt = 0, u_UpdatedAt = 0 \<rparr>"

definition sample_match :: MatchRule where
  "sample_match = \<lparr> m_Hosts = [], m_Path = ''/'', m_PathMode = ''prefix'', m_Methods = [], m_Headers = [] \<rparr>"

definition sample_route :: Route where
  "sample_route = \<lparr> r_ID = '''', r_Name = ''r'', r_Active = True, r_Match = sample_match, r_UpstreamID = ''u'',
     r_Plugins = [], r_StripPath = False, r_WeightedUpstreams = [], r_CreatedAt = 0, r_UpdatedAt = 0 \<rparr>"

definition sample_key :: APIKey where
  "sample_key = \<lparr> k_ID = '''', k_Name = ''ci'', k_KeyHash = ''7331'', k_Active = True, k_Scopes = [],
     k_CreatedAt = 0, k_UpdatedAt = 0 \<rparr>"

lemmas sample_defs = sample_env_def sample_store_def sample_upstream_def sample_match_def sample_route_def sample_key_def
  empty_store_def

section \<open>What one operation does to the file\<close>

lemma Export_cong: "same_data s t \<Longrightarrow> Export os s = Export os t"
  by (simp add: Export_def same_data_def)

lemma err_of_None: "fst (err_of rs) = None \<longleftrightarrow> (\<exists>v. fst rs = Inr v)"
  by (auto simp: err_of_def split: sum.split)

lemma err_of_Some: "fst (err_of rs) = Some err \<longleftrightarrow> fst rs = Inl err"
  by (auto simp: err_of_def split: sum.split)

lemma run_op_path [simp]: "st_filePath (snd (run_op e opn s)) = st_filePath s"
  by (cases opn) (simp_all add: store_frames)

lemma persist_fs_failed: "persist_res e s = Some err \<Longrightarrow> persist_fs e s (st_filePath s) = st_fs s (st_filePath s)"
  by (auto simp: persist_res_cases persist_fs_cases split: if_splits persist_io.splits)

lemma persist_fs_saved:
  "persist_res e s = None \<Longrightarrow> st_filePath s \<noteq> '''' \<Longrightarrow>
    persist_fs e s (st_filePath s) = Some (JSON (Export (env_orders e) s))"
  by (auto simp: persist_res_cases persist_fs_cases split: if_splits persist_io.splits)

lemma run_op_unsaved:
  assumes "fst (run_op e opn s) = Some err"
  shows "st_fs (snd (run_op e opn s)) (st_filePath s) = st_fs s (st_filePath s)"
proof -
  have "persist_fs e u (st_filePath s) = st_fs s (st_filePath s)"
    if "persist_res e u = Some x" "st_filePath u = st_filePath s" "st_fs u = st_fs s" for u x
    using persist_fs_failed [OF that(1)] that(2,3) by simp
  then show ?thesis
    using assms by (cases opn) (auto simp: store_op_simps err_of_Some split: store_op_splits)
qed

lemma run_op_saved_same:
  assumes "fst (run_op e opn s) = None" and "st_filePath s \<noteq> ''''" and "\<not> is_subscribe opn"
    and "\<And>k. opn \<noteq> CreateAPIKeyOp k"
  shows "st_fs (snd (run_op e opn s)) (st_filePath s) = Some (JSON (Export (env_orders e) (snd (run_op e opn s))))"
proof -
  have "persist_fs e u (st_filePath s) = Some (JSON (Export (env_orders e) v))"
    if "persist_res e u = None" "st_filePath u = st_filePath s" "same_data u v" for u v
    using persist_fs_saved [OF that(1)] that(2) assms(2) Export_cong [OF that(3)] by simp
  then show ?thesis
    using assms(1,3,4)
    by (cases opn) (auto simp: store_op_simps err_of_None same_data_def split: store_op_splits)
qed

lemma keys_ok_key_added:
  assumes ok: "keys_ok s" and free: "\<not> (\<exists>(i, a) \<in> set (st_apiKeys s). k_Name (st_heap s ! a) = k_Name v)"
    and id: "k_ID v = k_ID cp"
  shows "keys_ok (key_added cp h v s)"
proof -
  have "keyview s i = Some w \<Longrightarrow> k_Name w \<noteq> k_Name v" for i w
    using free by (force simp: keyview_Some dest: map_of_SomeD)
  then show ?thesis
    using ok id by (simp add: keys_ok_shape keys_shape_added keyview_added view_ok_put)
qed

lemma GetAPIKey_view: "GetAPIKey i s = (case keyview s i of None \<Rightarrow> Inl ErrNotFound | Some k \<Rightarrow> Inr (k\<lparr> k_KeyHash := '''' \<rparr>))"
  by (simp add: GetAPIKey_def keyview_def split: option.split)

lemma reads_same_view:
  assumes "map_of (st_routes s) = map_of (st_routes t)" and "map_of (st_upstreams s) = map_of (st_upstreams t)"
    and "map_of (st_policies s) = map_of (st_policies t)" and "keyview s = keyview t"
  shows "reads_same s t"
  using assms by (simp add: reads_same_def GetRoute_def GetUpstream_def GetIPPolicy_def GetAPIKey_view)

lemma reads_same_trans: "reads_same s t \<Longrightarrow> reads_same t u \<Longrightarrow> reads_same s u"
  by (simp add: reads_same_def)

lemma CreateAPIKey_saved:
  assumes wf: "wf_store s" and ok: "fst (CreateAPIKey e k s) = Inr k'" and path: "st_filePath s \<noteq> ''''"
  defines "u \<equiv> key_added (stamped e k) (k_KeyHash k) (stamped e k) s"
  shows "st_fs (snd (CreateAPIKey e k s)) (st_filePath s) = Some (JSON (Export (env_orders e) u))"
    and "wf_store u" and "reads_same u (snd (CreateAPIKey e k s))"
proof -
  let ?s = "snd (CreateAPIKey e k s)"
  let ?v = "(stamped e k)\<lparr> k_KeyHash := '''' \<rparr>"
  have free: "\<not> (\<exists>(i, a) \<in> set (st_apiKeys s). k_Name (st_heap s ! a) = k_Name k)"
    and res: "persist_res e u = None"
    and s': "?s = (key_added (stamped e k) (k_KeyHash k) ?v s)\<lparr> st_fs := persist_fs e u \<rparr>"
    using ok by (auto simp: CreateAPIKey_eq Let_def u_def split: if_splits option.splits)
  show "st_fs ?s (st_filePath s) = Some (JSON (Export (env_orders e) u))"
    using persist_fs_saved [OF res] path by (simp add: s') (simp add: u_def)
  have keys: "keys_shape s" "keys_ok s" using wf by (simp_all add: wf_store_def keys_ok_shape)
  then have "keys_ok u" using free keys_ok_key_added [of s "stamped e k" "stamped e k"] by (simp add: u_def)
  then show "wf_store u" using wf by (simp add: wf_store_def u_def) (auto simp: refs_ok_def)
  have "GetAPIKey i u = GetAPIKey i ?s" for i
    using keys keyview_cong [of ?s "key_added (stamped e k) (k_KeyHash k) ?v s"]
    by (simp add: GetAPIKey_view s' keyview_added u_def)
  then show "reads_same u ?s"
    by (simp add: reads_same_def GetRoute_def GetUpstream_def GetIPPolicy_def) (simp add: s' u_def)
qed

lemma run_op_saved:
  assumes wf: "wf_store s" and env: "good_env e s" and ok: "fst (run_op e opn s) = None"
    and path: "st_filePath s \<noteq> ''''" and sub: "\<not> is_subscribe opn"
  shows "\<exists>u. st_fs (snd (run_op e opn s)) (st_filePath s) = Some (JSON (Export (env_orders e) u)) \<and>
    wf_store u \<and> reads_same u (snd (run_op e opn s))"
proof (cases "\<exists>k. opn = CreateAPIKeyOp k")
  case True
  then obtain k where k: "opn = CreateAPIKeyOp k" by blast
  with ok obtain k' where "fst (CreateAPIKey e k s) = Inr k'" by (auto simp: err_of_None)
  from CreateAPIKey_saved [OF wf this path] show ?thesis
    by (intro exI [of _ "key_added (stamped e k) (k_KeyHash k) (stamped e k) s"]) (simp add: k)
next
  case False
  then show ?thesis
    using run_op_saved_same [OF ok path sub] wf_store_run_op [OF wf env]
    by (intro exI [of _ "snd (run_op e opn s)"]) (auto simp: reads_same_def)
qed

lemma New_Export:
  assumes "fs path = Some (JSON (Export os u))" and "path \<noteq> ''''"
  shows "New True path fs = Inr (load_snapshot (Export os u) (empty_store path fs))"
  using assms by (simp add: New_def load_def empty_store_def)

lemma load_snapshot_path [simp]:
  "st_filePath (load_snapshot snap s) = st_filePath s" "st_fs (load_snapshot snap s) = st_fs s"
  by (simp_all add: load_snapshot_def)

lemma New_cases:
  assumes "New readable path fs = Inr t" and "path = '''' \<or> fs path = None \<or>
     (\<exists>os u. fs path = Some (JSON (Export os u)) \<and> fair_orders os \<and> wf_store u)"
  shows "wf_store t \<and> disk_ok t"
proof -
  have "wf_store (empty_store path fs)"
    by (simp add: wf_store_def empty_store_def refs_ok_def keys_ok_def view_ok_def keyview_def)
  moreover have "st_fs (empty_store path fs) = fs" "st_filePath (empty_store path fs) = path"
    by (simp_all add: empty_store_def)
  ultimately show ?thesis
    using assms by (auto simp: New_def load_def disk_ok_def load_snapshot_wf split: if_splits)
qed

lemma reachable_ok: "store_reachable s \<Longrightarrow> wf_store s \<and> disk_ok s"
proof (induction rule: store_reachable.induct)
  case (first_start path fs readable s)
  then show ?case by (intro New_cases) auto
next
  case (operation s e opn)
  have "disk_ok (snd (run_op e opn s))"
  proof (cases "st_filePath s = '''' \<or> is_subscribe opn")
    case True
    then show ?thesis using operation.IH by (cases opn) (auto simp: disk_ok_def store_frames)
  next
    case False
    then show ?thesis
      using operation run_op_saved [of s e opn] run_op_unsaved [of e opn s]
      by (cases "fst (run_op e opn s)") (auto simp: disk_ok_def good_env_def)
  qed
  then show ?case using operation by (simp add: wf_store_run_op)
next
  case (restart s readable t)
  then show ?case by (intro New_cases [OF restart.hyps(2)]) (auto simp: disk_ok_def)
qed

section \<open>The invariant and the file\<close>




text \<open>
  The listeners registered with \<open>OnChange\<close> (the router's reload among them) are started exactly
  when a route, upstream or policy operation succeeds: never for a failed one, and never for an API
  key, which the router does not read.
\<close>
theorem listeners_told_exactly_on_success:
  "st_spawned (snd (run_op e opn s)) =
     (if fst (run_op e opn s) = None \<and> \<not> is_key_op opn \<and> \<not> is_subscribe opn
      then st_spawned s @ st_listeners s else st_spawned s)"
  by (cases opn) (auto simp: store_op_simps OnChange_def err_of_def split: option.split sum.split)

section \<open>Toggles\<close>

text \<open>
  A toggle whose write fails reports the error but keeps the new flag in memory while the file
  keeps the old one: reads disagree with the file, and no listener is told.
\<close>
theorem failed_toggle_keeps_change:
  fixes b :: bool
  assumes "GetRoute rid s = Inr r" and "st_filePath s \<noteq> ''''" and "env_io e \<noteq> IO_ok"
  defines "s' \<equiv> snd (ToggleRoute e rid b s)"
  shows "(\<exists>err. fst (ToggleRoute e rid b s) = Inl (ErrIO err)) \<and>
    GetRoute rid s' = Inr (r\<lparr> r_Active := b, r_UpdatedAt := env_now e \<rparr>) \<and>
    st_fs s' (st_filePath s) = st_fs s (st_filePath s) \<and> st_spawned s' = st_spawned s"
proof -
  from assms(1) have r: "map_of (st_routes s) rid = Some r" by (simp add: GetRoute_def split: option.splits)
  obtain err where err: "persist_res e u = Some err" if "st_filePath u = st_filePath s" for u
    using assms(2,3) by (cases "env_io e") (auto simp: persist_res_cases)
  then show ?thesis
    using r persist_fs_failed [of e "s\<lparr> st_routes := gm_put rid (r\<lparr> r_Active := b, r_UpdatedAt := env_now e \<rparr>) (st_routes s) \<rparr>" err]
    by (simp add: s'_def ToggleRoute_def persist_eq Let_def GetRoute_def)
qed

section \<open>The life of an API key\<close>

lemma CreateAPIKey_ok:
  assumes "CreateAPIKey e k s = (Inr k', s1)"
  shows "k' = (stamped e k)\<lparr> k_KeyHash := '''' \<rparr>" and "k_KeyHash k \<noteq> ''''"
    and "\<exists>f. s1 = (key_added (stamped e k) (k_KeyHash k) k' s)\<lparr> st_fs := f \<rparr>"
  using assms by (auto simp: CreateAPIKey_eq Let_def split: if_splits option.splits)

text \<open>
  A key created active under the hash of its plaintext validates at once and returns its
  metadata with the hash blanked. Deactivating it takes effect at once, even when the write of the
  change fails, and activating it again restores it.
\<close>
theorem key_validates_while_active:
  assumes "CreateAPIKey e k s = (Inr k', s1)" and "k_KeyHash k = hashKey Sum256 p" and "k_Active k"
  shows "ValidateAPIKey Sum256 p s1 = Some k' \<and> k_KeyHash k' = '''' \<and> GetAPIKey (k_ID k') s1 = Inr k' \<and>
    ValidateAPIKey Sum256 p (snd (ToggleAPIKey e2 (k_ID k') False s1)) = None \<and>
    ValidateAPIKey Sum256 p (snd (ToggleAPIKey e2 (k_ID k') True s1)) = Some (k'\<lparr> k_UpdatedAt := env_now e2 \<rparr>)"
proof -
  note c = CreateAPIKey_ok [OF assms(1)]
  from c(3) obtain f where s1: "s1 = (key_added (stamped e k) (k_KeyHash k) k' s)\<lparr> st_fs := f \<rparr>" by blast
  show ?thesis
    using assms(2,3) c(1)
    by (auto simp: s1 ValidateAPIKey_def GetAPIKey_def ToggleAPIKey_def persist_eq Let_def list_update_append
        split: option.split)
qed

text \<open>
  C10. Deleting a key does not revoke it. \<open>CreateAPIKey\<close> clears the hash on the object both maps
  share, so the \<open>DeleteAPIKey\<close> of the same process removes the empty hash from the index and leaves
  the real one: the deleted key's plaintext keeps validating.
\<close>
theorem deleted_key_still_validates:
  assumes "CreateAPIKey e k s = (Inr k', s1)" and "k_KeyHash k = hashKey Sum256 p" and "k_Active k"
    and "DeleteAPIKey e2 (k_ID k') s1 = (None, s2)"
  shows "GetAPIKey (k_ID k') s2 = Inl ErrNotFound \<and> ValidateAPIKey Sum256 p s2 = Some k'"
proof -
  note c = CreateAPIKey_ok [OF assms(1)]
  from c(3) obtain f where s1: "s1 = (key_added (stamped e k) (k_KeyHash k) k' s)\<lparr> st_fs := f \<rparr>" by blast
  have "st_hashIndex s2 = gm_del '''' (st_hashIndex s1)" "st_apiKeys s2 = gm_del (k_ID k') (st_apiKeys s1)"
    "st_heap s2 = st_heap s1"
    using assms(4) c(1) by (auto simp: s1 DeleteAPIKey_def persist_eq Let_def split: option.splits)
  then show ?thesis
    using assms(2,3) c(1,2) by (simp add: s1 ValidateAPIKey_def GetAPIKey_def)
qed

text \<open>What a later operation on the other tables leaves of the keys.\<close>

lemma run_op_keys_frame:
  "\<not> is_key_op opn \<Longrightarrow> st_heap (snd (run_op e opn s)) = st_heap s \<and>
     st_apiKeys (snd (run_op e opn s)) = st_apiKeys s \<and> st_hashIndex (snd (run_op e opn s)) = st_hashIndex s"
  by (cases opn) (simp_all add: store_frames)

lemma load_hash_absent:
  assumes "keys_shape s" and "range_order (ord_keys os)"
    and "\<And>i v. keyview s i = Some v \<Longrightarrow> k_KeyHash v \<noteq> h"
  shows "map_of (st_hashIndex (load_snapshot (Export os s) (empty_store path fs))) h = None"
proof (rule ccontr)
  assume "map_of (st_hashIndex (load_snapshot (Export os s) (empty_store path fs))) h \<noteq> None"
  then obtain a where "map_of (st_hashIndex (load_snapshot (Export os s) (empty_store path fs))) h = Some a" by auto
  then obtain k where "k \<in> set (sn_APIKeys (Export os s))" "k_KeyHash k = h"
    unfolding load_snapshot_def by (auto dest!: load_keys_hash simp: empty_store_def)
  then obtain i b where "(i, b) \<in> set (st_apiKeys s)" "k = st_heap s ! b"
    using assms(2) by (auto simp: Export_def)
  then have "keyview s i = Some k" using assms(1) by (auto simp: keyview_Some keys_shape_def gm_mem_iff)
  with assms(3) \<open>k_KeyHash k = h\<close> show False by blast
qed

text \<open>
  C11. A created key is lost at a restart once anything else has been saved. The first write after
  \<open>CreateAPIKey\<close> stores the object whose hash was cleared, so the file no longer holds the hash: the
  plaintext validates until the restart and never after it, although the key is still listed.
\<close>
theorem key_lost_at_restart:
  assumes "wf_store s" and "good_env e s" and "CreateAPIKey e k s = (Inr k', s1)"
    and "k_KeyHash k = hashKey Sum256 p" and "k_Active k"
    and "\<And>i v. keyview s i = Some v \<Longrightarrow> k_KeyHash v \<noteq> hashKey Sum256 p"
    and "good_env e2 s1" and "fst (run_op e2 opn s1) = None"
    and "\<not> is_key_op opn" and "\<not> is_subscribe opn" and "st_filePath s \<noteq> ''''"
  defines "s2 \<equiv> snd (run_op e2 opn s1)"
  shows "ValidateAPIKey Sum256 p s2 = Some k' \<and>
    (\<exists>t. New True (st_filePath s) (st_fs s2) = Inr t \<and> ValidateAPIKey Sum256 p t = None \<and>
      GetAPIKey (k_ID k') t = Inr k')"
proof -
  note c = CreateAPIKey_ok [OF assms(3)]
  from c(3) obtain f where s1: "s1 = (key_added (stamped e k) (k_KeyHash k) k' s)\<lparr> st_fs := f \<rparr>" by blast
  have wf1: "wf_store s1" using wf_store_run_op [OF assms(1,2), of "CreateAPIKeyOp k"] assms(3) by simp
  have wf2: "wf_store s2" unfolding s2_def by (rule wf_store_run_op [OF wf1 assms(7)])
  note fr = run_op_keys_frame [OF assms(9), of e2 s1, folded s2_def]
  have kv: "keyview s2 = (keyview s)(k_ID k' \<mapsto> k')"
    using assms(1) fr keyview_cong [of s2 "key_added (stamped e k) (k_KeyHash k) k' s"] c(1)
    by (simp add: s1 keyview_added wf_store_def keys_ok_shape)
  have saved: "st_fs s2 (st_filePath s) = Some (JSON (Export (env_orders e2) s2))"
  proof -
    have "opn \<noteq> CreateAPIKeyOp k" for k using assms(9) by auto
    from run_op_saved_same [OF assms(8) _ assms(10) this] assms(11) show ?thesis by (simp add: s2_def s1)
  qed
  let ?t = "load_snapshot (Export (env_orders e2) s2) (empty_store (st_filePath s) (st_fs s2))"
  have fair: "fair_orders (env_orders e2)" using assms(7) by (simp add: good_env_def)
  have "map_of (st_hashIndex ?t) (hashKey Sum256 p) = None"
    using wf2 fair kv assms(4,6) c(1,2)
    by (intro load_hash_absent) (auto simp: wf_store_def keys_ok_shape fair_orders_def split: if_splits)
  moreover have "GetAPIKey (k_ID k') ?t = Inr k'"
    using load_snapshot_Export(4) [OF wf2 fair] kv c(1) by (simp add: GetAPIKey_view)
  moreover have "ValidateAPIKey Sum256 p s2 = Some k'"
    using fr assms(4,5) c(1) by (simp add: ValidateAPIKey_def s1)
  ultimately show ?thesis
    using New_Export [of "st_fs s2" "st_filePath s", OF saved assms(11)] by (auto simp: ValidateAPIKey_def)
qed

section \<open>The properties at work\<close>

lemma sample_orders_fair: "fair_orders (env_orders (sample_env u io))"
  by (simp add: sample_env_def fair_orders_def range_order_rev range_order_id)

lemma sample_reachable: "store_reachable sample_store"
  by (rule first_start [of "''cfg.json''" Map.empty True])
    (simp_all add: New_def load_def sample_store_def empty_store_def)

lemma sample_wf: "wf_store sample_store"
  using reachable_ok [OF sample_reachable] by simp

lemma sample_good: "good_env (sample_env u io) sample_store"
  by (simp add: good_env_def sample_orders_fair sample_store_def empty_store_def)

lemma sample_hash: "hashKey (\<lambda>x. x) ''s1'' = ''7331''"
  by (simp add: hashKey_def hex_encode_def hex_digit_def Let_def)

definition sample_with_upstream :: store where
  "sample_with_upstream = snd (run_op (sample_env ''u'' IO_ok) (CreateUpstreamOp sample_upstream) sample_store)"

definition sample_with_key :: store where
  "sample_with_key = snd (CreateAPIKey (sample_env ''k1'' IO_ok) sample_key sample_store)"




theorem failed_toggle_keeps_change_witness:
  "st_fs (snd (ToggleRoute (sample_env ''x'' IO_rename_fails) ''r'' False
      (sample_store\<lparr> st_routes := [(''r'', sample_route)] \<rparr>))) ''cfg.json'' = None \<and>
   GetRoute ''r'' (snd (ToggleRoute (sample_env ''x'' IO_rename_fails) ''r'' False
      (sample_store\<lparr> st_routes := [(''r'', sample_route)] \<rparr>))) =
   Inr (sample_route\<lparr> r_Active := False, r_UpdatedAt := 7 \<rparr>)"
  using failed_toggle_keeps_change [of "''r''" "sample_store\<lparr> st_routes := [(''r'', sample_route)] \<rparr>" sample_route
      "sample_env ''x'' IO_rename_fails" False]
  by (simp add: GetRoute_def sample_store_def empty_store_def sample_env_def)

lemma sample_key_created:
  "CreateAPIKey (sample_env ''k1'' IO_ok) sample_key sample_store =
     (Inr (sample_key\<lparr> k_ID := ''k1'', k_KeyHash := '''', k_CreatedAt := 7, k_UpdatedAt := 7 \<rparr>), sample_with_key)"
  by (simp add: sample_with_key_def sample_defs CreateAPIKey_def persist_def Let_def)

theorem key_validates_while_active_witness:
  "ValidateAPIKey (\<lambda>x. x) ''s1'' sample_with_key \<noteq> None \<and>
   ValidateAPIKey (\<lambda>x. x) ''s1'' (snd (ToggleAPIKey (sample_env ''x'' IO_rename_fails) ''k1'' False sample_with_key)) = None"
  using key_validates_while_active [OF sample_key_created, of "\<lambda>x. x" "''s1''"] by (simp add: sample_hash) (simp add: sample_key_def)

theorem deleted_key_still_validates_witness:
  "fst (DeleteAPIKey (sample_env ''x'' IO_ok) ''k1'' sample_with_key) = None \<and>
   ValidateAPIKey (\<lambda>x. x) ''s1'' (snd (DeleteAPIKey (sample_env ''x'' IO_ok) ''k1'' sample_with_key)) \<noteq> None"
proof -
  have del: "DeleteAPIKey (sample_env ''x'' IO_ok) ''k1'' sample_with_key =
      (None, snd (DeleteAPIKey (sample_env ''x'' IO_ok) ''k1'' sample_with_key))"
    by (simp add: sample_with_key_def sample_defs CreateAPIKey_def DeleteAPIKey_def persist_def Let_def)
  then have del1: "fst (DeleteAPIKey (sample_env ''x'' IO_ok) ''k1'' sample_with_key) = None" by (metis fst_conv)
  from del deleted_key_still_validates [OF sample_key_created, of "\<lambda>x. x" "''s1''" "sample_env ''x'' IO_ok"
      "snd (DeleteAPIKey (sample_env ''x'' IO_ok) ''k1'' sample_with_key)"]
  have "ValidateAPIKey (\<lambda>x. x) ''s1'' (snd (DeleteAPIKey (sample_env ''x'' IO_ok) ''k1'' sample_with_key)) \<noteq> None"
    by (simp add: sample_hash) (simp add: sample_key_def)
  with del1 show ?thesis by blast
qed

theorem key_lost_at_restart_witness:
  "\<exists>t. New True ''cfg.json'' (st_fs (snd (run_op (sample_env ''u'' IO_ok) (CreateUpstreamOp sample_upstream) sample_with_key))) = Inr t \<and>
     ValidateAPIKey (\<lambda>x. x) ''s1'' t = None"
proof -
  have kv: "keyview sample_store i = None" for i by (simp add: keyview_def sample_defs)
  have env: "good_env (sample_env ''u'' IO_ok) sample_with_key"
    using sample_orders_fair
    by (simp add: good_env_def) (simp add: sample_with_key_def sample_defs CreateAPIKey_def persist_def Let_def)
  have ok: "fst (run_op (sample_env ''u'' IO_ok) (CreateUpstreamOp sample_upstream) sample_with_key) = None"
    by (simp add: sample_with_key_def sample_defs CreateAPIKey_def CreateUpstream_def persist_def Let_def err_of_def)
  have path: "st_filePath sample_store = ''cfg.json''" by (simp add: sample_defs)
  show ?thesis
    using key_lost_at_restart [OF sample_wf sample_good sample_key_created, of "\<lambda>x. x" "''s1''", OF _ _ _ env ok]
    by (auto simp: sample_hash kv path) (auto simp: sample_key_def)
qed

end
