(* ===== verification/Hot_Reload.thy ===== *)
theory Hot_Reload
  imports Gateway Store_Properties
begin

text \<open>
  Hot reload: the router and the configuration store running together. Every successful change of the store
  starts \<open>go fn()\<close> for its listeners (\<open>store.notify\<close>), and the router's listener is \<open>reload\<close>: it takes
  \<open>reloadMu\<close>, builds the upstreams from one reading of the store and the routes from another, and replaces the
  table. Store operations and requests run in between, also between the two readings.

  The system is a step relation on the world, the published table and the state of the reloads: how many of the
  started goroutines have taken the mutex, and how far the one that holds it has come. Operations of the store
  are atomic, as they hold its lock from the check to the notification.
\<close>

section \<open>The two halves of a reload\<close>

text \<open>The order in which a range visits a map is chosen anew at each reading.\<close>

definition reload_upstreams :: "'x ext_api \<Rightarrow> 'x net_api \<Rightarrow> bool \<Rightarrow> range_orders \<Rightarrow> 'x world \<Rightarrow> (string, 'x handler) gomap \<times> 'x world" where
  "reload_upstreams ex na checker os w = build_upstreams ex na checker (ListUpstreams os (w_store w)) [] w"

definition reload_routes :: "'x ext_api \<Rightarrow> 'x net_api \<Rightarrow> 'x Registry \<Rightarrow> bool \<Rightarrow> bool \<Rightarrow> range_orders \<Rightarrow> (string, 'x handler) gomap \<Rightarrow>
    'x world \<Rightarrow> 'x routeTable \<times> 'x world" where
  "reload_routes ex na reg checker tracker os upstreams w =
     (let (table, w1) = fold (add_route ex na reg checker tracker upstreams) (ListRoutes os (w_store w)) (empty_table, w)
      in (table\<lparr> prefixEntries := na_sort na (prefixEntries table) \<rparr>, w1))"

text \<open>Run without interruption they are the reload of the router.\<close>

lemma reload_halves:
  "reload ex na reg checker tracker w =
     (let (upstreams, w1) = reload_upstreams ex na checker (ex_orders ex) w
      in reload_routes ex na reg checker tracker (ex_orders ex) upstreams w1)"
  by (simp add: reload_def reload_upstreams_def reload_routes_def buildUpstreamMap_def)

section \<open>The running system\<close>

datatype 'x phase = Locked | Built "(string, 'x handler) gomap"

text \<open>
  \<open>lv_started\<close> counts the reloads that have taken the mutex, \<open>lv_phase\<close> is the one that holds it.
  \<open>lv_unsaved\<close> is a history variable: a route of the store was changed without a reload being started for it since
  the last reading of the routes. Only a toggle that could not be saved does that (\<open>only_toggles_unsaved\<close> below).
\<close>

record 'x live =
  lv_world :: "'x world"
  lv_table :: "'x routeTable"
  lv_started :: nat
  lv_phase :: "'x phase option"
  lv_unsaved :: bool

definition lv_store :: "'x live \<Rightarrow> store" where
  "lv_store l = w_store (lv_world l)"

text \<open>From the first store to the second a route was changed and nobody was told.\<close>

definition unsaved_change :: "store \<Rightarrow> store \<Rightarrow> bool" where
  "unsaved_change s s' \<longleftrightarrow> st_spawned s' = st_spawned s \<and>
     \<not> list_all (\<lambda>(k, _). map_of (st_routes s') k = map_of (st_routes s) k) (st_routes s)"

lemma unsaved_change_same [simp]: "\<not> unsaved_change s s"
  by (simp add: unsaved_change_def list_all_iff case_prod_unfold)

text \<open>A toggle of a route that changes the route and reports that it could not be saved.\<close>

fun unsaved_toggle :: "store_env \<Rightarrow> store_op \<Rightarrow> store \<Rightarrow> bool" where
  "unsaved_toggle e (ToggleRouteOp rid b) s \<longleftrightarrow> map_of (st_routes s) rid \<noteq> None \<and> fst (run_op e (ToggleRouteOp rid b) s) \<noteq> None"
| "unsaved_toggle e _ s \<longleftrightarrow> False"

definition live_op :: "store_env \<Rightarrow> store_op \<Rightarrow> 'x live \<Rightarrow> 'x live" where
  "live_op e opn l = l\<lparr> lv_world := (lv_world l)\<lparr> w_store := snd (run_op e opn (lv_store l)) \<rparr>,
     lv_unsaved := lv_unsaved l \<or> unsaved_change (lv_store l) (snd (run_op e opn (lv_store l))) \<rparr>"

text \<open>The steps of the reloads: lock, read the upstreams, read the routes and publish.\<close>

inductive reload_step :: "'x ext_api \<Rightarrow> 'x net_api \<Rightarrow> 'x Registry \<Rightarrow> bool \<Rightarrow> bool \<Rightarrow> 'x live \<Rightarrow> 'x live \<Rightarrow> bool"
  for ex na reg checker tracker where
  lock: "lv_phase l = None \<Longrightarrow> lv_started l < length (st_spawned (lv_store l)) \<Longrightarrow>
     reload_step ex na reg checker tracker l (l\<lparr> lv_started := Suc (lv_started l), lv_phase := Some Locked \<rparr>)"
| read_upstreams: "lv_phase l = Some Locked \<Longrightarrow> fair_orders os \<Longrightarrow> reload_upstreams ex na checker os (lv_world l) = (ups, w) \<Longrightarrow>
     reload_step ex na reg checker tracker l (l\<lparr> lv_world := w, lv_phase := Some (Built ups) \<rparr>)"
| publish: "lv_phase l = Some (Built ups) \<Longrightarrow> fair_orders os \<Longrightarrow> reload_routes ex na reg checker tracker os ups (lv_world l) = (t, w) \<Longrightarrow>
     reload_step ex na reg checker tracker l (l\<lparr> lv_world := w, lv_table := t, lv_phase := None, lv_unsaved := False \<rparr>)"

text \<open>All steps; a request, like everything else outside the store, leaves the store alone.\<close>

inductive live_step :: "'x ext_api \<Rightarrow> 'x net_api \<Rightarrow> 'x Registry \<Rightarrow> bool \<Rightarrow> bool \<Rightarrow> 'x live \<Rightarrow> 'x live \<Rightarrow> bool"
  for ex na reg checker tracker where
  store_change: "good_env e (lv_store l) \<Longrightarrow> \<not> is_subscribe opn \<Longrightarrow> live_step ex na reg checker tracker l (live_op e opn l)"
| traffic: "w_store w = lv_store l \<Longrightarrow> live_step ex na reg checker tracker l (l\<lparr> lv_world := w \<rparr>)"
| reloading: "reload_step ex na reg checker tracker l l' \<Longrightarrow> live_step ex na reg checker tracker l l'"

inductive live_reach :: "'x ext_api \<Rightarrow> 'x net_api \<Rightarrow> 'x Registry \<Rightarrow> bool \<Rightarrow> bool \<Rightarrow> 'x live \<Rightarrow> bool"
  for ex na reg checker tracker where
  start: "wf_store (w_store w) \<Longrightarrow> st_listeners (w_store w) = [] \<Longrightarrow> st_spawned (w_store w) = [] \<Longrightarrow>
     router_New ex na reg checker tracker fn w = (t, w1) \<Longrightarrow>
     live_reach ex na reg checker tracker \<lparr> lv_world = w1, lv_table = t, lv_started = 0, lv_phase = None, lv_unsaved = False \<rparr>"
| run: "live_reach ex na reg checker tracker l \<Longrightarrow> live_step ex na reg checker tracker l l' \<Longrightarrow> live_reach ex na reg checker tracker l'"

inductive_cases reload_stepE: "reload_step ex na reg checker tracker l l'"

text \<open>No reload is waiting or at work.\<close>

definition settled :: "'x live \<Rightarrow> bool" where
  "settled l \<longleftrightarrow> lv_phase l = None \<and> lv_started l = length (st_spawned (lv_store l))"

section \<open>When a table is that of a store\<close>

text \<open>The handler of one upstream, and a map of handlers that were built from the upstreams of the store.\<close>

definition upstream_handler :: "'x ext_api \<Rightarrow> 'x net_api \<Rightarrow> bool \<Rightarrow> Upstream \<Rightarrow> 'x world \<Rightarrow> 'x handler option" where
  "upstream_handler ex na checker u w =
     (if length (u_Endpoints u) > 1 then fst (buildLBHandler ex na checker u w) else buildUpstreamProxy na u (u_URL u))"

definition upstreams_current :: "'x ext_api \<Rightarrow> 'x net_api \<Rightarrow> bool \<Rightarrow> store \<Rightarrow> (string, 'x handler) gomap \<Rightarrow> bool" where
  "upstreams_current ex na checker s ups \<longleftrightarrow> (\<forall>k. case map_of (st_upstreams s) k of
       None \<Rightarrow> map_of ups k = None
     | Some u \<Rightarrow> \<exists>w. map_of ups k = upstream_handler ex na checker u w)"

abbreviation longest_first :: "'x entry list \<Rightarrow> bool" where
  "longest_first es \<equiv> sorted_wrt (\<lambda>a b. length (m_Path (r_Match (e_route b))) \<le> length (m_Path (r_Match (e_route a)))) es"

definition table_current :: "'x ext_api \<Rightarrow> 'x net_api \<Rightarrow> 'x Registry \<Rightarrow> bool \<Rightarrow> bool \<Rightarrow> store \<Rightarrow> 'x routeTable \<Rightarrow> bool" where
  "table_current ex na reg checker tracker s t \<longleftrightarrow>
     (\<exists>ups rs. upstreams_current ex na checker s ups \<and> set rs = ran (map_of (st_routes s)) \<and>
        table_of na (route_served ex na checker ups) rs t \<and> longest_first (prefixEntries t) \<and>
        (\<forall>e \<in> table_entries t. entry_built ex reg checker tracker ups e))"

section \<open>What store operations leave to the router\<close>

lemma run_op_listeners: "\<not> is_subscribe opn \<Longrightarrow> st_listeners (snd (run_op e opn s)) = st_listeners s"
  by (cases opn) (auto simp: store_op_simps err_of_def split: option.split)

lemma run_op_spawned:
  "\<not> is_subscribe opn \<Longrightarrow> st_spawned (snd (run_op e opn s)) = st_spawned s \<or> st_spawned (snd (run_op e opn s)) = st_spawned s @ st_listeners s"
  by (cases opn) (auto simp: store_op_simps err_of_def split: option.split)

text \<open>An operation that starts no reload has not changed what the router reads, a route toggled without saving apart.\<close>

lemma silent_op_upstreams:
  assumes "good_env e s" "\<not> is_subscribe opn" "st_spawned (snd (run_op e opn s)) = st_spawned s" "st_listeners s \<noteq> []"
  shows "map_of (st_upstreams (snd (run_op e opn s))) = map_of (st_upstreams s)"
  using assms unfolding good_env_def
  by (cases opn; auto simp: store_op_simps err_of_def gm_undo_create split: store_op_splits)

lemma saved_op_routes:
  assumes "good_env e s" "\<not> is_subscribe opn" "st_spawned (snd (run_op e opn s)) = st_spawned s" "st_listeners s \<noteq> []"
    and "\<not> unsaved_toggle e opn s"
  shows "map_of (st_routes (snd (run_op e opn s))) = map_of (st_routes s)"
  using assms unfolding good_env_def
  by (cases opn; auto simp: store_op_simps err_of_def gm_undo_create split: store_op_splits sum.splits)

lemma toggle_elsewhere:
  "k \<noteq> rid \<Longrightarrow> map_of (st_routes (snd (run_op e (ToggleRouteOp rid b) s))) k = map_of (st_routes s) k"
  by (auto simp: store_op_simps err_of_def split: store_op_splits)

lemma silent_op_routes:
  assumes "good_env e s" "\<not> is_subscribe opn" "st_spawned (snd (run_op e opn s)) = st_spawned s" "st_listeners s \<noteq> []"
    and "\<not> unsaved_change s (snd (run_op e opn s))"
  shows "map_of (st_routes (snd (run_op e opn s))) = map_of (st_routes s)"
proof (cases "unsaved_toggle e opn s")
  case True
  then obtain rid b where opn: "opn = ToggleRouteOp rid b" and "map_of (st_routes s) rid \<noteq> None" by (cases opn) auto
  then obtain r where "(rid, r) \<in> set (st_routes s)" by (auto dest: map_of_SomeD)
  moreover have "\<forall>p \<in> set (st_routes s). map_of (st_routes (snd (run_op e opn s))) (fst p) = map_of (st_routes s) (fst p)"
    using assms(3,5) by (simp add: unsaved_change_def list_all_iff case_prod_unfold)
  ultimately have "map_of (st_routes (snd (run_op e opn s))) rid = map_of (st_routes s) rid" by force
  with toggle_elsewhere [of _ rid e b s] show ?thesis unfolding opn fun_eq_iff by metis
next
  case False
  then show ?thesis by (rule saved_op_routes [OF assms(1-4)])
qed

lemma only_toggles_unsaved:
  assumes "good_env e s" "\<not> is_subscribe opn" "st_listeners s \<noteq> []" "unsaved_change s (snd (run_op e opn s))"
  shows "unsaved_toggle e opn s"
proof (rule ccontr)
  assume "\<not> unsaved_toggle e opn s"
  with saved_op_routes [OF assms(1,2) _ assms(3)] assms(4) show False
    by (simp add: unsaved_change_def list_all_iff case_prod_unfold)
qed

section \<open>What a reload publishes\<close>

text \<open>Building plugins does not touch the store.\<close>

definition registry_keeps_store :: "'x Registry \<Rightarrow> bool" where
  "registry_keeps_store reg \<longleftrightarrow> (\<forall>name f c w. map_of reg name = Some f \<longrightarrow> w_store (snd (f c w)) = w_store w)"

lemma gateway_registry_keeps_store: "registry_keeps_store (gateway_registry ex jl Sum256 cfg)"
  by (simp add: registry_keeps_store_def gateway_registry_def Register_def NewRegistry_def Let_def stateless_def
      breaker_factory_def route_limit_factory_def)

lemma build_plugins_store: "registry_keeps_store reg \<Longrightarrow> w_store (snd (build_plugins reg refs w)) = w_store w"
proof (induction refs arbitrary: w)
  case (Cons ref refs)
  have "w_store (snd (Build reg (p_Name ref) (p_Config ref) w)) = w_store w"
    using Cons.prems by (auto simp: registry_keeps_store_def Build_def split: option.split)
  with Cons show ?case by (simp add: case_prod_unfold Let_def)
qed simp

lemma add_route_store:
  "registry_keeps_store reg \<Longrightarrow> w_store (snd (add_route ex na reg checker tracker ups route (t, w))) = w_store w"
  using build_plugins_store [of reg "r_Plugins route" w]
  by (auto simp: add_route_def buildRouteHandler_def case_prod_unfold Let_def split: option.split)

lemma add_routes_store:
  "registry_keeps_store reg \<Longrightarrow> w_store (snd (fold (add_route ex na reg checker tracker ups) rs (t, w))) = w_store w"
proof (induction rs arbitrary: t w)
  case (Cons r rs)
  obtain t1 w1 where s: "add_route ex na reg checker tracker ups r (t, w) = (t1, w1)" by force
  with Cons.IH [OF Cons.prems, of t1 w1] add_route_store [OF Cons.prems, of ex na checker tracker ups r t w] show ?case by simp
qed simp

lemma reload_store:
  shows "w_store (snd (reload_upstreams ex na checker os w)) = w_store w"
    and "registry_keeps_store reg \<Longrightarrow> w_store (snd (reload_routes ex na reg checker tracker os ups w)) = w_store w"
  using add_routes_store [of reg ex na checker tracker ups "ListRoutes os (w_store w)" empty_table w]
  by (simp_all add: reload_upstreams_def reload_routes_def build_upstreams_store case_prod_unfold Let_def)

lemma build_upstreams_handlers:
  assumes "distinct (map u_ID us)" "\<forall>u \<in> set us. map_of m (u_ID u) = None" "build_upstreams ex na checker us m w = (ups, w')"
  shows "(\<forall>k. k \<notin> u_ID ` set us \<longrightarrow> map_of ups k = map_of m k) \<and>
    (\<forall>u \<in> set us. \<exists>v. map_of ups (u_ID u) = upstream_handler ex na checker u v)"
  using assms
proof (induction us arbitrary: m w)
  case (Cons u us)
  obtain h w1 where h: "(if length (u_Endpoints u) > 1 then buildLBHandler ex na checker u w
      else (buildUpstreamProxy na u (u_URL u), w)) = (h, w1)" by force
  let ?m = "case h of None \<Rightarrow> m | Some f \<Rightarrow> gm_put (u_ID u) f m"
  have hu: "h = upstream_handler ex na checker u w" using h by (auto simp: upstream_handler_def split: if_splits)
  have m: "map_of ?m k = (if k = u_ID u then h else map_of m k)" for k
    using Cons.prems(2) by (auto split: option.split)
  have "build_upstreams ex na checker us ?m w1 = (ups, w')" using Cons.prems(3) h by (simp add: Let_def)
  moreover have "\<forall>v \<in> set us. map_of ?m (u_ID v) = None" using Cons.prems(1,2) m by (auto simp: image_iff)
  ultimately have ih: "(\<forall>k. k \<notin> u_ID ` set us \<longrightarrow> map_of ups k = map_of ?m k) \<and>
      (\<forall>u \<in> set us. \<exists>v. map_of ups (u_ID u) = upstream_handler ex na checker u v)"
    using Cons.IH Cons.prems(1) by simp
  have "map_of ups (u_ID u) = upstream_handler ex na checker u w" using ih m hu Cons.prems(1) by auto
  with ih m show ?case by auto
qed simp

lemma order_values: "range_order \<sigma> \<Longrightarrow> gm_wf m \<Longrightarrow> set (map snd (\<sigma> m)) = ran (map_of m)"
  by (auto simp: ran_def gm_mem_iff image_iff) (metis gm_mem_iff snd_conv)+

lemma reload_upstreams_current:
  assumes "wf_store (w_store w)" "fair_orders os" "reload_upstreams ex na checker os w = (ups, w')"
  shows "upstreams_current ex na checker (w_store w) ups"
proof -
  let ?m = "st_upstreams (w_store w)" and ?us = "ListUpstreams os (w_store w)"
  have ok: "table_ok u_ID u_Name ?m" and ord: "range_order (ord_upstreams os)" using assms by (simp_all add: wf_store_def fair_orders_def)
  then have wf: "gm_wf ?m" and idk: "map_of ?m k = Some u \<Longrightarrow> u_ID u = k" for k u by (auto simp: table_ok_def)
  have us: "set ?us = ran (map_of ?m)" using order_values [OF ord wf] by (simp add: ListUpstreams_def)
  have ids: "\<forall>(k, u) \<in> set (ord_upstreams os ?m). u_ID u = k" using ok ord by (auto simp: table_ok_def gm_mem_iff)
  have "distinct (map u_ID ?us)"
    unfolding ListUpstreams_def values_with_ids(2) [OF ids] using ord wf by (simp flip: gm_wf_def)
  then have b: "(\<forall>k. k \<notin> u_ID ` set ?us \<longrightarrow> map_of ups k = None) \<and>
      (\<forall>u \<in> set ?us. \<exists>v. map_of ups (u_ID u) = upstream_handler ex na checker u v)"
    using build_upstreams_handlers [of ?us "[]" ex na checker w ups w'] assms(3) by (simp add: reload_upstreams_def)
  show ?thesis
    unfolding upstreams_current_def
  proof (intro allI)
    fix k
    show "case map_of ?m k of None \<Rightarrow> map_of ups k = None | Some u \<Rightarrow> \<exists>w. map_of ups k = upstream_handler ex na checker u w"
    proof (cases "map_of ?m k")
      case None
      then have "k \<notin> u_ID ` set ?us" unfolding us using idk by (auto simp: ran_def)
      with b None show ?thesis by simp
    next
      case (Some u)
      then have "u \<in> set ?us" "u_ID u = k" unfolding us using idk by (auto intro: ranI)
      with b Some show ?thesis by auto
    qed
  qed
qed

lemma reload_routes_current:
  assumes "sort_ok na" "wf_store (w_store w)" "fair_orders os" "upstreams_current ex na checker (w_store w) ups"
    and "reload_routes ex na reg checker tracker os ups w = (t, w')"
  shows "table_current ex na reg checker tracker (w_store w) t"
proof -
  let ?rs = "ListRoutes os (w_store w)"
  obtain t1 w1 where f: "fold (add_route ex na reg checker tracker ups) ?rs (empty_table, w) = (t1, w1)" by force
  have t: "t = t1\<lparr> prefixEntries := na_sort na (prefixEntries t1) \<rparr>" using assms(5) f by (simp add: reload_routes_def)
  have same: "set (na_sort na es) = set es" for es using assms(1) by (metis mset_eq_setD sort_ok_def)
  have "table_of na (route_served ex na checker ups) [] (empty_table :: 'a routeTable)"
    by (simp add: table_of_def empty_table_def entries_ok_def)
  from add_routes_table_of [OF this, of ?rs reg tracker w]
  have "table_of na (route_served ex na checker ups) ?rs t1" by (simp add: f)
  then have 1: "table_of na (route_served ex na checker ups) ?rs t" by (simp add: t table_of_def entries_ok_def same)
  have "\<forall>e \<in> table_entries (empty_table :: 'a routeTable). entry_built ex reg checker tracker ups e"
    by (simp add: table_entries_def empty_table_def)
  from add_routes_built [OF this, of na ?rs w]
  have 2: "\<forall>e \<in> table_entries t. entry_built ex reg checker tracker ups e" by (simp add: f t table_entries_def same)
  have "set ?rs = ran (map_of (st_routes (w_store w)))"
    using assms(2,3) unfolding ListRoutes_def by (intro order_values) (simp_all add: wf_store_def fair_orders_def table_ok_def)
  moreover have "longest_first (prefixEntries t)" using assms(1) by (simp add: t sort_ok_def)
  ultimately show ?thesis unfolding table_current_def using assms(4) 1 2 by blast
qed

lemma table_current_cong:
  "map_of (st_routes s) = map_of (st_routes s') \<Longrightarrow> map_of (st_upstreams s) = map_of (st_upstreams s') \<Longrightarrow>
    table_current ex na reg checker tracker s t \<longleftrightarrow> table_current ex na reg checker tracker s' t"
  by (simp add: table_current_def upstreams_current_def)

section \<open>The invariant\<close>

text \<open>
  Once every started reload has taken the mutex, the last one saw the store as it is: its upstreams are current
  after its first reading, and its table after the second, unless a route was toggled without saving since.
\<close>

definition live_ok :: "'x ext_api \<Rightarrow> 'x net_api \<Rightarrow> 'x Registry \<Rightarrow> bool \<Rightarrow> bool \<Rightarrow> 'x live \<Rightarrow> bool" where
  "live_ok ex na reg checker tracker l \<longleftrightarrow> wf_store (lv_store l) \<and> length (st_listeners (lv_store l)) = 1 \<and>
     lv_started l \<le> length (st_spawned (lv_store l)) \<and>
     (lv_started l = length (st_spawned (lv_store l)) \<longrightarrow>
        (case lv_phase l of
           None \<Rightarrow> lv_unsaved l \<or> table_current ex na reg checker tracker (lv_store l) (lv_table l)
         | Some Locked \<Rightarrow> True
         | Some (Built ups) \<Rightarrow> upstreams_current ex na checker (lv_store l) ups))"

lemma router_New_current:
  assumes "sort_ok na" "fair_orders (ex_orders ex)" "registry_keeps_store reg" "wf_store (w_store w)"
    and "router_New ex na reg checker tracker fn w = (t, w1)"
  shows "table_current ex na reg checker tracker (w_store w) t \<and> w_store w1 = OnChange fn (w_store w)"
proof -
  obtain ups v where u: "reload_upstreams ex na checker (ex_orders ex) w = (ups, v)" by force
  obtain v1 where r: "reload_routes ex na reg checker tracker (ex_orders ex) ups v = (t, v1)" and w1: "w1 = v1\<lparr> w_store := OnChange fn (w_store v1) \<rparr>"
    using assms(5) u by (auto simp: router_New_def reload_halves split: prod.splits)
  have st: "w_store v = w_store w" "w_store v1 = w_store w"
    using reload_store(1) [of ex na checker "ex_orders ex" w] reload_store(2) [OF assms(3), of ex na checker tracker "ex_orders ex" ups v] u r
    by simp_all
  have "table_current ex na reg checker tracker (w_store w) t"
    using reload_routes_current [OF assms(1) _ assms(2) _ r] reload_upstreams_current [OF assms(4,2) u] assms(4) by (simp add: st)
  then show ?thesis by (simp add: w1 st)
qed

lemma live_ok_start:
  assumes "sort_ok na" "fair_orders (ex_orders ex)" "registry_keeps_store reg" "wf_store (w_store w)"
    and "st_listeners (w_store w) = []" "st_spawned (w_store w) = []" "router_New ex na reg checker tracker fn w = (t, w1)"
  shows "live_ok ex na reg checker tracker \<lparr> lv_world = w1, lv_table = t, lv_started = 0, lv_phase = None, lv_unsaved = False \<rparr>"
proof -
  note new = router_New_current [OF assms(1-4,7)]
  from new [THEN conjunct1] have "table_current ex na reg checker tracker (OnChange fn (w_store w)) t"
    by (rule table_current_cong [THEN iffD1, rotated 2]) (simp_all add: OnChange_def)
  moreover have "wf_store (OnChange fn (w_store w))"
    using assms(4) wf_store_cong [of "w_store w" "OnChange fn (w_store w)"] by (simp add: same_data_def OnChange_def)
  ultimately show ?thesis using assms(5,6) new by (simp add: live_ok_def lv_store_def) (simp add: OnChange_def)
qed

lemma live_ok_op:
  assumes ok: "live_ok ex na reg checker tracker l" and env: "good_env e (lv_store l)" and sub: "\<not> is_subscribe opn"
  shows "live_ok ex na reg checker tracker (live_op e opn l)"
proof -
  let ?s = "lv_store l" and ?s' = "snd (run_op e opn (lv_store l))"
  have fields: "lv_store (live_op e opn l) = ?s'" "lv_phase (live_op e opn l) = lv_phase l" "lv_started (live_op e opn l) = lv_started l"
    "lv_table (live_op e opn l) = lv_table l" "lv_unsaved (live_op e opn l) \<longleftrightarrow> lv_unsaved l \<or> unsaved_change ?s ?s'"
    by (simp_all add: live_op_def lv_store_def)
  have wf: "wf_store ?s'" using ok env by (simp add: live_ok_def wf_store_run_op)
  have lis: "length (st_listeners ?s) = 1" "st_listeners ?s \<noteq> []" using ok by (auto simp: live_ok_def)
  from run_op_spawned [OF sub, of e ?s] show ?thesis
  proof
    assume same: "st_spawned ?s' = st_spawned ?s"
    note up = silent_op_upstreams [OF env sub same lis(2)] and rt = silent_op_routes [OF env sub same lis(2)]
    have "upstreams_current ex na checker ?s' ups \<longleftrightarrow> upstreams_current ex na checker ?s ups" for ups
      by (simp add: upstreams_current_def up)
    moreover have "unsaved_change ?s ?s' \<or> (table_current ex na reg checker tracker ?s' t \<longleftrightarrow> table_current ex na reg checker tracker ?s t)" for t
      using table_current_cong [OF rt up] by blast
    ultimately show ?thesis
      using ok wf lis(1) same run_op_listeners [OF sub, of e ?s] unfolding live_ok_def fields
      by (auto split: option.splits phase.splits)
  next
    assume "st_spawned ?s' = st_spawned ?s @ st_listeners ?s"
    then have "length (st_spawned ?s') = Suc (length (st_spawned ?s))" using lis(1) by simp
    then show ?thesis using ok wf lis(1) run_op_listeners [OF sub, of e ?s] unfolding live_ok_def fields by simp
  qed
qed

lemma live_ok_reload:
  assumes "sort_ok na" "registry_keeps_store reg" and ok: "live_ok ex na reg checker tracker l"
    and step: "reload_step ex na reg checker tracker l l'"
  shows "live_ok ex na reg checker tracker l'"
  using step
proof cases
  case lock
  then show ?thesis using ok by (auto simp: live_ok_def lv_store_def)
next
  case (read_upstreams os ups w)
  then have "w_store w = lv_store l" using reload_store(1) [of ex na checker os "lv_world l"] by (simp add: lv_store_def)
  moreover have "upstreams_current ex na checker (lv_store l) ups"
    using reload_upstreams_current [of "lv_world l" os ex na checker ups w] ok read_upstreams by (simp add: live_ok_def lv_store_def)
  ultimately show ?thesis using ok read_upstreams(1) by (simp add: live_ok_def lv_store_def)
next
  case (publish ups os t w)
  then have st: "w_store w = lv_store l"
    using reload_store(2) [OF assms(2), of ex na checker tracker os ups "lv_world l"] by (simp add: lv_store_def)
  have "table_current ex na reg checker tracker (lv_store l) t" if "lv_started l = length (st_spawned (lv_store l))"
    using reload_routes_current [OF assms(1), of "lv_world l" os ex checker ups reg tracker t w] ok that publish
    by (simp add: live_ok_def lv_store_def)
  then show ?thesis using ok publish(1) st by (simp add: live_ok_def lv_store_def)
qed

lemma live_reach_ok:
  assumes "sort_ok na" "fair_orders (ex_orders ex)" "registry_keeps_store reg" and "live_reach ex na reg checker tracker l"
  shows "live_ok ex na reg checker tracker l"
  using assms(4)
proof induction
  case (start w fn t w1)
  then show ?case by (rule live_ok_start [OF assms(1-3)])
next
  case (run l l')
  from run.hyps(2) show ?case
  proof cases
    case (store_change e opn)
    then show ?thesis using live_ok_op [OF run.IH] by simp
  next
    case (traffic w)
    then show ?thesis using run.IH by (auto simp: live_ok_def lv_store_def split: option.splits phase.splits)
  next
    case reloading
    then show ?thesis by (rule live_ok_reload [OF assms(1,3) run.IH])
  qed
qed

section \<open>The settled router\<close>

text \<open>Which routes of a store should be served, in terms of the store and the network alone.\<close>

definition upstream_builds :: "'x net_api \<Rightarrow> Upstream \<Rightarrow> bool" where
  "upstream_builds na u \<longleftrightarrow>
     (if length (u_Endpoints u) > 1 then \<forall>ep \<in> set (u_Endpoints u). na_Parse na ep \<noteq> None else na_Parse na (u_URL u) \<noteq> None)"

definition should_serve :: "'x net_api \<Rightarrow> store \<Rightarrow> Route \<Rightarrow> bool" where
  "should_serve na s r \<longleftrightarrow> r \<in> ran (map_of (st_routes s)) \<and> r_Active r \<and>
     (r_WeightedUpstreams r = [] \<longrightarrow> (\<exists>u. map_of (st_upstreams s) (r_UpstreamID r) = Some u \<and> upstream_builds na u)) \<and>
     (m_PathMode (r_Match r) = PathModeRegex \<longrightarrow> na_Compile na (m_Path (r_Match r)) \<noteq> None)"

lemma endpoint_proxies_None: "endpoint_proxies na u eps m = None \<longleftrightarrow> (\<exists>ep \<in> set eps. na_Parse na ep = None)"
  by (induction na u eps m rule: endpoint_proxies.induct) (auto simp: buildUpstreamProxy_def Let_def split: option.split)

lemma upstream_handler_None: "upstream_handler ex na checker u w = None \<longleftrightarrow> \<not> upstream_builds na u"
proof (cases "length (u_Endpoints u) > 1")
  case True
  then have "upstream_handler ex na checker u w = None \<longleftrightarrow> endpoint_proxies na u (u_Endpoints u) [] = None"
    by (simp add: upstream_handler_def buildLBHandler_def split: option.split)
  with True show ?thesis unfolding upstream_builds_def endpoint_proxies_None by (simp del: not_None_eq not_Some_eq)
next
  case False
  then show ?thesis by (simp add: upstream_handler_def upstream_builds_def buildUpstreamProxy_def Let_def split: option.split)
qed

lemma route_served_now:
  assumes "upstreams_current ex na checker s ups" and "r \<in> ran (map_of (st_routes s))"
  shows "route_served ex na checker ups r \<longleftrightarrow> should_serve na s r"
proof -
  let ?k = "r_UpstreamID r"
  have "case map_of (st_upstreams s) ?k of None \<Rightarrow> map_of ups ?k = None
      | Some u \<Rightarrow> \<exists>w. map_of ups ?k = upstream_handler ex na checker u w" using assms(1) by (simp add: upstreams_current_def)
  then have "map_of ups ?k \<noteq> None \<longleftrightarrow> (\<exists>u. map_of (st_upstreams s) ?k = Some u \<and> upstream_builds na u)"
  proof (cases "map_of (st_upstreams s) ?k")
    case (Some u)
    with \<open>case map_of (st_upstreams s) ?k of None \<Rightarrow> _ | Some u \<Rightarrow> _ u\<close> obtain w where
      "map_of ups ?k = upstream_handler ex na checker u w" by auto
    then have "map_of ups ?k = None \<longleftrightarrow> \<not> upstream_builds na u" by (simp only: upstream_handler_None)
    with Some show ?thesis by auto
  qed simp
  then show ?thesis using assms(2) by (auto simp: route_served_def should_serve_def route_upstream_def)
qed

text \<open>The upstream handler a route of the store is entitled to.\<close>

definition upstream_of :: "'x ext_api \<Rightarrow> 'x net_api \<Rightarrow> bool \<Rightarrow> store \<Rightarrow> Route \<Rightarrow> 'x handler \<Rightarrow> bool" where
  "upstream_of ex na checker s r h \<longleftrightarrow>
     (if r_WeightedUpstreams r \<noteq> []
      then \<exists>ups. upstreams_current ex na checker s ups \<and> h = buildTrafficSplitHandler ex checker (r_WeightedUpstreams r) ups
      else \<exists>u w. map_of (st_upstreams s) (r_UpstreamID r) = Some u \<and> upstream_handler ex na checker u w = Some h)"

lemma entry_upstream_of:
  assumes "upstreams_current ex na checker s ups" "route_upstream ex checker ups r = Some h"
  shows "upstream_of ex na checker s r h"
proof (cases "r_WeightedUpstreams r = []")
  case True
  then have h: "map_of ups (r_UpstreamID r) = Some h" using assms(2) by (simp add: route_upstream_def)
  have "case map_of (st_upstreams s) (r_UpstreamID r) of None \<Rightarrow> map_of ups (r_UpstreamID r) = None
      | Some u \<Rightarrow> \<exists>w. map_of ups (r_UpstreamID r) = upstream_handler ex na checker u w"
    using assms(1) by (simp add: upstreams_current_def)
  with True h show ?thesis by (auto simp: upstream_of_def split: option.splits intro: sym)
next
  case False
  with assms show ?thesis by (auto simp: upstream_of_def route_upstream_def)
qed

lemma current_table_routes:
  assumes cur: "table_current ex na reg checker tracker s t"
  shows "(\<exists>r upH wa. should_serve na s r \<and> route_matches na r req \<and>
      (\<forall>r'. should_serve na s r' \<and> route_matches na r' req \<longrightarrow> outranked r' r) \<and> upstream_of ex na checker s r upH \<and>
      router_ServeHTTP t fallback req v = fst (buildRouteHandler reg tracker r upH wa) req v) \<or>
    ((\<forall>r. should_serve na s r \<longrightarrow> \<not> route_matches na r req) \<and> router_ServeHTTP t fallback req v = fallback req v)"
proof -
  obtain ups rs where ups: "upstreams_current ex na checker s ups" and rs: "set rs = ran (map_of (st_routes s))"
    and t: "table_of na (route_served ex na checker ups) rs t" "longest_first (prefixEntries t)"
    and built: "\<forall>e \<in> table_entries t. entry_built ex reg checker tracker ups e"
    using cur unfolding table_current_def by blast
  have served: "r \<in> set rs \<and> route_served ex na checker ups r \<longleftrightarrow> should_serve na s r" for r
    using route_served_now [OF ups, of r] rs by (auto simp: should_serve_def)
  show ?thesis
  proof (cases "match_entry t req")
    case None
    with match_entry_none [OF t(1) None] served show ?thesis by (auto simp: router_ServeHTTP_def)
  next
    case (Some e)
    note best = match_entry_best [OF t Some]
    have "entry_built ex reg checker tracker ups e" using built match_entry_member [OF Some] by blast
    then obtain upH wa where "route_upstream ex checker ups (e_route e) = Some upH"
      "e_handler e = fst (buildRouteHandler reg tracker (e_route e) upH wa)" by (auto simp: entry_built_def)
    with entry_upstream_of [OF ups] have "upstream_of ex na checker s (e_route e) upH"
      "router_ServeHTTP t fallback req v = fst (buildRouteHandler reg tracker (e_route e) upH wa) req v"
      using Some by (simp_all add: router_ServeHTTP_def)
    with best served show ?thesis by blast
  qed
qed

text \<open>
  C4. Hot reload is consistent. In every interleaving of store operations (whose writes may fail), requests and
  reloads, whenever no reload is waiting or at work and no route has been toggled without being saved, the
  router answers each request by the store as it is now: by the best of the active routes of the store that
  match and whose upstream can be built, with a handler built from the upstream as the store has it now, or by
  the fallback when none matches. It does not matter that a reload reads the upstreams and the routes at
  different times, nor in which order concurrent reloads take the mutex.
\<close>
theorem settled_router_is_current:
  assumes "sort_ok na" "fair_orders (ex_orders ex)" "registry_keeps_store reg"
    and "live_reach ex na reg checker tracker l" and "settled l" and "\<not> lv_unsaved l"
  shows "(\<exists>r upH wa. should_serve na (lv_store l) r \<and> route_matches na r req \<and>
      (\<forall>r'. should_serve na (lv_store l) r' \<and> route_matches na r' req \<longrightarrow> outranked r' r) \<and>
      upstream_of ex na checker (lv_store l) r upH \<and>
      router_ServeHTTP (lv_table l) fallback req v = fst (buildRouteHandler reg tracker r upH wa) req v) \<or>
    ((\<forall>r. should_serve na (lv_store l) r \<longrightarrow> \<not> route_matches na r req) \<and>
      router_ServeHTTP (lv_table l) fallback req v = fallback req v)"
proof -
  have "table_current ex na reg checker tracker (lv_store l) (lv_table l)"
    using live_reach_ok [OF assms(1-4)] assms(5,6) by (simp add: live_ok_def settled_def)
  then show ?thesis by (rule current_table_routes)
qed

section \<open>Restart\<close>

lemma reads_same_maps:
  assumes "reads_same s t"
  shows "map_of (st_routes s) = map_of (st_routes t)" "map_of (st_upstreams s) = map_of (st_upstreams t)"
proof -
  have get: "GetRoute i s = GetRoute i t" "GetUpstream i s = GetUpstream i t" for i using assms by (simp_all add: reads_same_def)
  show "map_of (st_routes s) = map_of (st_routes t)"
  proof
    fix i show "map_of (st_routes s) i = map_of (st_routes t) i"
      using get(1) [of i] by (simp add: GetRoute_def split: option.splits)
  qed
  show "map_of (st_upstreams s) = map_of (st_upstreams t)"
  proof
    fix i show "map_of (st_upstreams s) i = map_of (st_upstreams t) i"
      using get(2) [of i] by (simp add: GetUpstream_def split: option.splits)
  qed
qed

text \<open>The store that a restart loads holds the routes and upstreams of the last saved operation.\<close>

lemma restart_maps:
  assumes "wf_store s" "good_env e s" "fst (run_op e opn s) = None" "st_filePath s \<noteq> ''''" "\<not> is_subscribe opn"
    and "New True (st_filePath s) (st_fs (snd (run_op e opn s))) = Inr t"
  shows "wf_store t" "map_of (st_routes t) = map_of (st_routes (snd (run_op e opn s)))" "map_of (st_upstreams t) = map_of (st_upstreams (snd (run_op e opn s)))"
proof -
  let ?s' = "snd (run_op e opn s)"
  obtain u where u: "st_fs ?s' (st_filePath s) = Some (JSON (Export (env_orders e) u))" "wf_store u" "reads_same u ?s'"
    using run_op_saved [OF assms(1-5)] by blast
  have fair: "fair_orders (env_orders e)" using assms(2) by (simp add: good_env_def)
  have t: "t = load_snapshot (Export (env_orders e) u) (empty_store (st_filePath s) (st_fs ?s'))"
    using New_Export [of "st_fs ?s'" "st_filePath s", OF u(1) assms(4)] assms(6) by simp
  note loaded = load_snapshot_Export [OF u(2) fair, of "st_filePath s" "st_fs ?s'", folded t]
  show "wf_store t" unfolding t by (rule load_snapshot_wf [OF u(2) fair])
  show "map_of (st_routes t) = map_of (st_routes ?s')" "map_of (st_upstreams t) = map_of (st_upstreams ?s')"
    using loaded(1,2) reads_same_maps [OF u(3)] by simp_all
qed

text \<open>
  C7. A restart keeps the routing. After a successful operation of a store with a file, a gateway that is stopped
  and started again on that file routes every request by the store as it was before: by the best of its routes that
  match and can be served, with a handler built from its upstreams, or by the fallback when none matches.
\<close>
theorem restart_keeps_routing:
  assumes "sort_ok na" "fair_orders (ex_orders ex)" "registry_keeps_store reg"
    and "wf_store s" "good_env e s" "fst (run_op e opn s) = None" "st_filePath s \<noteq> ''''" "\<not> is_subscribe opn"
    and "New True (st_filePath s) (st_fs (snd (run_op e opn s))) = Inr t"
    and "w_store w = t" and "router_New ex na reg checker tracker fn w = (table, w1)"
  defines "s' \<equiv> snd (run_op e opn s)"
  shows "(\<exists>r upH wa. should_serve na s' r \<and> route_matches na r req \<and>
      (\<forall>r'. should_serve na s' r' \<and> route_matches na r' req \<longrightarrow> outranked r' r) \<and> upstream_of ex na checker s' r upH \<and>
      router_ServeHTTP table fallback req v = fst (buildRouteHandler reg tracker r upH wa) req v) \<or>
    ((\<forall>r. should_serve na s' r \<longrightarrow> \<not> route_matches na r req) \<and> router_ServeHTTP table fallback req v = fallback req v)"
proof -
  note rst = restart_maps [OF assms(4-9), folded s'_def]
  have "table_current ex na reg checker tracker t table"
    using router_New_current [OF assms(1-3) _ assms(11)] rst(1) assms(10) by simp
  then have "table_current ex na reg checker tracker s' table"
    by (rule table_current_cong [THEN iffD1, rotated 2]) (simp_all add: rst)
  then show ?thesis by (rule current_table_routes)
qed

section \<open>Reloads come to rest\<close>

text \<open>The steps that the waiting reloads and the one at work have left.\<close>

definition reload_work :: "'x live \<Rightarrow> nat" where
  "reload_work l = 3 * (length (st_spawned (lv_store l)) - lv_started l) +
     (case lv_phase l of None \<Rightarrow> 0 | Some Locked \<Rightarrow> 2 | Some (Built _) \<Rightarrow> 1)"

lemma settled_work: "lv_started l \<le> length (st_spawned (lv_store l)) \<Longrightarrow> settled l \<longleftrightarrow> reload_work l = 0"
  by (auto simp: settled_def reload_work_def split: option.split phase.split)

lemma reload_step_work:
  assumes "registry_keeps_store reg" "reload_step ex na reg checker tracker l l'"
  shows "Suc (reload_work l') = reload_work l \<and> lv_store l' = lv_store l \<and>
    (reload_work l' = 0 \<longrightarrow> \<not> lv_unsaved l')"
  using assms(2)
proof cases
  case lock
  then show ?thesis by (simp add: reload_work_def lv_store_def)
next
  case (read_upstreams os ups w)
  then show ?thesis using reload_store(1) [of ex na checker os "lv_world l"] by (simp add: reload_work_def lv_store_def)
next
  case (publish ups os t w)
  then show ?thesis using reload_store(2) [OF assms(1), of ex na checker tracker os ups "lv_world l"] by (simp add: reload_work_def lv_store_def)
qed

definition some_orders :: range_orders where
  "some_orders = \<lparr> ord_routes = \<lambda>m. m, ord_upstreams = \<lambda>m. m, ord_policies = \<lambda>m. m, ord_keys = \<lambda>m. m \<rparr>"

lemma some_orders_fair: "fair_orders some_orders"
  by (simp add: fair_orders_def some_orders_def range_order_id)

lemma reload_step_possible:
  assumes "0 < reload_work l"
  shows "\<exists>l'. reload_step ex na reg checker tracker l l'"
proof (cases "lv_phase l")
  case None
  with assms have "lv_started l < length (st_spawned (lv_store l))" by (simp add: reload_work_def)
  with None show ?thesis by (blast intro: lock)
next
  case (Some ph)
  show ?thesis
  proof (cases ph)
    case Locked
    obtain ups w where "reload_upstreams ex na checker some_orders (lv_world l) = (ups, w)" by force
    with Some Locked some_orders_fair show ?thesis by (blast intro: read_upstreams)
  next
    case (Built ups)
    obtain t w where "reload_routes ex na reg checker tracker some_orders ups (lv_world l) = (t, w)" by force
    with Some Built some_orders_fair show ?thesis by (blast intro: publish)
  qed
qed

lemma reload_steps_work:
  assumes "registry_keeps_store reg"
  shows "((reload_step ex na reg checker tracker) ^^ n) l l' \<Longrightarrow>
    reload_work l' + n = reload_work l \<and> lv_store l' = lv_store l \<and> (0 < n \<and> reload_work l' = 0 \<longrightarrow> \<not> lv_unsaved l')"
proof (induction n arbitrary: l')
  case (Suc n)
  then obtain k where k: "((reload_step ex na reg checker tracker) ^^ n) l k" "reload_step ex na reg checker tracker k l'" by auto
  from Suc.IH [OF k(1)] reload_step_work [OF assms k(2)] show ?case by auto
qed simp

lemma reload_steps_started:
  assumes "registry_keeps_store reg"
  shows "((reload_step ex na reg checker tracker) ^^ n) l l' \<Longrightarrow> lv_started l \<le> length (st_spawned (lv_store l)) \<Longrightarrow>
    lv_started l' \<le> length (st_spawned (lv_store l'))"
proof (induction n arbitrary: l')
  case (Suc n)
  then obtain k where k: "((reload_step ex na reg checker tracker) ^^ n) l k" "reload_step ex na reg checker tracker k l'" by auto
  from k(2) reload_step_work [OF assms k(2)] Suc.IH [OF k(1) Suc.prems(2)] show ?case by cases auto
qed simp

lemma reload_run:
  assumes "sort_ok na" "fair_orders (ex_orders ex)" "registry_keeps_store reg"
    and "live_reach ex na reg checker tracker l" and "((reload_step ex na reg checker tracker) ^^ n) l l'"
  shows "n \<le> reload_work l \<and> lv_store l' = lv_store l \<and>
    (n < reload_work l \<longrightarrow> (\<exists>l''. reload_step ex na reg checker tracker l' l'')) \<and>
    (settled l' \<longleftrightarrow> n = reload_work l) \<and>
    (settled l' \<and> 0 < n \<longrightarrow> table_current ex na reg checker tracker (lv_store l) (lv_table l'))"
proof -
  note work = reload_steps_work [OF assms(3,5)]
  have "live_reach ex na reg checker tracker l'"
    using assms(4,5)
  proof (induction n arbitrary: l')
    case (Suc n)
    then show ?case by (auto intro: run reloading)
  qed simp
  then have ok: "live_ok ex na reg checker tracker l'" by (rule live_reach_ok [OF assms(1-3)])
  then have "settled l' \<longleftrightarrow> reload_work l' = 0" by (intro settled_work) (simp add: live_ok_def)
  moreover have "table_current ex na reg checker tracker (lv_store l) (lv_table l')" if "settled l'" "\<not> lv_unsaved l'"
    using ok that work by (simp add: live_ok_def settled_def)
  moreover have "\<exists>l''. reload_step ex na reg checker tracker l' l''" if "n < reload_work l"
    using work that by (intro reload_step_possible) linarith
  ultimately show ?thesis using work by auto
qed


text \<open>A run of reloads that leads to rest always exists.\<close>

lemma reloads_can_settle:
  assumes "registry_keeps_store reg" and "live_ok ex na reg checker tracker l"
  shows "\<exists>n l'. ((reload_step ex na reg checker tracker) ^^ n) l l' \<and> settled l'"
proof -
  have "\<exists>l'. ((reload_step ex na reg checker tracker) ^^ n) l l'" if "n \<le> reload_work l" for n
    using that
  proof (induction n)
    case (Suc n)
    then obtain l' where l': "((reload_step ex na reg checker tracker) ^^ n) l l'" by auto
    with reload_steps_work [OF assms(1) this] Suc.prems have "0 < reload_work l'" by linarith
    with reload_step_possible [of l' ex na reg checker tracker] l' show ?case by auto
  qed auto
  then obtain l' where l': "((reload_step ex na reg checker tracker) ^^ reload_work l) l l'" by blast
  note work = reload_steps_work [OF assms(1) l']
  have "lv_started l' \<le> length (st_spawned (lv_store l'))"
    using reload_steps_started [OF assms(1) l'] assms(2) by (simp add: live_ok_def)
  with work settled_work [of l'] l' show ?thesis by auto
qed

section \<open>A toggle that is not saved\<close>

text \<open>
  C31. The router does not learn of a toggle that could not be saved. When \<open>ToggleRoute\<close> switches a route off and
  the write fails, the store keeps the route inactive and no reload is started: the router stays settled and
  goes on serving the requests of that route by it, although every read of the store says that it is off.
\<close>
theorem unsaved_toggle_keeps_serving:
  assumes "sort_ok na" "fair_orders (ex_orders ex)" "registry_keeps_store reg"
    and "live_reach ex na reg checker tracker l" "settled l" "\<not> lv_unsaved l"
    and r: "map_of (st_routes (lv_store l)) rid = Some r" "should_serve na (lv_store l) r" "route_matches na r req"
    and only: "\<And>r'. should_serve na (lv_store l) r' \<Longrightarrow> route_matches na r' req \<Longrightarrow> r' = r"
    and io: "st_filePath (lv_store l) \<noteq> ''''" "env_io e \<noteq> IO_ok"
  defines "l' \<equiv> live_op e (ToggleRouteOp rid False) l"
  shows "settled l' \<and> GetRoute rid (lv_store l') = Inr (r\<lparr> r_Active := False, r_UpdatedAt := env_now e \<rparr>) \<and>
    (\<exists>upH wa. upstream_of ex na checker (lv_store l) r upH \<and>
       router_ServeHTTP (lv_table l') fallback req v = fst (buildRouteHandler reg tracker r upH wa) req v)"
proof -
  obtain err where err: "persist_res e u = Some err" if "st_filePath u = st_filePath (lv_store l)" for u
    using io by (cases "env_io e") (auto simp: persist_res_cases)
  have s': "lv_store l' = snd (ToggleRoute e rid False (lv_store l))" by (simp add: l'_def live_op_def lv_store_def err_of_def)
  have st: "st_spawned (lv_store l') = st_spawned (lv_store l) \<and>
      GetRoute rid (lv_store l') = Inr (r\<lparr> r_Active := False, r_UpdatedAt := env_now e \<rparr>)"
    unfolding s' using r(1) err by (simp add: ToggleRoute_def persist_eq Let_def GetRoute_def)
  have same: "lv_table l' = lv_table l" "lv_phase l' = lv_phase l" "lv_started l' = lv_started l" by (simp_all add: l'_def live_op_def)
  then have "settled l'" using st assms(5) by (simp add: settled_def)
  moreover have "table_current ex na reg checker tracker (lv_store l) (lv_table l)"
    using live_reach_ok [OF assms(1-4)] assms(5,6) by (simp add: live_ok_def settled_def)
  from current_table_routes [OF this, of req fallback v] r(2,3) only
  have "\<exists>upH wa. upstream_of ex na checker (lv_store l) r upH \<and>
      router_ServeHTTP (lv_table l) fallback req v = fst (buildRouteHandler reg tracker r upH wa) req v" by metis
  ultimately show ?thesis using st same by simp
qed

section \<open>The properties at work\<close>

text \<open>A router just started over two prefix routes and one upstream.\<close>

definition live_world :: "unit world" where
  "live_world = routed_world\<lparr> w_store := (w_store routed_world)\<lparr> st_filePath := ''cfg.json'' \<rparr> \<rparr>"

definition sample_live :: "unit live" where
  "sample_live = (case router_New some_ext some_net NewRegistry True False 0 live_world of (t, w) \<Rightarrow>
     \<lparr> lv_world = w, lv_table = t, lv_started = 0, lv_phase = None, lv_unsaved = False \<rparr>)"

lemma live_world_store:
  "st_routes (w_store live_world) = [(''1'', route_of ''1'' PathModePrefix ''/p''), (''2'', route_of ''2'' PathModePrefix ''/private'')]"
  "st_upstreams (w_store live_world) = [(''u'', some_upstream)]" "st_filePath (w_store live_world) = ''cfg.json''"
  "st_listeners (w_store live_world) = []" "st_spawned (w_store live_world) = []"
  by (simp_all add: live_world_def routed_world_def empty_store_def)

lemma live_world_wf: "wf_store (w_store live_world)"
proof -
  have "keys_ok (w_store live_world)" "st_policies (w_store live_world) = []"
    by (simp_all add: live_world_def routed_world_def empty_store_def keys_ok_def keyview_def view_ok_def)
  then show ?thesis
    by (auto simp: wf_store_def table_ok_def refs_ok_def live_world_store gm_wf_def route_of_def some_upstream_def split: if_splits)
qed

lemma new_registry_keeps_store: "registry_keeps_store NewRegistry"
  by (simp add: registry_keeps_store_def NewRegistry_def)

lemma some_ext_fair: "fair_orders (ex_orders some_ext)"
  by (simp add: some_ext_def reversed_orders_def fair_orders_def range_order_rev)

lemma sample_live_reach: "live_reach some_ext some_net NewRegistry True False sample_live"
proof -
  obtain t w1 where n: "router_New some_ext some_net NewRegistry True False 0 live_world = (t, w1)" by force
  then have "sample_live = \<lparr> lv_world = w1, lv_table = t, lv_started = 0, lv_phase = None, lv_unsaved = False \<rparr>"
    by (simp add: sample_live_def)
  with live_reach.start [OF live_world_wf live_world_store(4,5) n] show ?thesis by simp
qed

lemma sample_live_store: "lv_store sample_live = OnChange 0 (w_store live_world)"
proof -
  obtain ups v where u: "reload_upstreams some_ext some_net True (ex_orders some_ext) live_world = (ups, v)" by force
  obtain t v1 where r: "reload_routes some_ext some_net NewRegistry True False (ex_orders some_ext) ups v = (t, v1)" by force
  have "w_store v1 = w_store live_world"
    using reload_store(1) [of some_ext some_net True "ex_orders some_ext" live_world]
      reload_store(2) [OF new_registry_keeps_store, of some_ext some_net True False "ex_orders some_ext" ups v] by (simp add: u r)
  then show ?thesis by (simp add: sample_live_def router_New_def reload_halves u r lv_store_def)
qed

lemma sample_live_settled: "settled sample_live" "\<not> lv_unsaved sample_live"
  using sample_live_store by (simp_all add: settled_def OnChange_def live_world_store)
    (simp_all add: sample_live_def case_prod_unfold)

lemma sample_should_serve:
  "should_serve some_net (lv_store sample_live) r \<longleftrightarrow>
     r = route_of ''1'' PathModePrefix ''/p'' \<or> r = route_of ''2'' PathModePrefix ''/private''"
proof -
  have "ran (map_of (st_routes (lv_store sample_live))) = {route_of ''1'' PathModePrefix ''/p'', route_of ''2'' PathModePrefix ''/private''}"
    by (simp add: sample_live_store OnChange_def live_world_store ran_distinct)
  moreover have "map_of (st_upstreams (lv_store sample_live)) ''u'' = Some some_upstream"
    by (simp add: sample_live_store OnChange_def live_world_store)
  moreover have "upstream_builds some_net some_upstream"
    by (simp add: upstream_builds_def some_upstream_def some_net_def)
  ultimately show ?thesis by (auto simp: should_serve_def) (auto simp: route_of_def)
qed

lemma route_of_matches:
  "route_matches some_net (route_of rid PathModePrefix p) (blank_request\<lparr> rq_Path := q \<rparr>) \<longleftrightarrow> HasPrefix q p"
  by (simp add: route_matches_def route_of_def matchHosts_def matchMethod_def matchHeaders_def)

theorem settled_router_is_current_witness:
  "\<exists>upH wa. router_ServeHTTP (lv_table sample_live) (answer 404) (blank_request\<lparr> rq_Path := ''/private'' \<rparr>) blank_world =
     fst (buildRouteHandler NewRegistry False (route_of ''2'' PathModePrefix ''/private'') upH wa) (blank_request\<lparr> rq_Path := ''/private'' \<rparr>) blank_world"
proof -
  let ?r1 = "route_of ''1'' PathModePrefix ''/p''" and ?r2 = "route_of ''2'' PathModePrefix ''/private''"
  let ?req = "blank_request\<lparr> rq_Path := ''/private'' \<rparr>"
  have "route_matches some_net ?r2 ?req" by (simp add: route_of_matches HasPrefix_def)
  moreover have "\<not> outranked ?r2 ?r1" by (simp add: outranked_def mode_rank_def route_of_def)
  ultimately show ?thesis
    using settled_router_is_current [OF some_net_sort_ok some_ext_fair new_registry_keeps_store sample_live_reach sample_live_settled,
        where req = ?req and fallback = "answer 404" and v = blank_world]
    unfolding sample_should_serve by blast
qed


theorem unsaved_toggle_keeps_serving_witness:
  "settled (live_op (sample_env ''x'' IO_rename_fails) (ToggleRouteOp ''1'' False) sample_live) \<and>
   (\<exists>r. GetRoute ''1'' (lv_store (live_op (sample_env ''x'' IO_rename_fails) (ToggleRouteOp ''1'' False) sample_live)) = Inr r \<and> \<not> r_Active r) \<and>
   (\<exists>upH wa. router_ServeHTTP (lv_table (live_op (sample_env ''x'' IO_rename_fails) (ToggleRouteOp ''1'' False) sample_live)) (answer 404)
      (blank_request\<lparr> rq_Path := ''/px'' \<rparr>) blank_world =
    fst (buildRouteHandler NewRegistry False (route_of ''1'' PathModePrefix ''/p'') upH wa) (blank_request\<lparr> rq_Path := ''/px'' \<rparr>) blank_world)"
proof -
  let ?r = "route_of ''1'' PathModePrefix ''/p''" and ?req = "blank_request\<lparr> rq_Path := ''/px'' \<rparr>"
  have stored: "map_of (st_routes (lv_store sample_live)) ''1'' = Some ?r" "st_filePath (lv_store sample_live) \<noteq> ''''"
    by (simp_all add: sample_live_store OnChange_def live_world_store)
  have serve: "should_serve some_net (lv_store sample_live) ?r" by (simp add: sample_should_serve)
  have matches: "route_matches some_net ?r ?req" by (simp add: route_of_matches HasPrefix_def)
  have only: "r' = ?r" if "should_serve some_net (lv_store sample_live) r'" "route_matches some_net r' ?req" for r'
    using that by (auto simp: sample_should_serve route_of_matches HasPrefix_def)
  have io: "env_io (sample_env ''x'' IO_rename_fails) \<noteq> IO_ok" by (simp add: sample_env_def)
  have off: "\<not> r_Active (?r\<lparr> r_Active := False, r_UpdatedAt := n \<rparr>)" for n by simp
  from unsaved_toggle_keeps_serving [OF some_net_sort_ok some_ext_fair new_registry_keeps_store sample_live_reach sample_live_settled
      stored(1) serve matches only stored(2) io, of "answer 404" blank_world]
  show ?thesis using off by blast
qed

theorem restart_keeps_routing_witness:
  "\<exists>t table w1 upH wa. New True ''cfg.json'' (st_fs (snd (run_op (sample_env ''x'' IO_ok) (ToggleRouteOp ''2'' True) (w_store live_world)))) = Inr t \<and>
     router_New some_ext some_net NewRegistry True False 0 (blank_world\<lparr> w_store := t \<rparr>) = (table, w1) \<and>
     router_ServeHTTP table (answer 404) (blank_request\<lparr> rq_Path := ''/px'' \<rparr>) blank_world =
       fst (buildRouteHandler NewRegistry False (route_of ''1'' PathModePrefix ''/p'') upH wa) (blank_request\<lparr> rq_Path := ''/px'' \<rparr>) blank_world"
proof -
  let ?s = "w_store live_world" and ?e = "sample_env ''x'' IO_ok" and ?op = "ToggleRouteOp ''2'' True"
  let ?s' = "snd (run_op ?e ?op ?s)" and ?req = "blank_request\<lparr> rq_Path := ''/px'' \<rparr>" and ?r = "route_of ''1'' PathModePrefix ''/p''"
  have env: "good_env ?e ?s" using sample_orders_fair [of "''x''" IO_ok] by (simp add: good_env_def live_world_store)
      (simp add: sample_env_def live_world_def routed_world_def empty_store_def)
  have op: "fst (run_op ?e ?op ?s) = None" "map_of (st_upstreams ?s') = map_of (st_upstreams ?s)"
    "ran (map_of (st_routes ?s')) = {?r, (route_of ''2'' PathModePrefix ''/private'')\<lparr> r_Active := True, r_UpdatedAt := 7 \<rparr>}"
    by (simp_all add: ToggleRoute_def persist_def sample_env_def Let_def err_of_def live_world_store notify_def ran_distinct insert_commute)
  have path: "st_filePath ?s = ''cfg.json''" by (rule live_world_store)
  obtain t where t: "New True (st_filePath ?s) (st_fs ?s') = Inr t"
    using run_op_saved [OF live_world_wf env op(1)] New_Export [of "st_fs ?s'" "st_filePath ?s"] by (auto simp: path)
  obtain table w1 where new: "router_New some_ext some_net NewRegistry True False 0 (blank_world\<lparr> w_store := t \<rparr>) = (table, w1)" by force
  have serve: "should_serve some_net ?s' ?r"
    unfolding should_serve_def op by (simp add: live_world_store) (simp add: route_of_def upstream_builds_def some_upstream_def some_net_def)
  have only: "r' = ?r" if "should_serve some_net ?s' r'" "route_matches some_net r' ?req" for r'
    using that unfolding should_serve_def op by (auto simp: route_matches_def route_of_def HasPrefix_def matchHosts_def)
  have matches: "route_matches some_net ?r ?req" by (simp add: route_of_matches HasPrefix_def)
  have side: "st_filePath ?s \<noteq> ''''" "\<not> is_subscribe ?op" "w_store (blank_world\<lparr> w_store := t \<rparr>) = t" by (simp_all add: path)
  from restart_keeps_routing [OF some_net_sort_ok some_ext_fair new_registry_keeps_store live_world_wf env op(1) side(1,2) t side(3) new,
      of ?req "answer 404" blank_world]
  have "\<exists>upH wa. router_ServeHTTP table (answer 404) ?req blank_world = fst (buildRouteHandler NewRegistry False ?r upH wa) ?req blank_world"
    using serve matches only by blast
  with t new show ?thesis unfolding path by blast
qed

end
