(* ===== verification/Admin.thy ===== *)
theory Admin
  imports Store_Properties Observability Config "HOL-Library.List_Lexorder" "HOL-Library.Char_ord"
begin

text \<open>
  The admin API of \<open>internal/admin\<close>: basic authentication (\<open>server.go\<close>), the routing table (\<open>handler.go\<close>)
  and every handler, over the store, the tracker and the audit log.

  A request carries the segments of its cleaned path, its body and the credentials of its basic
  authentication. A response carries the value that \<open>json.Encoder\<close> writes (\<open>payload\<close>). Outside code is a
  parameter: decoding JSON bodies (\<open>decoders\<close>), the clock, random bytes, the HTTP client of the health
  probe, the orders of map iteration and the run-time information (\<open>admin_env\<close>), and the embedded UI files.
\<close>

section \<open>Requests and responses\<close>

record admin_req =
  aq_Method :: string
  aq_Segs :: "string list"
  aq_Auth :: "(string \<times> string) option"
  aq_Remote :: string
  aq_Limit :: string
  aq_Body :: string

record decoders =
  dc_Route :: "string \<Rightarrow> Route option"
  dc_Upstream :: "string \<Rightarrow> Upstream option"
  dc_Policy :: "string \<Rightarrow> IPPolicy option"
  dc_Toggle :: "string \<Rightarrow> bool option"
  dc_Key :: "string \<Rightarrow> (string \<times> string list) option"

datatype payload =
    P_none
  | P_text string
  | P_error string string
  | P_unauthorized
  | P_status string
  | P_info string "string \<times> string \<times> string"
  | P_plugins "string list" "string list"
  | P_config snapshot
  | P_metrics Snapshot
  | P_events "Snapshot list"
  | P_routes "Route list" nat
  | P_route Route
  | P_upstreams "Upstream list" nat
  | P_upstream Upstream
  | P_probe string string "string + int" int
  | P_policies "IPPolicy list" nat
  | P_policy IPPolicy
  | P_keys "APIKey list"
  | P_key APIKey
  | P_newKey APIKey string
  | P_audit "Entry list" nat

record admin_resp =
  ar_Status :: int
  ar_Header :: "(string \<times> string) list"
  ar_Body :: payload

record admin_env =
  ae_store :: store_env
  ae_rand :: "string option"
  ae_Get :: "string \<Rightarrow> string + int"
  ae_latency :: int
  ae_uptime :: string
  ae_runtime :: "string \<times> string \<times> string"

  ae_counters :: "(string, counter) gomap \<Rightarrow> (string, counter) gomap"
  ae_sorter :: "RouteSnapshot list \<Rightarrow> RouteSnapshot list"

text \<open>The state behind the handlers; \<open>ad_reg\<close> is the plugin registry, of which they list the names.\<close>

record 'f admin =
  ad_store :: store
  ad_reg :: "(string, 'f) gomap"
  ad_tracker :: tracker
  ad_audit :: audit_log

definition admin_writeJSON :: "int \<Rightarrow> payload \<Rightarrow> admin_resp" where
  "admin_writeJSON status v = \<lparr> ar_Status = status, ar_Header = [(''Content-Type'', ''application/json'')], ar_Body = v \<rparr>"

definition no_content :: admin_resp where
  "no_content = \<lparr> ar_Status = 204, ar_Header = [], ar_Body = P_none \<rparr>"

definition writeError :: "int \<Rightarrow> string \<Rightarrow> string \<Rightarrow> admin_resp" where
  "writeError status code msg = admin_writeJSON status (P_error code msg)"

definition errBadRequest :: "string \<Rightarrow> admin_resp" where
  "errBadRequest msg = writeError 400 ''BAD_REQUEST'' msg"

text \<open>The verb \<open>%q\<close> of \<open>fmt\<close> on printable text.\<close>

definition go_quote :: "string \<Rightarrow> string" where
  "go_quote s = [CHR 0x22] @ concat (map (\<lambda>c. if c = CHR 0x22 \<or> c = CHR 0x5C then [CHR 0x5C, c] else [c]) s) @ [CHR 0x22]"

text \<open>A route that names a missing upstream fails with \<open>ErrNotFound\<close> wrapped in the name.\<close>

fun storeErr :: "store_err \<Rightarrow> admin_resp" where
  "storeErr ErrNotFound = writeError 404 ''NOT_FOUND'' ''not found''"
| "storeErr (ErrUpstream rid) = writeError 404 ''NOT_FOUND'' (''upstream '' @ go_quote rid @ '': not found'')"
| "storeErr ErrConflict = writeError 409 ''CONFLICT'' ''name already exists''"
| "storeErr ErrInUse = writeError 409 ''IN_USE'' ''resource in use''"
| "storeErr ErrHashRequired = writeError 500 ''INTERNAL_ERROR'' ''internal error''"
| "storeErr (ErrIO _) = writeError 500 ''INTERNAL_ERROR'' ''internal error''"

text \<open>Bodies are read up to one megabyte; a value that is cut off there does not decode.\<close>

definition max_body :: nat where
  "max_body = 1048576"

definition limited :: "(string \<Rightarrow> 'v option) \<Rightarrow> admin_req \<Rightarrow> 'v option" where
  "limited dec q = dec (take max_body (aq_Body q))"

section \<open>General handlers\<close>

definition handleHealth :: admin_resp where
  "handleHealth = admin_writeJSON 200 (P_status ''ok'')"

definition handleInfo :: "admin_env \<Rightarrow> admin_resp" where
  "handleInfo av = admin_writeJSON 200 (P_info (ae_uptime av) (ae_runtime av))"

definition Names :: "(string, 'f) gomap \<Rightarrow> string list" where
  "Names reg = sort (map fst reg)"

definition handlePlugins :: "'f admin \<Rightarrow> admin_resp" where
  "handlePlugins s = admin_writeJSON 200 (P_plugins
     [''correlation-id'', ''tracing'', ''logging'', ''http-metrics'', ''security-headers'', ''cors'', ''request-security'',
      ''ip-policy'', ''auth-rate-limit'', ''ip-rate-limit'', ''jwt-auth'', ''user-rate-limit'', ''circuit-breaker'']
     (Names (ad_reg s)))"

definition handleConfigExport :: "admin_env \<Rightarrow> 'f admin \<Rightarrow> admin_resp" where
  "handleConfigExport av s = admin_writeJSON 200 (P_config (Export (env_orders (ae_store av)) (ad_store s)))"

definition admin_snapshot :: "admin_env \<Rightarrow> tracker \<Rightarrow> Snapshot" where
  "admin_snapshot av t = tracker_Snapshot (ae_counters av) (ae_sorter av) t"

definition handleMetrics :: "admin_env \<Rightarrow> 'f admin \<Rightarrow> admin_resp" where
  "handleMetrics av s = admin_writeJSON 200 (P_metrics (admin_snapshot av (ad_tracker s)))"

text \<open>The event stream: a snapshot at once, and one at each tick until the client leaves.\<close>

definition streamMetrics :: "admin_env \<Rightarrow> bool \<Rightarrow> tracker list \<Rightarrow> 'f admin \<Rightarrow> admin_resp" where
  "streamMetrics av flusher ticks s =
     (if \<not> flusher
      then \<lparr> ar_Status = 500, ar_Header = [(''Content-Type'', ''text/plain; charset=utf-8'')], ar_Body = P_text ''streaming unsupported'' \<rparr>
      else \<lparr> ar_Status = 200, ar_Header = [(''Content-Type'', ''text/event-stream''), (''Cache-Control'', ''no-cache''),
               (''Connection'', ''keep-alive''), (''Access-Control-Allow-Origin'', ''*'')],
             ar_Body = P_events (map (admin_snapshot av) (ad_tracker s # ticks)) \<rparr>)"

definition handleAuditLog :: "admin_req \<Rightarrow> 'f admin \<Rightarrow> admin_resp" where
  "handleAuditLog q s =
     (let limit = (if aq_Limit q = '''' then 100
                   else case Atoi (aq_Limit q) of Some n \<Rightarrow> if n > 0 then n else 100 | None \<Rightarrow> 100);
          entries = audit_List limit (ad_audit s)
      in admin_writeJSON 200 (P_audit entries (length entries)))"

section \<open>Resources\<close>

text \<open>The two ways a handler ends after a call of the store: with a value, or with nothing.\<close>

definition answer_value :: "int \<Rightarrow> ('v \<Rightarrow> payload) \<Rightarrow> 'f admin \<Rightarrow> (store_err + 'v) \<times> store \<Rightarrow> admin_resp \<times> 'f admin" where
  "answer_value code mk s res =
     ((case fst res of Inl err \<Rightarrow> storeErr err | Inr v \<Rightarrow> admin_writeJSON code (mk v)), s\<lparr> ad_store := snd res \<rparr>)"

definition answer_none :: "'f admin \<Rightarrow> store_err option \<times> store \<Rightarrow> admin_resp \<times> 'f admin" where
  "answer_none s res = ((case fst res of Some err \<Rightarrow> storeErr err | None \<Rightarrow> no_content), s\<lparr> ad_store := snd res \<rparr>)"

definition answer_read :: "('v \<Rightarrow> payload) \<Rightarrow> store_err + 'v \<Rightarrow> admin_resp" where
  "answer_read mk res = (case res of Inl err \<Rightarrow> storeErr err | Inr v \<Rightarrow> admin_writeJSON 200 (mk v))"

definition with_body :: "'v option \<Rightarrow> 'f admin \<Rightarrow> ('v \<Rightarrow> admin_resp \<times> 'f admin) \<Rightarrow> admin_resp \<times> 'f admin" where
  "with_body dec s k = (case dec of None \<Rightarrow> (errBadRequest ''invalid request body'', s) | Some body \<Rightarrow> k body)"

definition listRoutes :: "admin_env \<Rightarrow> 'f admin \<Rightarrow> admin_resp" where
  "listRoutes av s = (let rs = ListRoutes (env_orders (ae_store av)) (ad_store s) in admin_writeJSON 200 (P_routes rs (length rs)))"

definition createRoute :: "admin_env \<Rightarrow> decoders \<Rightarrow> admin_req \<Rightarrow> 'f admin \<Rightarrow> admin_resp \<times> 'f admin" where
  "createRoute av dc q s = with_body (limited (dc_Route dc) q) s (\<lambda>body.
     answer_value 201 P_route s (CreateRoute (ae_store av) body (ad_store s)))"

definition getRoute :: "string \<Rightarrow> 'f admin \<Rightarrow> admin_resp" where
  "getRoute rid s = answer_read P_route (GetRoute rid (ad_store s))"

definition updateRoute :: "admin_env \<Rightarrow> decoders \<Rightarrow> string \<Rightarrow> admin_req \<Rightarrow> 'f admin \<Rightarrow> admin_resp \<times> 'f admin" where
  "updateRoute av dc rid q s = with_body (limited (dc_Route dc) q) s (\<lambda>body.
     answer_value 200 P_route s (UpdateRoute (ae_store av) rid body (ad_store s)))"

definition deleteRoute :: "admin_env \<Rightarrow> string \<Rightarrow> 'f admin \<Rightarrow> admin_resp \<times> 'f admin" where
  "deleteRoute av rid s = answer_none s (DeleteRoute (ae_store av) rid (ad_store s))"

definition toggleRoute :: "admin_env \<Rightarrow> decoders \<Rightarrow> string \<Rightarrow> admin_req \<Rightarrow> 'f admin \<Rightarrow> admin_resp \<times> 'f admin" where
  "toggleRoute av dc rid q s = with_body (limited (dc_Toggle dc) q) s (\<lambda>active.
     answer_value 200 P_route s (ToggleRoute (ae_store av) rid active (ad_store s)))"

definition listUpstreams :: "admin_env \<Rightarrow> 'f admin \<Rightarrow> admin_resp" where
  "listUpstreams av s = (let us = ListUpstreams (env_orders (ae_store av)) (ad_store s) in admin_writeJSON 200 (P_upstreams us (length us)))"

definition createUpstream :: "admin_env \<Rightarrow> decoders \<Rightarrow> admin_req \<Rightarrow> 'f admin \<Rightarrow> admin_resp \<times> 'f admin" where
  "createUpstream av dc q s = with_body (limited (dc_Upstream dc) q) s (\<lambda>body.
     answer_value 201 P_upstream s (CreateUpstream (ae_store av) body (ad_store s)))"

definition getUpstream :: "string \<Rightarrow> 'f admin \<Rightarrow> admin_resp" where
  "getUpstream rid s = answer_read P_upstream (GetUpstream rid (ad_store s))"

definition updateUpstream :: "admin_env \<Rightarrow> decoders \<Rightarrow> string \<Rightarrow> admin_req \<Rightarrow> 'f admin \<Rightarrow> admin_resp \<times> 'f admin" where
  "updateUpstream av dc rid q s = with_body (limited (dc_Upstream dc) q) s (\<lambda>body.
     answer_value 200 P_upstream s (UpdateUpstream (ae_store av) rid body (ad_store s)))"

definition deleteUpstream :: "admin_env \<Rightarrow> string \<Rightarrow> 'f admin \<Rightarrow> admin_resp \<times> 'f admin" where
  "deleteUpstream av rid s = answer_none s (DeleteUpstream (ae_store av) rid (ad_store s))"

definition upstreamHealth :: "admin_env \<Rightarrow> string \<Rightarrow> 'f admin \<Rightarrow> admin_resp" where
  "upstreamHealth av rid s =
     (case GetUpstream rid (ad_store s) of
        Inl err \<Rightarrow> storeErr err
      | Inr u \<Rightarrow>
          let path = (if u_HealthPath u = '''' then ''/health'' else u_HealthPath u);
              res = ae_Get av (u_URL u @ path);
              status = (case res of Inl _ \<Rightarrow> ''unhealthy'' | Inr code \<Rightarrow> if code \<ge> 400 then ''unhealthy'' else ''healthy'')
          in admin_writeJSON 200 (P_probe (u_ID u) status res (ae_latency av)))"

definition listPolicies :: "admin_env \<Rightarrow> 'f admin \<Rightarrow> admin_resp" where
  "listPolicies av s = (let ps = ListIPPolicies (env_orders (ae_store av)) (ad_store s) in admin_writeJSON 200 (P_policies ps (length ps)))"

definition createPolicy :: "admin_env \<Rightarrow> decoders \<Rightarrow> admin_req \<Rightarrow> 'f admin \<Rightarrow> admin_resp \<times> 'f admin" where
  "createPolicy av dc q s = with_body (limited (dc_Policy dc) q) s (\<lambda>body.
     answer_value 201 P_policy s (CreateIPPolicy (ae_store av) body (ad_store s)))"

definition getPolicy :: "string \<Rightarrow> 'f admin \<Rightarrow> admin_resp" where
  "getPolicy rid s = answer_read P_policy (GetIPPolicy rid (ad_store s))"

definition updatePolicy :: "admin_env \<Rightarrow> decoders \<Rightarrow> string \<Rightarrow> admin_req \<Rightarrow> 'f admin \<Rightarrow> admin_resp \<times> 'f admin" where
  "updatePolicy av dc rid q s = with_body (limited (dc_Policy dc) q) s (\<lambda>body.
     answer_value 200 P_policy s (UpdateIPPolicy (ae_store av) rid body (ad_store s)))"

definition deletePolicy :: "admin_env \<Rightarrow> string \<Rightarrow> 'f admin \<Rightarrow> admin_resp \<times> 'f admin" where
  "deletePolicy av rid s = answer_none s (DeleteIPPolicy (ae_store av) rid (ad_store s))"

definition togglePolicy :: "admin_env \<Rightarrow> decoders \<Rightarrow> string \<Rightarrow> admin_req \<Rightarrow> 'f admin \<Rightarrow> admin_resp \<times> 'f admin" where
  "togglePolicy av dc rid q s = with_body (limited (dc_Toggle dc) q) s (\<lambda>active.
     answer_value 200 P_policy s (ToggleIPPolicy (ae_store av) rid active (ad_store s)))"

section \<open>API keys\<close>

definition audit :: "admin_env \<Rightarrow> admin_req \<Rightarrow> string \<Rightarrow> string \<Rightarrow> any \<Rightarrow> 'f admin \<Rightarrow> 'f admin" where
  "audit av q action rid details s =
     s\<lparr> ad_audit := audit_Record (env_now (ae_store av))
          \<lparr> a_Time = None, a_Action = action, a_Resource = ''api_key'', a_ResourceID = rid,
            a_User = (case aq_Auth q of None \<Rightarrow> '''' | Some (u, _) \<Rightarrow> u), a_RemoteAddr = aq_Remote q, a_Details = details \<rparr> (ad_audit s) \<rparr>"

definition listKeys :: "admin_env \<Rightarrow> 'f admin \<Rightarrow> admin_resp" where
  "listKeys av s = admin_writeJSON 200 (P_keys (ListAPIKeys (env_orders (ae_store av)) (ad_store s)))"

definition getKey :: "string \<Rightarrow> 'f admin \<Rightarrow> admin_resp" where
  "getKey rid s = answer_read P_key (GetAPIKey rid (ad_store s))"

text \<open>The body of this request is read without a limit: the reader that limits it is made and not used.\<close>

definition createKey :: "admin_env \<Rightarrow> decoders \<Rightarrow> (string \<Rightarrow> string) \<Rightarrow> admin_req \<Rightarrow> 'f admin \<Rightarrow> admin_resp \<times> 'f admin" where
  "createKey av dc Sum256 q s = with_body (dc_Key dc (aq_Body q)) s (\<lambda>(name, scopes).
     if name = '''' then (errBadRequest ''name is required'', s)
     else case GenerateAPIKey Sum256 (ae_rand av) of
            None \<Rightarrow> (writeError 500 ''key_gen_error'' ''failed to generate key'', s)
          | Some (plaintext, hash) \<Rightarrow>
              (case CreateAPIKey (ae_store av) \<lparr> k_ID = '''', k_Name = name, k_KeyHash = hash, k_Active = True, k_Scopes = scopes,
                       k_CreatedAt = 0, k_UpdatedAt = 0 \<rparr> (ad_store s) of
                 (Inl err, st) \<Rightarrow> (storeErr err, s\<lparr> ad_store := st \<rparr>)
               | (Inr created, st) \<Rightarrow>
                   (admin_writeJSON 201 (P_newKey created plaintext),
                    audit av q ''create_api_key'' (k_ID created) (AnyMap [(''name'', AnyString (k_Name created))]) (s\<lparr> ad_store := st \<rparr>))))"

definition deleteKey :: "admin_env \<Rightarrow> string \<Rightarrow> admin_req \<Rightarrow> 'f admin \<Rightarrow> admin_resp \<times> 'f admin" where
  "deleteKey av rid q s =
     (let name = (case GetAPIKey rid (ad_store s) of Inl _ \<Rightarrow> '''' | Inr k \<Rightarrow> k_Name k)
      in case DeleteAPIKey (ae_store av) rid (ad_store s) of
           (Some err, st) \<Rightarrow> (storeErr err, s\<lparr> ad_store := st \<rparr>)
         | (None, st) \<Rightarrow>
             (no_content, audit av q ''delete_api_key'' rid (AnyMap [(''name'', AnyString name)]) (s\<lparr> ad_store := st \<rparr>)))"

definition toggleKey :: "admin_env \<Rightarrow> string \<Rightarrow> admin_req \<Rightarrow> 'f admin \<Rightarrow> admin_resp \<times> 'f admin" where
  "toggleKey av rid q s =
     (case GetAPIKey rid (ad_store s) of
        Inl err \<Rightarrow> (storeErr err, s)
      | Inr existing \<Rightarrow>
          (case ToggleAPIKey (ae_store av) rid (\<not> k_Active existing) (ad_store s) of
             (Inl err, st) \<Rightarrow> (storeErr err, s\<lparr> ad_store := st \<rparr>)
           | (Inr updated, st) \<Rightarrow>
               (admin_writeJSON 200 (P_key updated),
                audit av q ''toggle_api_key'' rid (AnyMap [(''active'', AnyBool (k_Active updated))]) (s\<lparr> ad_store := st \<rparr>))))"

section \<open>The server\<close>

datatype admin_op =
    A_health | A_info | A_plugins | A_export | A_metrics | A_stream | A_audit
  | A_listRoutes | A_createRoute | A_getRoute string | A_updateRoute string | A_deleteRoute string | A_toggleRoute string
  | A_listUpstreams | A_createUpstream | A_getUpstream string | A_updateUpstream string | A_deleteUpstream string | A_upstreamHealth string
  | A_listPolicies | A_createPolicy | A_getPolicy string | A_updatePolicy string | A_deletePolicy string | A_togglePolicy string
  | A_listKeys | A_createKey | A_getKey string | A_deleteKey string | A_toggleKey string

text \<open>The table of \<open>registerRoutes\<close>: what is registered under the segments of a path, per method.\<close>

definition collection_ops :: "string \<Rightarrow> (string \<times> admin_op) list" where
  "collection_ops c =
     (if c = ''info'' then [(''GET'', A_info)]
      else if c = ''plugins'' then [(''GET'', A_plugins)]
      else if c = ''metrics'' then [(''GET'', A_metrics)]
      else if c = ''audit'' then [(''GET'', A_audit)]
      else if c = ''routes'' then [(''GET'', A_listRoutes), (''POST'', A_createRoute)]
      else if c = ''upstreams'' then [(''GET'', A_listUpstreams), (''POST'', A_createUpstream)]
      else if c = ''policies'' then [(''GET'', A_listPolicies), (''POST'', A_createPolicy)]
      else if c = ''keys'' then [(''GET'', A_listKeys), (''POST'', A_createKey)]
      else [])"

definition item_ops :: "string \<Rightarrow> string \<Rightarrow> (string \<times> admin_op) list" where
  "item_ops c i =
     (if c = ''config'' \<and> i = ''export'' then [(''GET'', A_export)]
      else if c = ''metrics'' \<and> i = ''stream'' then [(''GET'', A_stream)]
      else if i = '''' then []
      else if c = ''routes'' then [(''GET'', A_getRoute i), (''PUT'', A_updateRoute i), (''DELETE'', A_deleteRoute i)]
      else if c = ''upstreams'' then [(''GET'', A_getUpstream i), (''PUT'', A_updateUpstream i), (''DELETE'', A_deleteUpstream i)]
      else if c = ''policies'' then [(''GET'', A_getPolicy i), (''PUT'', A_updatePolicy i), (''DELETE'', A_deletePolicy i)]
      else if c = ''keys'' then [(''GET'', A_getKey i), (''DELETE'', A_deleteKey i)]
      else [])"

definition action_ops :: "string \<Rightarrow> string \<Rightarrow> string \<Rightarrow> (string \<times> admin_op) list" where
  "action_ops c i a =
     (if i = '''' then []
      else if c = ''routes'' \<and> a = ''toggle'' then [(''PATCH'', A_toggleRoute i)]
      else if c = ''upstreams'' \<and> a = ''health'' then [(''GET'', A_upstreamHealth i)]
      else if c = ''policies'' \<and> a = ''toggle'' then [(''PATCH'', A_togglePolicy i)]
      else if c = ''keys'' \<and> a = ''toggle'' then [(''PATCH'', A_toggleKey i)]
      else [])"

fun registerRoutes :: "string list \<Rightarrow> (string \<times> admin_op) list" where
  "registerRoutes [a, b] = (if a = ''admin'' \<and> b = ''health'' then [(''GET'', A_health)] else [])"
| "registerRoutes [a, b, c] = (if a = ''admin'' \<and> b = ''v1'' then collection_ops c else [])"
| "registerRoutes [a, b, c, i] = (if a = ''admin'' \<and> b = ''v1'' then item_ops c i else [])"
| "registerRoutes [a, b, c, i, x] = (if a = ''admin'' \<and> b = ''v1'' then action_ops c i x else [])"
| "registerRoutes _ = []"

fun admin_handle :: "admin_env \<Rightarrow> decoders \<Rightarrow> (string \<Rightarrow> string) \<Rightarrow> tracker list \<Rightarrow> admin_op \<Rightarrow> admin_req \<Rightarrow> 'f admin \<Rightarrow> admin_resp \<times> 'f admin" where
  "admin_handle av dc Sum256 ticks A_health q s = (handleHealth, s)"
| "admin_handle av dc Sum256 ticks A_info q s = (handleInfo av, s)"
| "admin_handle av dc Sum256 ticks A_plugins q s = (handlePlugins s, s)"
| "admin_handle av dc Sum256 ticks A_export q s = (handleConfigExport av s, s)"
| "admin_handle av dc Sum256 ticks A_metrics q s = (handleMetrics av s, s)"
| "admin_handle av dc Sum256 ticks A_stream q s = (streamMetrics av True ticks s, s)"
| "admin_handle av dc Sum256 ticks A_audit q s = (handleAuditLog q s, s)"
| "admin_handle av dc Sum256 ticks A_listRoutes q s = (listRoutes av s, s)"
| "admin_handle av dc Sum256 ticks A_createRoute q s = createRoute av dc q s"
| "admin_handle av dc Sum256 ticks (A_getRoute i) q s = (getRoute i s, s)"
| "admin_handle av dc Sum256 ticks (A_updateRoute i) q s = updateRoute av dc i q s"
| "admin_handle av dc Sum256 ticks (A_deleteRoute i) q s = deleteRoute av i s"
| "admin_handle av dc Sum256 ticks (A_toggleRoute i) q s = toggleRoute av dc i q s"
| "admin_handle av dc Sum256 ticks A_listUpstreams q s = (listUpstreams av s, s)"
| "admin_handle av dc Sum256 ticks A_createUpstream q s = createUpstream av dc q s"
| "admin_handle av dc Sum256 ticks (A_getUpstream i) q s = (getUpstream i s, s)"
| "admin_handle av dc Sum256 ticks (A_updateUpstream i) q s = updateUpstream av dc i q s"
| "admin_handle av dc Sum256 ticks (A_deleteUpstream i) q s = deleteUpstream av i s"
| "admin_handle av dc Sum256 ticks (A_upstreamHealth i) q s = (upstreamHealth av i s, s)"
| "admin_handle av dc Sum256 ticks A_listPolicies q s = (listPolicies av s, s)"
| "admin_handle av dc Sum256 ticks A_createPolicy q s = createPolicy av dc q s"
| "admin_handle av dc Sum256 ticks (A_getPolicy i) q s = (getPolicy i s, s)"
| "admin_handle av dc Sum256 ticks (A_updatePolicy i) q s = updatePolicy av dc i q s"
| "admin_handle av dc Sum256 ticks (A_deletePolicy i) q s = deletePolicy av i s"
| "admin_handle av dc Sum256 ticks (A_togglePolicy i) q s = togglePolicy av dc i q s"
| "admin_handle av dc Sum256 ticks A_listKeys q s = (listKeys av s, s)"
| "admin_handle av dc Sum256 ticks A_createKey q s = createKey av dc Sum256 q s"
| "admin_handle av dc Sum256 ticks (A_getKey i) q s = (getKey i s, s)"
| "admin_handle av dc Sum256 ticks (A_deleteKey i) q s = deleteKey av i q s"
| "admin_handle av dc Sum256 ticks (A_toggleKey i) q s = toggleKey av i q s"

text \<open>
  \<open>serveUI\<close> mounts the embedded files: \<open>files\<close> is \<open>http.FileServer\<close> over them, given the method and the path
  that is left after \<open>/admin/ui/\<close>.
\<close>

definition serveUI :: "(string \<Rightarrow> string list \<Rightarrow> int \<times> (string \<times> string) list \<times> string) \<Rightarrow> admin_req \<Rightarrow> int \<times> (string \<times> string) list \<times> string" where
  "serveUI files q = files (aq_Method q) (drop 2 (aq_Segs q))"

text \<open>A pattern for GET takes HEAD too; other methods on a known path get 405, unknown paths 404.\<close>

definition admin_mux :: "admin_env \<Rightarrow> decoders \<Rightarrow> (string \<Rightarrow> string) \<Rightarrow> tracker list \<Rightarrow> (admin_req \<Rightarrow> int \<times> (string \<times> string) list \<times> string) \<Rightarrow>
    admin_req \<Rightarrow> 'f admin \<Rightarrow> admin_resp \<times> 'f admin" where
  "admin_mux av dc Sum256 ticks ui q s =
     (if take 2 (aq_Segs q) = [''admin'', ''ui''] \<and> length (aq_Segs q) > 2 then (let (code, hdr, txt) = ui q in (\<lparr> ar_Status = code, ar_Header = hdr, ar_Body = P_text txt \<rparr>, s))
      else case registerRoutes (aq_Segs q) of
             [] \<Rightarrow> (\<lparr> ar_Status = 404, ar_Header = [], ar_Body = P_text ''404 page not found'' \<rparr>, s)
           | ops \<Rightarrow>
               (case find (\<lambda>(m, _). m = aq_Method q \<or> (m = ''GET'' \<and> aq_Method q = ''HEAD'')) ops of
                  None \<Rightarrow> (\<lparr> ar_Status = 405, ar_Header = [], ar_Body = P_text ''Method Not Allowed'' \<rparr>, s)
                | Some (_, opn) \<Rightarrow> admin_handle av dc Sum256 ticks opn q s))"

definition basicAuth :: "environment \<Rightarrow> (admin_req \<Rightarrow> 's \<Rightarrow> admin_resp \<times> 's) \<Rightarrow> admin_req \<Rightarrow> 's \<Rightarrow> admin_resp \<times> 's" where
  "basicAuth E next q s =
     (let user = env E ''HELIX_ADMIN_USER'' ''admin''; pass = E ''HELIX_ADMIN_PASSWORD''
      in if pass = '''' then next q s
         else if aq_Auth q \<noteq> Some (user, pass)
         then (\<lparr> ar_Status = 401, ar_Header = [(''WWW-Authenticate'', ''Basic realm='' @ go_quote ''Helix Admin''),
                 (''Content-Type'', ''application/json'')], ar_Body = P_unauthorized \<rparr>, s)
         else next q s)"

definition admin_ServeHTTP :: "environment \<Rightarrow> admin_env \<Rightarrow> decoders \<Rightarrow> (string \<Rightarrow> string) \<Rightarrow> tracker list \<Rightarrow> (admin_req \<Rightarrow> int \<times> (string \<times> string) list \<times> string) \<Rightarrow>
    admin_req \<Rightarrow> 'f admin \<Rightarrow> admin_resp \<times> 'f admin" where
  "admin_ServeHTTP E av dc Sum256 ticks ui = basicAuth E (admin_mux av dc Sum256 ticks ui)"

end
