(* ===== verification/Admin_Correct.thy ===== *)
theory Admin_Correct
  imports Admin
begin

text \<open>
  Correctness of the admin API. The interface between the handlers and the store is the locale
  \<open>endpoint\<close>: a handler runs at most one operation of the store and its status tells how that ended. It
  is interpreted for every handler that changes the store; the properties of the whole server follow.
\<close>

section \<open>The operation a request asks for\<close>

text \<open>
  What each handler asks of the store, from the request, the random bytes and, for the toggle of a key, the store;
  \<open>None\<close> for a handler that only reads and for a request whose body is refused.
\<close>

definition asked_key :: "admin_env \<Rightarrow> decoders \<Rightarrow> (string \<Rightarrow> string) \<Rightarrow> admin_req \<Rightarrow> store_op option" where
  "asked_key av dc Sum256 q =
     (case dc_Key dc (aq_Body q) of
        None \<Rightarrow> None
      | Some (name, scopes) \<Rightarrow>
          if name = '''' then None
          else map_option (\<lambda>(_, hash). CreateAPIKeyOp \<lparr> k_ID = '''', k_Name = name, k_KeyHash = hash, k_Active = True, k_Scopes = scopes,
                 k_CreatedAt = 0, k_UpdatedAt = 0 \<rparr>) (GenerateAPIKey Sum256 (ae_rand av)))"

definition asked_toggle :: "string \<Rightarrow> store \<Rightarrow> store_op option" where
  "asked_toggle rid st = (case GetAPIKey rid st of Inl _ \<Rightarrow> None | Inr k \<Rightarrow> Some (ToggleAPIKeyOp rid (\<not> k_Active k)))"

fun asked :: "admin_env \<Rightarrow> decoders \<Rightarrow> (string \<Rightarrow> string) \<Rightarrow> admin_op \<Rightarrow> admin_req \<Rightarrow> store \<Rightarrow> store_op option" where
  "asked av dc Sum256 A_createRoute q st = map_option CreateRouteOp (limited (dc_Route dc) q)"
| "asked av dc Sum256 (A_updateRoute i) q st = map_option (UpdateRouteOp i) (limited (dc_Route dc) q)"
| "asked av dc Sum256 (A_deleteRoute i) q st = Some (DeleteRouteOp i)"
| "asked av dc Sum256 (A_toggleRoute i) q st = map_option (ToggleRouteOp i) (limited (dc_Toggle dc) q)"
| "asked av dc Sum256 A_createUpstream q st = map_option CreateUpstreamOp (limited (dc_Upstream dc) q)"
| "asked av dc Sum256 (A_updateUpstream i) q st = map_option (UpdateUpstreamOp i) (limited (dc_Upstream dc) q)"
| "asked av dc Sum256 (A_deleteUpstream i) q st = Some (DeleteUpstreamOp i)"
| "asked av dc Sum256 A_createPolicy q st = map_option CreateIPPolicyOp (limited (dc_Policy dc) q)"
| "asked av dc Sum256 (A_updatePolicy i) q st = map_option (UpdateIPPolicyOp i) (limited (dc_Policy dc) q)"
| "asked av dc Sum256 (A_deletePolicy i) q st = Some (DeleteIPPolicyOp i)"
| "asked av dc Sum256 (A_togglePolicy i) q st = map_option (ToggleIPPolicyOp i) (limited (dc_Toggle dc) q)"
| "asked av dc Sum256 A_createKey q st = asked_key av dc Sum256 q"
| "asked av dc Sum256 (A_deleteKey i) q st = Some (DeleteAPIKeyOp i)"
| "asked av dc Sum256 (A_toggleKey i) q st = asked_toggle i st"
| "asked av dc Sum256 _ q st = None"

text \<open>The whole request: nothing without the credentials, on a page of the user interface or on an unknown path.\<close>

definition admitted :: "environment \<Rightarrow> admin_req \<Rightarrow> bool" where
  "admitted E q \<longleftrightarrow> E ''HELIX_ADMIN_PASSWORD'' = '''' \<or> aq_Auth q = Some (env E ''HELIX_ADMIN_USER'' ''admin'', E ''HELIX_ADMIN_PASSWORD'')"

definition request_op :: "environment \<Rightarrow> admin_env \<Rightarrow> decoders \<Rightarrow> (string \<Rightarrow> string) \<Rightarrow> admin_req \<Rightarrow> store \<Rightarrow> store_op option" where
  "request_op E av dc Sum256 q st =
     (if \<not> admitted E q \<or> (take 2 (aq_Segs q) = [''admin'', ''ui''] \<and> length (aq_Segs q) > 2) then None
      else case find (\<lambda>(m, _). m = aq_Method q \<or> (m = ''GET'' \<and> aq_Method q = ''HEAD'')) (registerRoutes (aq_Segs q)) of
             None \<Rightarrow> None
           | Some (_, opn) \<Rightarrow> asked av dc Sum256 opn q st)"

section \<open>Endpoints\<close>

text \<open>A handler does what was asked, and its status says whether that succeeded.\<close>

definition does :: "store_env \<Rightarrow> store_op option \<Rightarrow> store \<Rightarrow> admin_resp \<Rightarrow> store \<Rightarrow> bool" where
  "does e asks st resp st' \<longleftrightarrow>
     (case asks of
        None \<Rightarrow> st' = st
      | Some opn \<Rightarrow> st' = snd (run_op e opn st) \<and> (fst (run_op e opn st) = None \<longleftrightarrow> ar_Status resp < 300))"

locale endpoint =
  fixes e :: store_env
    and asks :: "store \<Rightarrow> store_op option"
    and H :: "'f admin \<Rightarrow> admin_resp \<times> 'f admin"
  assumes runs: "does e (asks (ad_store s)) (ad_store s) (fst (H s)) (ad_store (snd (H s)))"
    and frame: "ad_reg (snd (H s)) = ad_reg s" "ad_tracker (snd (H s)) = ad_tracker s"
begin

text \<open>The store stays one that the gateway can reach.\<close>

lemma keeps_reachable:
  assumes "store_reachable (ad_store s)" and "good_env e (ad_store s)"
  shows "store_reachable (ad_store (snd (H s)))"
  using runs [of s] assms operation [of "ad_store s" e] by (auto simp: does_def split: option.splits)

end

lemma storeErr_status: "400 \<le> ar_Status (storeErr err)"
  by (cases err) (simp_all add: writeError_def admin_writeJSON_def)

lemma status_simps [simp]:
  "ar_Status (admin_writeJSON c v) = c" "ar_Status no_content = 204" "ar_Status (errBadRequest m) = 400"
  "ar_Status (writeError c k m) = c" "\<not> ar_Status (storeErr err) < 300"
  using storeErr_status [of err] by (simp_all add: admin_writeJSON_def no_content_def errBadRequest_def writeError_def)

lemma does_nothing [simp]: "does e None st resp st' \<longleftrightarrow> st' = st"
  by (simp add: does_def)

lemma does_value:
  assumes "err_of res = run_op e opn (ad_store s)" and "code < 300"
  shows "does e (Some opn) (ad_store s) (fst (answer_value code mk s res)) (ad_store (snd (answer_value code mk s res)))"
  using assms by (auto simp: does_def answer_value_def err_of_def split: sum.split dest!: sym [of "(_, _)"])

lemma does_none:
  assumes "res = run_op e opn (ad_store s)"
  shows "does e (Some opn) (ad_store s) (fst (answer_none s res)) (ad_store (snd (answer_none s res)))"
  using assms by (auto simp: does_def answer_none_def split: option.split)

lemma answer_frame [simp]:
  "ad_reg (snd (answer_value code mk s res)) = ad_reg s" "ad_tracker (snd (answer_value code mk s res)) = ad_tracker s"
  "ad_audit (snd (answer_value code mk s res)) = ad_audit s"
  "ad_reg (snd (answer_none s res')) = ad_reg s" "ad_tracker (snd (answer_none s res')) = ad_tracker s"
  "ad_audit (snd (answer_none s res')) = ad_audit s"
  by (simp_all add: answer_value_def answer_none_def)

lemma endpointI:
  assumes "\<And>s. does e (asks (ad_store s)) (ad_store s) (fst (H s)) (ad_store (snd (H s))) \<and> ad_reg (snd (H s)) = ad_reg s \<and> ad_tracker (snd (H s)) = ad_tracker s"
  shows "endpoint e asks H"
  using assms by unfold_locales auto

lemma endpoint_value:
  assumes "\<And>s body. err_of (call s body) = run_op e (opn body) (ad_store s)" and "code < 300"
  shows "endpoint e (\<lambda>_. map_option opn dec) (\<lambda>s. with_body dec s (\<lambda>body. answer_value code mk s (call s body)))"
  by (rule endpointI) (cases dec; simp add: with_body_def does_value [OF assms])

lemma endpoint_none:
  assumes "\<And>s. call s = run_op e opn (ad_store s)"
  shows "endpoint e (\<lambda>_. Some opn) (\<lambda>s. answer_none s (call s))"
  by (rule endpointI) (simp add: does_none [OF assms])

interpretation createRoute: endpoint "ae_store av" "asked av dc Sum256 A_createRoute q" "createRoute av dc q" for av dc Sum256 q
  unfolding createRoute_def [abs_def] asked.simps [abs_def] by (rule endpoint_value) simp_all

interpretation updateRoute: endpoint "ae_store av" "asked av dc Sum256 (A_updateRoute rid) q" "updateRoute av dc rid q" for av dc Sum256 rid q
  unfolding updateRoute_def [abs_def] asked.simps [abs_def] by (rule endpoint_value) simp_all

interpretation deleteRoute: endpoint "ae_store av" "asked av dc Sum256 (A_deleteRoute rid) q" "deleteRoute av rid" for av dc Sum256 rid q
  unfolding deleteRoute_def [abs_def] asked.simps [abs_def] by (rule endpoint_none) simp

interpretation toggleRoute: endpoint "ae_store av" "asked av dc Sum256 (A_toggleRoute rid) q" "toggleRoute av dc rid q" for av dc Sum256 rid q
  unfolding toggleRoute_def [abs_def] asked.simps [abs_def] by (rule endpoint_value) simp_all

interpretation createUpstream: endpoint "ae_store av" "asked av dc Sum256 A_createUpstream q" "createUpstream av dc q" for av dc Sum256 q
  unfolding createUpstream_def [abs_def] asked.simps [abs_def] by (rule endpoint_value) simp_all

interpretation updateUpstream: endpoint "ae_store av" "asked av dc Sum256 (A_updateUpstream rid) q" "updateUpstream av dc rid q" for av dc Sum256 rid q
  unfolding updateUpstream_def [abs_def] asked.simps [abs_def] by (rule endpoint_value) simp_all

interpretation deleteUpstream: endpoint "ae_store av" "asked av dc Sum256 (A_deleteUpstream rid) q" "deleteUpstream av rid" for av dc Sum256 rid q
  unfolding deleteUpstream_def [abs_def] asked.simps [abs_def] by (rule endpoint_none) simp

interpretation createPolicy: endpoint "ae_store av" "asked av dc Sum256 A_createPolicy q" "createPolicy av dc q" for av dc Sum256 q
  unfolding createPolicy_def [abs_def] asked.simps [abs_def] by (rule endpoint_value) simp_all

interpretation updatePolicy: endpoint "ae_store av" "asked av dc Sum256 (A_updatePolicy rid) q" "updatePolicy av dc rid q" for av dc Sum256 rid q
  unfolding updatePolicy_def [abs_def] asked.simps [abs_def] by (rule endpoint_value) simp_all

interpretation deletePolicy: endpoint "ae_store av" "asked av dc Sum256 (A_deletePolicy rid) q" "deletePolicy av rid" for av dc Sum256 rid q
  unfolding deletePolicy_def [abs_def] asked.simps [abs_def] by (rule endpoint_none) simp

interpretation togglePolicy: endpoint "ae_store av" "asked av dc Sum256 (A_togglePolicy rid) q" "togglePolicy av dc rid q" for av dc Sum256 rid q
  unfolding togglePolicy_def [abs_def] asked.simps [abs_def] by (rule endpoint_value) simp_all

text \<open>The handlers of the keys also write the audit log.\<close>

lemma audit_fields [simp]:
  "ad_store (audit av q a i d s) = ad_store s" "ad_reg (audit av q a i d s) = ad_reg s" "ad_tracker (audit av q a i d s) = ad_tracker s"
  by (simp_all add: audit_def)

interpretation createKey: endpoint "ae_store av" "asked av dc Sum256 A_createKey q" "createKey av dc Sum256 q" for av dc Sum256 q
  by (rule endpointI)
    (auto simp: createKey_def with_body_def asked_key_def does_def err_of_def split: option.split prod.split sum.split)

interpretation deleteKey: endpoint "ae_store av" "asked av dc Sum256 (A_deleteKey rid) q" "deleteKey av rid q" for av dc Sum256 rid q
  by (rule endpointI) (auto simp: deleteKey_def Let_def does_def split: option.split prod.split)

interpretation toggleKey: endpoint "ae_store av" "asked av dc Sum256 (A_toggleKey rid) q" "toggleKey av rid q" for av dc Sum256 rid q
  by (rule endpointI) (auto simp: toggleKey_def asked_toggle_def does_def err_of_def split: option.split prod.split sum.split)

lemmas endpoint_facts = createRoute.runs updateRoute.runs deleteRoute.runs toggleRoute.runs createUpstream.runs updateUpstream.runs
  deleteUpstream.runs createPolicy.runs updatePolicy.runs deletePolicy.runs togglePolicy.runs createKey.runs deleteKey.runs toggleKey.runs

lemma admin_handle_does:
  "does (ae_store av) (asked av dc Sum256 opn q (ad_store s)) (ad_store s) (fst (admin_handle av dc Sum256 ticks opn q s))
     (ad_store (snd (admin_handle av dc Sum256 ticks opn q s)))"
  by (cases opn) (simp_all add: endpoint_facts [unfolded asked.simps])

lemma admin_handle_frame:
  "ad_reg (snd (admin_handle av dc Sum256 ticks opn q s)) = ad_reg s" "ad_tracker (snd (admin_handle av dc Sum256 ticks opn q s)) = ad_tracker s"
  by (cases opn; simp add: createRoute.frame updateRoute.frame deleteRoute.frame toggleRoute.frame createUpstream.frame updateUpstream.frame
      deleteUpstream.frame createPolicy.frame updatePolicy.frame deletePolicy.frame togglePolicy.frame createKey.frame deleteKey.frame toggleKey.frame)+

text \<open>What the server does with a request: refuse it, or hand it to a registered handler of its method.\<close>

lemma admin_ServeHTTP_cases:
  obtains (local) resp where "admin_ServeHTTP E av dc Sum256 ticks ui q s = (resp, s)" "\<And>k p. ar_Body resp \<noteq> P_newKey k p"
  | (handled) m opn where "admin_ServeHTTP E av dc Sum256 ticks ui q s = admin_handle av dc Sum256 ticks opn q s"
      "(m, opn) \<in> set (registerRoutes (aq_Segs q))" "m = aq_Method q \<or> m = ''GET'' \<and> aq_Method q = ''HEAD''"
      "E ''HELIX_ADMIN_PASSWORD'' = '''' \<or> aq_Auth q = Some (env E ''HELIX_ADMIN_USER'' ''admin'', E ''HELIX_ADMIN_PASSWORD'')"
proof (cases "E ''HELIX_ADMIN_PASSWORD'' = '''' \<or> aq_Auth q = Some (env E ''HELIX_ADMIN_USER'' ''admin'', E ''HELIX_ADMIN_PASSWORD'')")
  case False
  then have "admin_ServeHTTP E av dc Sum256 ticks ui q s =
      (\<lparr> ar_Status = 401, ar_Header = [(''WWW-Authenticate'', ''Basic realm='' @ go_quote ''Helix Admin''),
                 (''Content-Type'', ''application/json'')], ar_Body = P_unauthorized \<rparr>, s)"
    by (simp add: admin_ServeHTTP_def basicAuth_def Let_def)
  then show ?thesis by (rule local) simp
next
  case True
  then have eq: "admin_ServeHTTP E av dc Sum256 ticks ui q s = admin_mux av dc Sum256 ticks ui q s"
    by (auto simp: admin_ServeHTTP_def basicAuth_def Let_def)
  let ?f = "find (\<lambda>(m, _). m = aq_Method q \<or> m = ''GET'' \<and> aq_Method q = ''HEAD'') (registerRoutes (aq_Segs q))"
  show ?thesis
  proof (cases "(take 2 (aq_Segs q) = [''admin'', ''ui''] \<and> length (aq_Segs q) > 2) \<or> registerRoutes (aq_Segs q) = [] \<or> ?f = None")
    case True
    then have "snd (admin_mux av dc Sum256 ticks ui q s) = s \<and> (\<forall>k p. ar_Body (fst (admin_mux av dc Sum256 ticks ui q s)) \<noteq> P_newKey k p)"
      by (cases "registerRoutes (aq_Segs q)") (auto simp: admin_mux_def simp del: find.simps split: prod.split)
    with eq show ?thesis by (intro local [of "fst (admin_mux av dc Sum256 ticks ui q s)"]) (auto simp: prod_eq_iff)
  next
    case False
    then obtain m opn where f: "?f = Some (m, opn)" by force
    then have "(m, opn) \<in> set (registerRoutes (aq_Segs q))" "m = aq_Method q \<or> m = ''GET'' \<and> aq_Method q = ''HEAD''"
      by (auto simp: find_Some_iff dest!: nth_mem)
    moreover have "admin_mux av dc Sum256 ticks ui q s = admin_handle av dc Sum256 ticks opn q s"
      using False f by (cases "registerRoutes (aq_Segs q)") (auto simp: admin_mux_def simp del: find.simps)
    ultimately show ?thesis using eq True by (intro handled) auto
  qed
qed

lemma admin_ServeHTTP_frame:
  "ad_reg (snd (admin_ServeHTTP E av dc Sum256 ticks ui q s)) = ad_reg s" "ad_tracker (snd (admin_ServeHTTP E av dc Sum256 ticks ui q s)) = ad_tracker s"
  by (cases rule: admin_ServeHTTP_cases [of E av dc Sum256 ticks ui q s]; simp add: admin_handle_frame)+

lemma admin_ServeHTTP_found:
  assumes "admitted E q" and "\<not> (take 2 (aq_Segs q) = [''admin'', ''ui''] \<and> length (aq_Segs q) > 2)"
    and "find (\<lambda>(m, _). m = aq_Method q \<or> (m = ''GET'' \<and> aq_Method q = ''HEAD'')) (registerRoutes (aq_Segs q)) = Some (m, opn)"
  shows "admin_ServeHTTP E av dc Sum256 ticks ui q s = admin_handle av dc Sum256 ticks opn q s"
proof -
  obtain a as where ops: "registerRoutes (aq_Segs q) = a # as" using assms(3) by (cases "registerRoutes (aq_Segs q)") auto
  show ?thesis
    using assms ops by (auto simp: admin_ServeHTTP_def basicAuth_def admin_mux_def admitted_def Let_def simp del: find.simps)
qed

text \<open>The pages of the user interface need the credentials as well, and only read.\<close>

lemma ui_page:
  assumes "aq_Segs q = ''admin'' # ''ui'' # p # ps"
  shows "admin_ServeHTTP E av dc Sum256 ticks (serveUI files) q s =
    (if admitted E q
     then let (code, hdr, txt) = files (aq_Method q) (p # ps) in (\<lparr> ar_Status = code, ar_Header = hdr, ar_Body = P_text txt \<rparr>, s)
     else (\<lparr> ar_Status = 401, ar_Header = [(''WWW-Authenticate'', ''Basic realm='' @ go_quote ''Helix Admin''),
             (''Content-Type'', ''application/json'')], ar_Body = P_unauthorized \<rparr>, s))"
  by (auto simp: admin_ServeHTTP_def basicAuth_def admin_mux_def admitted_def serveUI_def assms Let_def)

lemma admin_ServeHTTP_kept:
  assumes "request_op E av dc Sum256 q (ad_store s) = None"
  shows "ad_store (snd (admin_ServeHTTP E av dc Sum256 ticks ui q s)) = ad_store s"
proof (cases "\<not> admitted E q \<or> (take 2 (aq_Segs q) = [''admin'', ''ui''] \<and> length (aq_Segs q) > 2)")
  case True
  then show ?thesis by (auto simp: admin_ServeHTTP_def basicAuth_def admin_mux_def admitted_def Let_def split: prod.split)
next
  case False
  let ?f = "find (\<lambda>(m, _). m = aq_Method q \<or> (m = ''GET'' \<and> aq_Method q = ''HEAD'')) (registerRoutes (aq_Segs q))"
  show ?thesis
  proof (cases ?f)
    case None
    with False show ?thesis
      by (cases "registerRoutes (aq_Segs q)") (auto simp: admin_ServeHTTP_def basicAuth_def admin_mux_def admitted_def Let_def simp del: find.simps)
  next
    case (Some p)
    then obtain m opn where f: "?f = Some (m, opn)" by (cases p) simp
    with False assms have "asked av dc Sum256 opn q (ad_store s) = None" by (auto simp: request_op_def)
    with admin_handle_does [of av dc Sum256 opn q s ticks] have "ad_store (snd (admin_handle av dc Sum256 ticks opn q s)) = ad_store s" by simp
    moreover have "admin_ServeHTTP E av dc Sum256 ticks ui q s = admin_handle av dc Sum256 ticks opn q s"
      using False by (intro admin_ServeHTTP_found [OF _ _ f]) auto
    ultimately show ?thesis by simp
  qed
qed

lemma admin_ServeHTTP_does:
  "does (ae_store av) (request_op E av dc Sum256 q (ad_store s)) (ad_store s) (fst (admin_ServeHTTP E av dc Sum256 ticks ui q s))
     (ad_store (snd (admin_ServeHTTP E av dc Sum256 ticks ui q s)))"
proof (cases "request_op E av dc Sum256 q (ad_store s)")
  case None
  with admin_ServeHTTP_kept [OF None] show ?thesis by simp
next
  case (Some opn)
  then obtain m h where "admitted E q" "\<not> (take 2 (aq_Segs q) = [''admin'', ''ui''] \<and> length (aq_Segs q) > 2)"
    "find (\<lambda>(m, _). m = aq_Method q \<or> (m = ''GET'' \<and> aq_Method q = ''HEAD'')) (registerRoutes (aq_Segs q)) = Some (m, h)"
    "asked av dc Sum256 h q (ad_store s) = Some opn"
    by (auto simp: request_op_def split: if_splits option.splits)
  with admin_handle_does [of av dc Sum256 h q s ticks] Some show ?thesis by (simp add: admin_ServeHTTP_found)
qed


section \<open>Reading and credentials\<close>

fun changes :: "admin_op \<Rightarrow> bool" where
  "changes (A_updateRoute i) = True" | "changes (A_deleteRoute i) = True" | "changes (A_toggleRoute i) = True"
| "changes (A_updateUpstream i) = True" | "changes (A_deleteUpstream i) = True"
| "changes (A_updatePolicy i) = True" | "changes (A_deletePolicy i) = True" | "changes (A_togglePolicy i) = True"
| "changes (A_deleteKey i) = True" | "changes (A_toggleKey i) = True"
| "changes opn = (opn \<in> {A_createRoute, A_createUpstream, A_createPolicy, A_createKey})"

lemma reads_keep: "\<not> changes opn \<Longrightarrow> snd (admin_handle av dc Sum256 ticks opn q s) = s"
  by (cases opn) simp_all

text \<open>No pattern is registered for HEAD, and those for GET only read.\<close>

lemma registered_not_head:
  "(m, opn) \<in> set (collection_ops c) \<Longrightarrow> m \<noteq> ''HEAD''"
  "(m, opn) \<in> set (item_ops c i) \<Longrightarrow> m \<noteq> ''HEAD''"
  "(m, opn) \<in> set (action_ops c i a) \<Longrightarrow> m \<noteq> ''HEAD''"
  by (auto simp: collection_ops_def item_ops_def action_ops_def split: if_splits)

lemma collection_get_reads: "(m, opn) \<in> set (collection_ops c) \<Longrightarrow> m = ''GET'' \<Longrightarrow> \<not> changes opn"
  by (auto simp: collection_ops_def split: if_splits)

lemma item_get_reads: "(m, opn) \<in> set (item_ops c i) \<Longrightarrow> m = ''GET'' \<Longrightarrow> \<not> changes opn"
  by (auto simp: item_ops_def split: if_splits)

lemma action_get_reads: "(m, opn) \<in> set (action_ops c i a) \<Longrightarrow> m = ''GET'' \<Longrightarrow> \<not> changes opn"
  by (auto simp: action_ops_def split: if_splits)

lemma registered_cases:
  assumes "(m, opn) \<in> set (registerRoutes segs)"
  shows "(m, opn) = (''GET'', A_health) \<or> (\<exists>c. (m, opn) \<in> set (collection_ops c)) \<or>
    (\<exists>c i. (m, opn) \<in> set (item_ops c i)) \<or> (\<exists>c i a. (m, opn) \<in> set (action_ops c i a))"
  using assms by (cases segs rule: registerRoutes.cases) (auto split: if_split_asm)

lemma registered_get:
  assumes "(m, opn) \<in> set (registerRoutes segs)"
  shows "m \<noteq> ''HEAD''" and "m = ''GET'' \<Longrightarrow> \<not> changes opn"
  using registered_cases [OF assms] by (auto dest: registered_not_head collection_get_reads item_get_reads action_get_reads)

text \<open>
  C28. Only an authenticated write changes anything: with a password configured, a request that does not
  carry exactly the configured user and password, and in any case a GET or HEAD request, leaves the store,
  the audit log, the tracker and the registry as they were.
\<close>
theorem admin_writes_need_credentials:
  assumes "E ''HELIX_ADMIN_PASSWORD'' \<noteq> '''' \<and> aq_Auth q \<noteq> Some (env E ''HELIX_ADMIN_USER'' ''admin'', E ''HELIX_ADMIN_PASSWORD'') \<or>
    aq_Method q = ''GET'' \<or> aq_Method q = ''HEAD''"
  shows "snd (admin_ServeHTTP E av dc Sum256 ticks ui q s) = s"
proof (cases rule: admin_ServeHTTP_cases [of E av dc Sum256 ticks ui q s])
  case (local resp)
  then show ?thesis by simp
next
  case (handled m opn)
  have "m = ''GET''" using handled(3,4) assms registered_get(1) [OF handled(2)] by auto
  with registered_get(2) [OF handled(2)] handled(1) reads_keep show ?thesis by metis
qed

section \<open>Audit trail\<close>

definition same_tables :: "store \<Rightarrow> store \<Rightarrow> bool" where
  "same_tables s t \<longleftrightarrow> st_routes t = st_routes s \<and> st_upstreams t = st_upstreams s \<and> st_policies t = st_policies s"

text \<open>What a request adds to the audit log: nothing, or one entry about a key.\<close>

definition audit_step :: "int \<Rightarrow> 'f admin \<Rightarrow> admin_resp \<Rightarrow> 'f admin \<Rightarrow> bool" where
  "audit_step now s resp s' \<longleftrightarrow> ad_audit s' = ad_audit s \<or>
     (\<exists>en. ad_audit s' = audit_Record now en (ad_audit s) \<and> a_Resource en = ''api_key'' \<and> ar_Status resp < 300 \<and>
       same_tables (ad_store s) (ad_store s'))"

lemma key_ops_tables:
  "CreateAPIKey e k st = (r, st') \<Longrightarrow> same_tables st st'"
  "DeleteAPIKey e rid st = (err, st') \<Longrightarrow> same_tables st st'"
  "ToggleAPIKey e rid b st = (r, st') \<Longrightarrow> same_tables st st'"
  by (auto simp: same_tables_def CreateAPIKey_def DeleteAPIKey_def ToggleAPIKey_def persist_eq Let_def split: if_splits option.splits)

lemma audit_step_same: "ad_audit s' = ad_audit s \<Longrightarrow> audit_step now s resp s'"
  by (simp add: audit_step_def)

lemma audit_step_one:
  assumes "same_tables (ad_store s) st" and "ar_Status resp < 300"
  shows "audit_step (env_now (ae_store av)) s resp (audit av q a i d (s\<lparr> ad_store := st \<rparr>))"
  using assms unfolding audit_step_def audit_def by (intro disjI2) (auto intro!: exI)

lemma admin_handle_audit:
  "audit_step (env_now (ae_store av)) s (fst (admin_handle av dc Sum256 ticks opn q s)) (snd (admin_handle av dc Sum256 ticks opn q s))"
proof -
  have wb: "ad_audit (snd (with_body dec s (\<lambda>b. answer_value c mk s (f b)))) = ad_audit s" for dec c mk f and s :: "'a admin"
    by (simp add: with_body_def split: option.split)
  have "audit_step (env_now (ae_store av)) s (fst (createKey av dc Sum256 q s)) (snd (createKey av dc Sum256 q s))"
    "audit_step (env_now (ae_store av)) s (fst (deleteKey av rid q s)) (snd (deleteKey av rid q s))"
    "audit_step (env_now (ae_store av)) s (fst (toggleKey av rid q s)) (snd (toggleKey av rid q s))" for rid
    by (auto simp: createKey_def deleteKey_def toggleKey_def with_body_def Let_def audit_step_same intro!: audit_step_one
        dest: key_ops_tables split: option.split prod.split sum.split)
  then show ?thesis
    by (cases opn)
      (simp_all add: audit_step_same wb createRoute_def updateRoute_def toggleRoute_def deleteRoute_def createUpstream_def
        updateUpstream_def deleteUpstream_def createPolicy_def updatePolicy_def togglePolicy_def deletePolicy_def)
qed

text \<open>
  The audit log knows only keys: a request adds nothing to it, or it succeeded and adds one entry, about
  an API key, and then changed no route, upstream or policy. So no change of these tables is ever recorded.
\<close>
theorem audit_records_only_keys:
  "audit_step (env_now (ae_store av)) s (fst (admin_ServeHTTP E av dc Sum256 ticks ui q s)) (snd (admin_ServeHTTP E av dc Sum256 ticks ui q s))"
  by (cases rule: admin_ServeHTTP_cases [of E av dc Sum256 ticks ui q s]) (simp_all add: audit_step_same admin_handle_audit)

section \<open>From the API to a valid key\<close>

lemma storeErr_body: "ar_Body (storeErr err) \<noteq> P_newKey k p"
  by (cases err) (simp_all add: writeError_def admin_writeJSON_def)

lemma newKey_origin:
  assumes "ar_Body (fst (admin_handle av dc Sum256 ticks opn q s)) = P_newKey k p"
  shows "\<exists>key. CreateAPIKey (ae_store av) key (ad_store s) = (Inr k, ad_store (snd (admin_handle av dc Sum256 ticks opn q s))) \<and>
    k_KeyHash key = hashKey Sum256 p \<and> k_Active key"
proof -
  have wb: "ar_Body (fst (with_body dec s (\<lambda>b. answer_value c mk s (f b)))) = P_newKey k p \<Longrightarrow> \<exists>v. mk v = P_newKey k p" for dec c mk f and s :: "'a admin"
    by (auto simp: with_body_def answer_value_def errBadRequest_def writeError_def admin_writeJSON_def storeErr_body
        split: option.splits sum.splits)
  have no: "ar_Body (fst (answer_none s res)) \<noteq> P_newKey k p" for res and s :: "'a admin"
    by (simp add: answer_none_def no_content_def storeErr_body split: option.split)
  have rd: "ar_Body (answer_read mk res) = P_newKey k p \<Longrightarrow> \<exists>v. mk v = P_newKey k p" for mk res
    by (auto simp: answer_read_def admin_writeJSON_def storeErr_body split: sum.splits)
  note defs = createRoute_def updateRoute_def toggleRoute_def deleteRoute_def createUpstream_def updateUpstream_def deleteUpstream_def
    createPolicy_def updatePolicy_def togglePolicy_def deletePolicy_def getRoute_def getUpstream_def getPolicy_def getKey_def
    handleHealth_def handleInfo_def handlePlugins_def handleConfigExport_def handleMetrics_def streamMetrics_def handleAuditLog_def
    listRoutes_def listUpstreams_def listPolicies_def listKeys_def upstreamHealth_def Let_def admin_writeJSON_def no
  have "opn = A_createKey"
    using assms
    by (cases opn)
      (auto simp: defs deleteKey_def toggleKey_def no_content_def storeErr_body dest!: wb rd split: sum.splits option.splits prod.splits)
  with assms show ?thesis
    by (auto simp: createKey_def with_body_def errBadRequest_def writeError_def admin_writeJSON_def storeErr_body GenerateAPIKey_def
        hashKey_def Let_def intro!: exI split: option.splits prod.splits if_splits sum.splits)
qed

text \<open>
  C29. A key that the API hands out works: whenever a response carries a new key with its plaintext, the
  store behind the API accepts that plaintext at once, as that key, and neither shows its hash.
\<close>
theorem issued_key_validates:
  assumes "admin_ServeHTTP E av dc Sum256 ticks ui q s = (resp, s')" and "ar_Body resp = P_newKey k p"
  shows "ValidateAPIKey Sum256 p (ad_store s') = Some k \<and> k_KeyHash k = ''''"
proof (cases rule: admin_ServeHTTP_cases [of E av dc Sum256 ticks ui q s])
  case (handled m opn)
  with assms obtain key where key: "CreateAPIKey (ae_store av) key (ad_store s) = (Inr k, ad_store s')" "k_KeyHash key = hashKey Sum256 p" "k_Active key"
    using newKey_origin [of av dc Sum256 ticks opn q s k p] by auto
  note c = CreateAPIKey_ok [OF key(1)]
  from c(3) obtain f where "ad_store s' = (key_added (stamped (ae_store av) key) (k_KeyHash key) k (ad_store s))\<lparr> st_fs := f \<rparr>" by blast
  with key(2,3) c(1) show ?thesis by (simp add: ValidateAPIKey_def)
next
  case (local r)
  with assms show ?thesis by (metis fst_conv)
qed


section \<open>The properties at work\<close>

text \<open>An admin server on the sample store, and a request to create a key.\<close>

definition sample_admin :: "unit admin" where
  "sample_admin = \<lparr> ad_store = sample_store, ad_reg = [], ad_tracker = [], ad_audit = audit_New 0 \<rparr>"

definition sample_admin_env :: admin_env where
  "sample_admin_env = \<lparr> ae_store = sample_env ''k1'' IO_ok, ae_rand = Some ''a'', ae_Get = (\<lambda>_. Inr 200), ae_latency = 1, ae_uptime = ''1s'',
     ae_runtime = (''go1'', ''linux'', ''amd64''), ae_counters = (\<lambda>m. m), ae_sorter = (\<lambda>rs. rs) \<rparr>"

definition sample_decoders :: decoders where
  "sample_decoders = \<lparr> dc_Route = \<lambda>_. None, dc_Upstream = \<lambda>_. None, dc_Policy = \<lambda>_. None, dc_Toggle = \<lambda>_. None, dc_Key = \<lambda>b. Some (b, []) \<rparr>"

definition post_key :: admin_req where
  "post_key = \<lparr> aq_Method = ''POST'', aq_Segs = [''admin'', ''v1'', ''keys''], aq_Auth = None, aq_Remote = ''10.0.0.1:9'', aq_Limit = '''', aq_Body = ''ci'' \<rparr>"

theorem admin_writes_need_credentials_witness:
  "snd (admin_ServeHTTP (\<lambda>k. if k = ''HELIX_ADMIN_PASSWORD'' then ''pw'' else '''') sample_admin_env sample_decoders (\<lambda>x. x) [] (\<lambda>_. (200, [], '''')) post_key sample_admin) = sample_admin"
  by (rule admin_writes_need_credentials) (simp add: post_key_def)

theorem issued_key_validates_witness:
  "\<exists>k s'. admin_ServeHTTP (\<lambda>_. '''') sample_admin_env sample_decoders (\<lambda>x. x) [] (\<lambda>_. (200, [], '''')) post_key sample_admin =
      (admin_writeJSON 201 (P_newKey k ''YQ''), s') \<and> ValidateAPIKey (\<lambda>x. x) ''YQ'' (ad_store s') = Some k"
proof -
  have raw: "RawURLEncoding ''a'' = ''YQ''" "hex_encode ''YQ'' = ''5951''" 
    by (simp_all add: b64_digit_def b64_alphabet_def hex_encode_def hex_digit_def Let_def)
  let ?r = "admin_ServeHTTP (\<lambda>_. '''') sample_admin_env sample_decoders (\<lambda>x. x) [] (\<lambda>_. (200, [], '''')) post_key sample_admin"
  have mux: "?r = createKey sample_admin_env sample_decoders (\<lambda>x. x) post_key sample_admin"
    by (simp add: admin_ServeHTTP_def basicAuth_def admin_mux_def post_key_def collection_ops_def)
  have "\<exists>k s'. createKey sample_admin_env sample_decoders (\<lambda>x. x) post_key sample_admin = (admin_writeJSON 201 (P_newKey k ''YQ''), s')"
    by (simp add: createKey_def with_body_def sample_decoders_def post_key_def sample_admin_env_def GenerateAPIKey_def raw CreateAPIKey_def
        sample_admin_def sample_defs empty_store_def persist_def Let_def del: RawURLEncoding.simps) blast
  then obtain k s' where r: "?r = (admin_writeJSON 201 (P_newKey k ''YQ''), s')" using mux by metis
  moreover have "ar_Body (admin_writeJSON 201 (P_newKey k ''YQ'')) = P_newKey k ''YQ''" by (simp add: admin_writeJSON_def)
  ultimately show ?thesis using issued_key_validates [OF r] by blast
qed

end
