(* ===== verification/Admin_Client.thy ===== *)
theory Admin_Client
  imports Admin_Correct
begin

text \<open>
  The client of the admin API, \<open>internal/admin/client/client.go\<close>, against a server given as a function of
  the request and its state. Outside code is a parameter: encoding bodies as JSON (\<open>encoders\<close>, \<open>None\<close> when
  \<open>json.Marshal\<close> fails) and the network (\<open>link\<close>: the call works, fails before the server saw it, or
  fails after the server handled it). What the client decodes from a response is the value it carries;
  a list wrapped in an object does not decode into a slice.
  Identifiers are put into the path as they are; the model has them as one segment, which is right for the
  identifiers of the store, being UUIDs.

  Calls of the form \<open>return out, c.do(..., &out)\<close> leave it to the compiler whether \<open>out\<close> is read before or
  after the call; \<open>late\<close> says which.
\<close>

section \<open>Calls\<close>

record Client =
  cl_user :: string
  cl_pass :: string
  cl_addr :: string

record encoders =
  en_Route :: "Route \<Rightarrow> string option"
  en_Upstream :: "Upstream \<Rightarrow> string option"
  en_Policy :: "IPPolicy \<Rightarrow> string option"

datatype link = Link_up | Link_down | Link_lost

datatype client_err = MarshalFailed | HttpFailed | ApiFailed int string string | DecodeFailed

type_synonym 's server = "admin_req \<Rightarrow> 's \<Rightarrow> admin_resp \<times> 's"

definition hc_Do :: "link \<Rightarrow> 's server \<Rightarrow> admin_req \<Rightarrow> 's \<Rightarrow> admin_resp option \<times> 's" where
  "hc_Do l srv q s =
     (case l of
        Link_up \<Rightarrow> (Some (fst (srv q s)), snd (srv q s))
      | Link_down \<Rightarrow> (None, s)
      | Link_lost \<Rightarrow> (None, snd (srv q s)))"

definition client_request :: "Client \<Rightarrow> string \<Rightarrow> string list \<Rightarrow> string \<Rightarrow> admin_req" where
  "client_request c meth segs data =
     \<lparr> aq_Method = meth, aq_Segs = segs,
       aq_Auth = (if cl_user c \<noteq> '''' \<and> cl_pass c \<noteq> '''' then Some (cl_user c, cl_pass c) else None),
       aq_Remote = cl_addr c, aq_Limit = '''', aq_Body = data \<rparr>"

text \<open>The error a response carries; other bodies leave both fields empty.\<close>

fun api_error :: "payload \<Rightarrow> string \<times> string" where
  "api_error (P_error code msg) = (code, msg)"
| "api_error _ = ('''', '''')"

text \<open>\<open>body\<close> is the marshalled body, if there is one; \<open>out\<close> decodes a response and \<open>zero\<close> is the value before.\<close>

definition client_do :: "Client \<Rightarrow> link \<Rightarrow> 's server \<Rightarrow> string \<Rightarrow> string list \<Rightarrow> string option option \<Rightarrow> (payload \<Rightarrow> 'v option) \<Rightarrow> 'v \<Rightarrow>
    's \<Rightarrow> (client_err + 'v) \<times> 's" where
  "client_do c l srv meth segs body out zero s =
     (case body of
        Some None \<Rightarrow> (Inl MarshalFailed, s)
      | _ \<Rightarrow>
          let data = (case body of Some (Some d) \<Rightarrow> d | _ \<Rightarrow> '''');
              (res, s1) = hc_Do l srv (client_request c meth segs data) s
          in (case res of
                None \<Rightarrow> Inl HttpFailed
              | Some resp \<Rightarrow>
                  if ar_Status resp = 204 then Inr zero
                  else if ar_Status resp \<ge> 400
                  then Inl (ApiFailed (ar_Status resp) (fst (api_error (ar_Body resp))) (snd (api_error (ar_Body resp))))
                  else (case out (ar_Body resp) of None \<Rightarrow> Inl DecodeFailed | Some v \<Rightarrow> Inr v), s1))"

definition v1 :: "string list \<Rightarrow> string list" where
  "v1 segs = ''admin'' # ''v1'' # segs"

text \<open>Decoding into a struct, into a map, into a slice, and into nothing.\<close>

fun as_route :: "payload \<Rightarrow> Route option" where
  "as_route (P_route r) = Some r" | "as_route _ = None"

fun as_upstream :: "payload \<Rightarrow> Upstream option" where
  "as_upstream (P_upstream u) = Some u" | "as_upstream _ = None"

fun as_policy :: "payload \<Rightarrow> IPPolicy option" where
  "as_policy (P_policy p) = Some p" | "as_policy _ = None"

fun as_metrics :: "payload \<Rightarrow> Snapshot option" where
  "as_metrics (P_metrics m) = Some m" | "as_metrics _ = None"

fun is_object :: "payload \<Rightarrow> bool" where
  "is_object P_none = False" | "is_object (P_text _) = False" | "is_object (P_keys _) = False" | "is_object (P_events _) = False" | "is_object _ = True"

definition as_map :: "payload \<Rightarrow> payload option" where
  "as_map v = (if is_object v then Some v else None)"

text \<open>The only response that is a bare array is the list of keys.\<close>

fun as_slice :: "payload \<Rightarrow> APIKey list option" where
  "as_slice (P_keys ks) = Some ks" | "as_slice _ = None"

definition as_nothing :: "payload \<Rightarrow> unit option" where
  "as_nothing v = Some ()"

definition zero_route :: Route where
  "zero_route = \<lparr> r_ID = '''', r_Name = '''', r_Active = False,
     r_Match = \<lparr> m_Hosts = [], m_Path = '''', m_PathMode = '''', m_Methods = [], m_Headers = [] \<rparr>, r_UpstreamID = '''', r_Plugins = [],
     r_StripPath = False, r_WeightedUpstreams = [], r_CreatedAt = 0, r_UpdatedAt = 0 \<rparr>"

definition zero_upstream :: Upstream where
  "zero_upstream = \<lparr> u_ID = '''', u_Name = '''', u_URL = '''', u_Protocol = '''', u_Endpoints = [], u_LBAlgorithm = '''', u_HealthPath = '''',
     u_CreatedAt = 0, u_UpdatedAt = 0 \<rparr>"

definition zero_policy :: IPPolicy where
  "zero_policy = \<lparr> ip_ID = '''', ip_Name = '''', ip_Mode = '''', ip_CIDRs = [], ip_Active = False, ip_CreatedAt = 0, ip_UpdatedAt = 0 \<rparr>"

text \<open>The value of a variable that may have been read too early.\<close>

definition read_out :: "bool \<Rightarrow> 'v \<Rightarrow> (client_err + 'v) \<times> 's \<Rightarrow> (client_err + 'v) \<times> 's" where
  "read_out late zero res = ((case fst res of Inl e \<Rightarrow> Inl e | Inr v \<Rightarrow> Inr (if late then v else zero)), snd res)"

definition client_ListRoutes :: "Client \<Rightarrow> link \<Rightarrow> bool \<Rightarrow> 's server \<Rightarrow> 's \<Rightarrow> (client_err + APIKey list) \<times> 's" where
  "client_ListRoutes c l late srv s = read_out late [] (client_do c l srv ''GET'' (v1 [''routes'']) None as_slice [] s)"

definition client_GetRoute :: "Client \<Rightarrow> link \<Rightarrow> 's server \<Rightarrow> string \<Rightarrow> 's \<Rightarrow> (client_err + Route) \<times> 's" where
  "client_GetRoute c l srv rid = client_do c l srv ''GET'' (v1 [''routes'', rid]) None as_route zero_route"

definition client_CreateRoute :: "Client \<Rightarrow> encoders \<Rightarrow> link \<Rightarrow> 's server \<Rightarrow> Route \<Rightarrow> 's \<Rightarrow> (client_err + Route) \<times> 's" where
  "client_CreateRoute c en l srv r = client_do c l srv ''POST'' (v1 [''routes'']) (Some (en_Route en r)) as_route zero_route"

definition client_UpdateRoute :: "Client \<Rightarrow> encoders \<Rightarrow> link \<Rightarrow> 's server \<Rightarrow> string \<Rightarrow> Route \<Rightarrow> 's \<Rightarrow> (client_err + Route) \<times> 's" where
  "client_UpdateRoute c en l srv rid r = client_do c l srv ''PUT'' (v1 [''routes'', rid]) (Some (en_Route en r)) as_route zero_route"

definition client_DeleteRoute :: "Client \<Rightarrow> link \<Rightarrow> 's server \<Rightarrow> string \<Rightarrow> 's \<Rightarrow> (client_err + unit) \<times> 's" where
  "client_DeleteRoute c l srv rid = client_do c l srv ''DELETE'' (v1 [''routes'', rid]) None as_nothing ()"

definition client_ToggleRoute :: "Client \<Rightarrow> link \<Rightarrow> 's server \<Rightarrow> string \<Rightarrow> 's \<Rightarrow> (client_err + Route) \<times> 's" where
  "client_ToggleRoute c l srv rid = client_do c l srv ''PATCH'' (v1 [''routes'', rid, ''toggle'']) None as_route zero_route"

definition client_ListUpstreams :: "Client \<Rightarrow> link \<Rightarrow> bool \<Rightarrow> 's server \<Rightarrow> 's \<Rightarrow> (client_err + APIKey list) \<times> 's" where
  "client_ListUpstreams c l late srv s = read_out late [] (client_do c l srv ''GET'' (v1 [''upstreams'']) None as_slice [] s)"

definition client_GetUpstream :: "Client \<Rightarrow> link \<Rightarrow> 's server \<Rightarrow> string \<Rightarrow> 's \<Rightarrow> (client_err + Upstream) \<times> 's" where
  "client_GetUpstream c l srv rid = client_do c l srv ''GET'' (v1 [''upstreams'', rid]) None as_upstream zero_upstream"

definition client_CreateUpstream :: "Client \<Rightarrow> encoders \<Rightarrow> link \<Rightarrow> 's server \<Rightarrow> Upstream \<Rightarrow> 's \<Rightarrow> (client_err + Upstream) \<times> 's" where
  "client_CreateUpstream c en l srv u = client_do c l srv ''POST'' (v1 [''upstreams'']) (Some (en_Upstream en u)) as_upstream zero_upstream"

definition client_UpdateUpstream :: "Client \<Rightarrow> encoders \<Rightarrow> link \<Rightarrow> 's server \<Rightarrow> string \<Rightarrow> Upstream \<Rightarrow> 's \<Rightarrow> (client_err + Upstream) \<times> 's" where
  "client_UpdateUpstream c en l srv rid u = client_do c l srv ''PUT'' (v1 [''upstreams'', rid]) (Some (en_Upstream en u)) as_upstream zero_upstream"

definition client_DeleteUpstream :: "Client \<Rightarrow> link \<Rightarrow> 's server \<Rightarrow> string \<Rightarrow> 's \<Rightarrow> (client_err + unit) \<times> 's" where
  "client_DeleteUpstream c l srv rid = client_do c l srv ''DELETE'' (v1 [''upstreams'', rid]) None as_nothing ()"

definition client_HealthUpstream :: "Client \<Rightarrow> link \<Rightarrow> bool \<Rightarrow> 's server \<Rightarrow> string \<Rightarrow> 's \<Rightarrow> (client_err + payload) \<times> 's" where
  "client_HealthUpstream c l late srv rid s =
     read_out late P_none (client_do c l srv ''GET'' (v1 [''upstreams'', rid, ''health'']) None as_map P_none s)"

definition client_ListIPPolicies :: "Client \<Rightarrow> link \<Rightarrow> bool \<Rightarrow> 's server \<Rightarrow> 's \<Rightarrow> (client_err + APIKey list) \<times> 's" where
  "client_ListIPPolicies c l late srv s = read_out late [] (client_do c l srv ''GET'' (v1 [''policies'']) None as_slice [] s)"

definition client_GetIPPolicy :: "Client \<Rightarrow> link \<Rightarrow> 's server \<Rightarrow> string \<Rightarrow> 's \<Rightarrow> (client_err + IPPolicy) \<times> 's" where
  "client_GetIPPolicy c l srv rid = client_do c l srv ''GET'' (v1 [''policies'', rid]) None as_policy zero_policy"

definition client_CreateIPPolicy :: "Client \<Rightarrow> encoders \<Rightarrow> link \<Rightarrow> 's server \<Rightarrow> IPPolicy \<Rightarrow> 's \<Rightarrow> (client_err + IPPolicy) \<times> 's" where
  "client_CreateIPPolicy c en l srv p = client_do c l srv ''POST'' (v1 [''policies'']) (Some (en_Policy en p)) as_policy zero_policy"

definition client_UpdateIPPolicy :: "Client \<Rightarrow> encoders \<Rightarrow> link \<Rightarrow> 's server \<Rightarrow> string \<Rightarrow> IPPolicy \<Rightarrow> 's \<Rightarrow> (client_err + IPPolicy) \<times> 's" where
  "client_UpdateIPPolicy c en l srv rid p = client_do c l srv ''PUT'' (v1 [''policies'', rid]) (Some (en_Policy en p)) as_policy zero_policy"

definition client_DeleteIPPolicy :: "Client \<Rightarrow> link \<Rightarrow> 's server \<Rightarrow> string \<Rightarrow> 's \<Rightarrow> (client_err + unit) \<times> 's" where
  "client_DeleteIPPolicy c l srv rid = client_do c l srv ''DELETE'' (v1 [''policies'', rid]) None as_nothing ()"

definition client_ToggleIPPolicy :: "Client \<Rightarrow> link \<Rightarrow> 's server \<Rightarrow> string \<Rightarrow> 's \<Rightarrow> (client_err + IPPolicy) \<times> 's" where
  "client_ToggleIPPolicy c l srv rid = client_do c l srv ''PATCH'' (v1 [''policies'', rid, ''toggle'']) None as_policy zero_policy"

definition client_ListAPIKeys :: "Client \<Rightarrow> link \<Rightarrow> bool \<Rightarrow> 's server \<Rightarrow> 's \<Rightarrow> (client_err + APIKey list) \<times> 's" where
  "client_ListAPIKeys c l late srv s = read_out late [] (client_do c l srv ''GET'' (v1 [''keys'']) None as_slice [] s)"

definition client_GetAPIKey :: "Client \<Rightarrow> link \<Rightarrow> bool \<Rightarrow> 's server \<Rightarrow> string \<Rightarrow> 's \<Rightarrow> (client_err + payload) \<times> 's" where
  "client_GetAPIKey c l late srv rid s = read_out late P_none (client_do c l srv ''GET'' (v1 [''keys'', rid]) None as_map P_none s)"

definition client_DeleteAPIKey :: "Client \<Rightarrow> link \<Rightarrow> 's server \<Rightarrow> string \<Rightarrow> 's \<Rightarrow> (client_err + unit) \<times> 's" where
  "client_DeleteAPIKey c l srv rid = client_do c l srv ''DELETE'' (v1 [''keys'', rid]) None as_nothing ()"

definition client_ToggleAPIKey :: "Client \<Rightarrow> link \<Rightarrow> bool \<Rightarrow> 's server \<Rightarrow> string \<Rightarrow> 's \<Rightarrow> (client_err + payload) \<times> 's" where
  "client_ToggleAPIKey c l late srv rid s =
     read_out late P_none (client_do c l srv ''PATCH'' (v1 [''keys'', rid, ''toggle'']) None as_map P_none s)"

definition client_GetMetrics :: "Client \<Rightarrow> link \<Rightarrow> 's server \<Rightarrow> 's \<Rightarrow> (client_err + Snapshot) \<times> 's" where
  "client_GetMetrics c l srv = client_do c l srv ''GET'' (v1 [''metrics'']) None as_metrics \<lparr> ss_Routes = [], ss_TotalReqs = 0, ss_TotalErrs = 0 \<rparr>"

section \<open>The client and the server together\<close>

text \<open>A client whose credentials the server takes.\<close>

definition trusted :: "environment \<Rightarrow> Client \<Rightarrow> bool" where
  "trusted E c \<longleftrightarrow> E ''HELIX_ADMIN_PASSWORD'' = '''' \<or>
     (cl_user c = env E ''HELIX_ADMIN_USER'' ''admin'' \<and> cl_pass c = E ''HELIX_ADMIN_PASSWORD'' \<and> cl_user c \<noteq> '''')"

lemma server_mux:
  assumes "trusted E c" and "registerRoutes segs = ops" and "segs \<noteq> []" and "segs ! 1 \<noteq> ''ui''"
    and "find (\<lambda>(m, _). m = meth \<or> (m = ''GET'' \<and> meth = ''HEAD'')) ops = Some (m', opn)"
  shows "admin_ServeHTTP E av dc Sum256 ticks ui (client_request c meth segs data) s =
    admin_handle av dc Sum256 ticks opn (client_request c meth segs data) s"
proof -
  have "take 2 segs \<noteq> [''admin'', ''ui'']" using assms(4) by (cases segs; cases "tl segs") auto
  moreover obtain a as where "ops = a # as" using assms(5) by (cases ops) auto
  ultimately show ?thesis
    using assms by (auto simp: admin_ServeHTTP_def basicAuth_def trusted_def Let_def client_request_def admin_mux_def simp del: find.simps)
qed

text \<open>How the client sees an error of the store.\<close>

definition api_failure :: "store_err \<Rightarrow> client_err" where
  "api_failure err = ApiFailed (ar_Status (storeErr err)) (fst (api_error (ar_Body (storeErr err)))) (snd (api_error (ar_Body (storeErr err))))"

lemma client_do_up:
  "client_do c Link_up srv meth segs (Some (Some d)) out zero s =
     (let (resp, s1) = srv (client_request c meth segs d) s
      in (if ar_Status resp = 204 then Inr zero
          else if ar_Status resp \<ge> 400 then Inl (ApiFailed (ar_Status resp) (fst (api_error (ar_Body resp))) (snd (api_error (ar_Body resp))))
          else (case out (ar_Body resp) of None \<Rightarrow> Inl DecodeFailed | Some v \<Rightarrow> Inr v), s1))"
  "client_do c Link_up srv meth segs None out zero s =
     (let (resp, s1) = srv (client_request c meth segs '''') s
      in (if ar_Status resp = 204 then Inr zero
          else if ar_Status resp \<ge> 400 then Inl (ApiFailed (ar_Status resp) (fst (api_error (ar_Body resp))) (snd (api_error (ar_Body resp))))
          else (case out (ar_Body resp) of None \<Rightarrow> Inl DecodeFailed | Some v \<Rightarrow> Inr v), s1))"
  by (simp_all add: client_do_def hc_Do_def split: prod.split)

lemma client_of_value:
  assumes "srv (client_request c meth segs d) s = answer_value code mk s res" and "code = 200 \<or> code = 201" and "\<And>v. out (mk v) = Some v"
  shows "client_do c Link_up srv meth segs (Some (Some d)) out zero s =
    ((case fst res of Inl err \<Rightarrow> Inl (api_failure err) | Inr v \<Rightarrow> Inr v), s\<lparr> ad_store := snd res \<rparr>)"
  using assms(2,3) storeErr_status
  by (auto simp: client_do_up assms(1) answer_value_def api_failure_def admin_writeJSON_def Let_def split: sum.split)

lemma client_of_none:
  assumes "srv (client_request c meth segs '''') s = answer_none s res"
  shows "client_do c Link_up srv meth segs None as_nothing () s =
    ((case fst res of Some err \<Rightarrow> Inl (api_failure err) | None \<Rightarrow> Inr ()), s\<lparr> ad_store := snd res \<rparr>)"
proof -
  have "ar_Status (storeErr err) \<noteq> 204" "400 \<le> ar_Status (storeErr err)" for err using storeErr_status [of err] by auto
  then show ?thesis by (simp add: client_do_up assms answer_none_def api_failure_def no_content_def Let_def split: option.split)
qed

lemma segs_v1 [simp]: "v1 segs \<noteq> []" "v1 segs ! Suc 0 = ''v1''"
  by (simp_all add: v1_def)

lemma registered_v1 [simp]:
  "registerRoutes (v1 [c]) = collection_ops c" "registerRoutes (v1 [c, i]) = item_ops c i" "registerRoutes (v1 [c, i, a]) = action_ops c i a"
  by (simp_all add: v1_def)

lemma request_body [simp]: "aq_Body (client_request c meth segs d) = d"
  by (simp add: client_request_def)

lemma with_body_some: "dec = Some b \<Longrightarrow> with_body dec s k = k b"
  by (simp add: with_body_def)

lemma limited_ok: "length (aq_Body q) \<le> max_body \<Longrightarrow> limited dec q = dec (aq_Body q)"
  by (simp add: limited_def)

text \<open>The calls the operator makes, as operations of the store behind the server.\<close>

lemma client_create_upstream:
  assumes "trusted E c" and "en_Upstream en u = Some d" and "length d \<le> max_body" and "dc_Upstream dc d = Some u"
  shows "client_CreateUpstream c en Link_up (admin_ServeHTTP E av dc Sum256 ticks ui) u s =
    (let res = CreateUpstream (ae_store av) u (ad_store s)
     in ((case fst res of Inl err \<Rightarrow> Inl (api_failure err) | Inr v \<Rightarrow> Inr v), s\<lparr> ad_store := snd res \<rparr>))"
  unfolding client_CreateUpstream_def assms(2) Let_def
  by (rule client_of_value [where mk = P_upstream and code = 201],
      subst server_mux [OF assms(1) refl, where opn = A_createUpstream and m' = "''POST''"])
    (simp_all add: collection_ops_def createUpstream_def limited_ok assms(3,4) with_body_some)

lemma client_update_upstream:
  assumes "trusted E c" and "en_Upstream en u = Some d" and "length d \<le> max_body" and "dc_Upstream dc d = Some u" and "rid \<noteq> ''''"
  shows "client_UpdateUpstream c en Link_up (admin_ServeHTTP E av dc Sum256 ticks ui) rid u s =
    (let res = UpdateUpstream (ae_store av) rid u (ad_store s)
     in ((case fst res of Inl err \<Rightarrow> Inl (api_failure err) | Inr v \<Rightarrow> Inr v), s\<lparr> ad_store := snd res \<rparr>))"
  unfolding client_UpdateUpstream_def assms(2) Let_def
  by (rule client_of_value [where mk = P_upstream and code = 200],
      subst server_mux [OF assms(1) refl, where opn = "A_updateUpstream rid" and m' = "''PUT''"])
    (simp_all add: item_ops_def updateUpstream_def limited_ok assms(3,4,5) with_body_some)

lemma client_delete_upstream:
  assumes "trusted E c" and "rid \<noteq> ''''"
  shows "client_DeleteUpstream c Link_up (admin_ServeHTTP E av dc Sum256 ticks ui) rid s =
    (let res = DeleteUpstream (ae_store av) rid (ad_store s)
     in ((case fst res of Some err \<Rightarrow> Inl (api_failure err) | None \<Rightarrow> Inr ()), s\<lparr> ad_store := snd res \<rparr>))"
  unfolding client_DeleteUpstream_def Let_def
  by (rule client_of_none, subst server_mux [OF assms(1) refl, where opn = "A_deleteUpstream rid" and m' = "''DELETE''"])
    (simp_all add: item_ops_def deleteUpstream_def assms(2))

lemma client_create_route:
  assumes "trusted E c" and "en_Route en u = Some d" and "length d \<le> max_body" and "dc_Route dc d = Some u"
  shows "client_CreateRoute c en Link_up (admin_ServeHTTP E av dc Sum256 ticks ui) u s =
    (let res = CreateRoute (ae_store av) u (ad_store s)
     in ((case fst res of Inl err \<Rightarrow> Inl (api_failure err) | Inr v \<Rightarrow> Inr v), s\<lparr> ad_store := snd res \<rparr>))"
  unfolding client_CreateRoute_def assms(2) Let_def
  by (rule client_of_value [where mk = P_route and code = 201],
      subst server_mux [OF assms(1) refl, where opn = A_createRoute and m' = "''POST''"])
    (simp_all add: collection_ops_def createRoute_def limited_ok assms(3,4) with_body_some)

lemma client_update_route:
  assumes "trusted E c" and "en_Route en u = Some d" and "length d \<le> max_body" and "dc_Route dc d = Some u" and "rid \<noteq> ''''"
  shows "client_UpdateRoute c en Link_up (admin_ServeHTTP E av dc Sum256 ticks ui) rid u s =
    (let res = UpdateRoute (ae_store av) rid u (ad_store s)
     in ((case fst res of Inl err \<Rightarrow> Inl (api_failure err) | Inr v \<Rightarrow> Inr v), s\<lparr> ad_store := snd res \<rparr>))"
  unfolding client_UpdateRoute_def assms(2) Let_def
  by (rule client_of_value [where mk = P_route and code = 200],
      subst server_mux [OF assms(1) refl, where opn = "A_updateRoute rid" and m' = "''PUT''"])
    (simp_all add: item_ops_def updateRoute_def limited_ok assms(3,4,5) with_body_some)

lemma client_delete_route:
  assumes "trusted E c" and "rid \<noteq> ''''"
  shows "client_DeleteRoute c Link_up (admin_ServeHTTP E av dc Sum256 ticks ui) rid s =
    (let res = DeleteRoute (ae_store av) rid (ad_store s)
     in ((case fst res of Some err \<Rightarrow> Inl (api_failure err) | None \<Rightarrow> Inr ()), s\<lparr> ad_store := snd res \<rparr>))"
  unfolding client_DeleteRoute_def Let_def
  by (rule client_of_none, subst server_mux [OF assms(1) refl, where opn = "A_deleteRoute rid" and m' = "''DELETE''"])
    (simp_all add: item_ops_def deleteRoute_def assms(2))

lemma client_create_policy:
  assumes "trusted E c" and "en_Policy en u = Some d" and "length d \<le> max_body" and "dc_Policy dc d = Some u"
  shows "client_CreateIPPolicy c en Link_up (admin_ServeHTTP E av dc Sum256 ticks ui) u s =
    (let res = CreateIPPolicy (ae_store av) u (ad_store s)
     in ((case fst res of Inl err \<Rightarrow> Inl (api_failure err) | Inr v \<Rightarrow> Inr v), s\<lparr> ad_store := snd res \<rparr>))"
  unfolding client_CreateIPPolicy_def assms(2) Let_def
  by (rule client_of_value [where mk = P_policy and code = 201],
      subst server_mux [OF assms(1) refl, where opn = A_createPolicy and m' = "''POST''"])
    (simp_all add: collection_ops_def createPolicy_def limited_ok assms(3,4) with_body_some)

lemma client_update_policy:
  assumes "trusted E c" and "en_Policy en u = Some d" and "length d \<le> max_body" and "dc_Policy dc d = Some u" and "rid \<noteq> ''''"
  shows "client_UpdateIPPolicy c en Link_up (admin_ServeHTTP E av dc Sum256 ticks ui) rid u s =
    (let res = UpdateIPPolicy (ae_store av) rid u (ad_store s)
     in ((case fst res of Inl err \<Rightarrow> Inl (api_failure err) | Inr v \<Rightarrow> Inr v), s\<lparr> ad_store := snd res \<rparr>))"
  unfolding client_UpdateIPPolicy_def assms(2) Let_def
  by (rule client_of_value [where mk = P_policy and code = 200],
      subst server_mux [OF assms(1) refl, where opn = "A_updatePolicy rid" and m' = "''PUT''"])
    (simp_all add: item_ops_def updatePolicy_def limited_ok assms(3,4,5) with_body_some)

lemma client_delete_policy:
  assumes "trusted E c" and "rid \<noteq> ''''"
  shows "client_DeleteIPPolicy c Link_up (admin_ServeHTTP E av dc Sum256 ticks ui) rid s =
    (let res = DeleteIPPolicy (ae_store av) rid (ad_store s)
     in ((case fst res of Some err \<Rightarrow> Inl (api_failure err) | None \<Rightarrow> Inr ()), s\<lparr> ad_store := snd res \<rparr>))"
  unfolding client_DeleteIPPolicy_def Let_def
  by (rule client_of_none, subst server_mux [OF assms(1) refl, where opn = "A_deletePolicy rid" and m' = "''DELETE''"])
    (simp_all add: item_ops_def deletePolicy_def assms(2))

section \<open>Calls that cannot work\<close>

lemma client_do_fails:
  assumes "\<And>resp s1. srv (client_request c meth segs '''') s = (resp, s1) \<Longrightarrow> ar_Status resp \<noteq> 204 \<and> (ar_Status resp < 400 \<longrightarrow> out (ar_Body resp) = None)"
  shows "\<exists>err. fst (client_do c l srv meth segs None out zero s) = Inl err"
proof (cases l)
  case Link_up
  obtain resp s1 where r: "srv (client_request c meth segs '''') s = (resp, s1)" by force
  with assms [OF r] Link_up show ?thesis by (simp add: client_do_up Let_def)
qed (simp_all add: client_do_def hc_Do_def)

text \<open>Every answer of the server to a request for a list of routes, upstreams or policies.\<close>

lemma list_answers:
  assumes "admin_ServeHTTP E av dc Sum256 ticks ui (client_request c ''GET'' (v1 [coll]) '''') s = (resp, s1)"
    and "coll \<in> {''routes'', ''upstreams'', ''policies''}"
  shows "ar_Status resp \<noteq> 204 \<and> (ar_Status resp < 400 \<longrightarrow> as_slice (ar_Body resp) = None)"
  using assms
  by (auto simp: admin_ServeHTTP_def basicAuth_def admin_mux_def v1_def client_request_def collection_ops_def listRoutes_def listUpstreams_def
      listPolicies_def admin_writeJSON_def Let_def split: if_splits)

lemma toggle_answers:
  assumes "admin_ServeHTTP E av dc Sum256 ticks ui (client_request c ''PATCH'' (v1 [coll, rid, ''toggle'']) '''') s = (resp, s1)"
    and "coll \<in> {''routes'', ''policies''}" and "dc_Toggle dc '''' = None"
  shows "400 \<le> ar_Status resp"
  using assms
  by (auto simp: admin_ServeHTTP_def basicAuth_def admin_mux_def v1_def client_request_def action_ops_def toggleRoute_def togglePolicy_def
      limited_def with_body_def Let_def split: if_splits)

text \<open>
  Five calls of the client never succeed against the gateway's own server, whatever the network, the
  credentials and the state: the lists of routes, upstreams and policies, whose answer is an object where
  the client expects an array, and the toggles of routes and policies, which the client sends without the
  body that the server requires.
\<close>
theorem client_calls_never_succeed:
  assumes "dc_Toggle dc '''' = None" and "srv = admin_ServeHTTP E av dc Sum256 ticks ui"
  shows "(\<exists>e. fst (client_ListRoutes c l late srv s) = Inl e) \<and> (\<exists>e. fst (client_ListUpstreams c l late srv s) = Inl e) \<and>
    (\<exists>e. fst (client_ListIPPolicies c l late srv s) = Inl e) \<and>
    (\<exists>e. fst (client_ToggleRoute c l srv rid s) = Inl e) \<and> (\<exists>e. fst (client_ToggleIPPolicy c l srv rid s) = Inl e)"
proof -
  have lists: "\<exists>err. fst (client_do c l srv ''GET'' (v1 [coll]) None as_slice zero s) = Inl err"
    if "coll \<in> {''routes'', ''upstreams'', ''policies''}" for coll zero
    by (rule client_do_fails) (use list_answers that assms(2) in blast)
  have toggles: "\<exists>err. fst (client_do c l srv ''PATCH'' (v1 [coll, rid, ''toggle'']) None out zero s) = Inl err"
    if "coll \<in> {''routes'', ''policies''}" for coll zero and out :: "payload \<Rightarrow> 'v option"
    by (rule client_do_fails) (use toggle_answers [of E av dc Sum256 ticks ui c coll rid s] that assms in fastforce)
  have r: "\<exists>e. fst (read_out late z res) = Inl e" if "\<exists>e. fst res = Inl e" for z :: 'w and res :: "(client_err + 'w) \<times> 'a admin"
    using that by (auto simp: read_out_def)
  show ?thesis
    unfolding client_ListRoutes_def client_ListUpstreams_def client_ListIPPolicies_def client_ToggleRoute_def client_ToggleIPPolicy_def
    by (intro conjI r lists toggles) simp_all
qed

theorem client_calls_never_succeed_witness:
  "\<exists>e. fst (client_ListRoutes \<lparr> cl_user = '''', cl_pass = '''', cl_addr = '''' \<rparr> Link_up True
     (admin_ServeHTTP (\<lambda>_. '''') sample_admin_env sample_decoders (\<lambda>x. x) [] (\<lambda>_. (200, [], ''''))) sample_admin) = Inl e"
proof -
  have "dc_Toggle sample_decoders '''' = None" by (simp add: sample_decoders_def)
  from client_calls_never_succeed [OF this refl] show ?thesis by blast
qed

end
