(* ===== verification/Operator.thy ===== *)
theory Operator
  imports Admin_Client
begin

text \<open>
  The Kubernetes operator: the custom resources of \<open>internal/operator/types/types.go\<close> and the three
  reconcilers of \<open>internal/operator/controller\<close>, which mirror a resource into the configuration store
  through the client of the admin API.

  Outside code is a parameter. \<open>kube_client\<close> is the client of controller-runtime for one kind of resource:
  reading an object from the state \<open>'k\<close> of the cluster, and the two writes, which return the object as
  the server stored it. \<open>kube_util\<close> holds the helper functions of \<open>controllerutil\<close>, \<open>apimeta\<close> and \<open>client\<close>
  and the texts of their errors. A write of the object and a write of its status are separate requests, and
  either can fail. \<open>ctrl.Result\<close> is always empty, so a reconciliation returns its error, if any; the run time
  calls it again after an error.
\<close>

section \<open>Custom resources\<close>

text \<open>The metadata fields that the operator reads; \<open>om_ResourceVersion\<close> stands for the ones the server keeps.\<close>

record ObjectMeta =
  om_Name :: string
  om_Namespace :: string
  om_Generation :: int
  om_DeletionTimestamp :: "int option"
  om_Finalizers :: "string list"
  om_ResourceVersion :: string

text \<open>The time of the last transition is left to \<open>SetStatusCondition\<close>.\<close>

record Condition =
  cd_Type :: string
  cd_Status :: string
  cd_Reason :: string
  cd_Message :: string
  cd_ObservedGeneration :: int

record CRMatchRule =
  cm_Hosts :: "string list"
  cm_Path :: string
  cm_PathMode :: string
  cm_Methods :: "string list"
  cm_Headers :: "(string, string) gomap"

record CRPluginRef =
  cp_Name :: string
  cp_Config :: "(string, any) gomap"

record GatewayRouteSpec =
  rs_Active :: bool
  rs_Match :: CRMatchRule
  rs_UpstreamRef :: string
  rs_Plugins :: "CRPluginRef list"
  rs_StripPath :: bool

record GatewayRouteStatus =
  rt_RouteID :: string
  rt_Conditions :: "Condition list"

record GatewayRoute =
  gr_Meta :: ObjectMeta
  gr_Spec :: GatewayRouteSpec
  gr_Status :: GatewayRouteStatus

record GatewayUpstreamSpec =
  us_URL :: string
  us_HealthPath :: string

record GatewayUpstreamStatus =
  ut_UpstreamID :: string
  ut_Health :: string
  ut_Conditions :: "Condition list"

record GatewayUpstream =
  gu_Meta :: ObjectMeta
  gu_Spec :: GatewayUpstreamSpec
  gu_Status :: GatewayUpstreamStatus

record HelixIPPolicySpec =
  ps_Mode :: string
  ps_CIDRs :: "string list"
  ps_Active :: bool

record HelixIPPolicyStatus =
  pt_PolicyID :: string
  pt_Conditions :: "Condition list"

record HelixIPPolicy =
  hp_Meta :: ObjectMeta
  hp_Spec :: HelixIPPolicySpec
  hp_Status :: HelixIPPolicyStatus

section \<open>The run time around a reconciler\<close>

datatype kube_err = Kube_NotFound | Kube_Failed string

datatype reconcile_err = KubeError kube_err | AdminError client_err | SyncError string

record ('cr, 'k) kube_client =
  kc_Get :: "string \<Rightarrow> string \<Rightarrow> 'k \<Rightarrow> kube_err + 'cr"
  kc_Update :: "'cr \<Rightarrow> 'k \<Rightarrow> kube_err option \<times> 'cr \<times> 'k"
  kc_StatusUpdate :: "'cr \<Rightarrow> 'k \<Rightarrow> kube_err option \<times> 'cr \<times> 'k"

record kube_util =
  ku_ContainsFinalizer :: "string list \<Rightarrow> string \<Rightarrow> bool"
  ku_AddFinalizer :: "string list \<Rightarrow> string \<Rightarrow> string list"
  ku_RemoveFinalizer :: "string list \<Rightarrow> string \<Rightarrow> string list"
  ku_SetStatusCondition :: "Condition list \<Rightarrow> Condition \<Rightarrow> Condition list"
  ku_IgnoreNotFound :: "kube_err \<Rightarrow> kube_err option"
  ku_Error :: "kube_err \<Rightarrow> string"
  ku_cause :: "client_err \<Rightarrow> string"

text \<open>\<open>r.Admin\<close>: the client of the admin API, the network and the server behind it.\<close>

record 's admin_link =
  al_Client :: Client
  al_enc :: encoders
  al_link :: link
  al_server :: "'s server"

text \<open>The text of a client error; \<open>cause\<close> is the text of the library error that it wraps.\<close>

definition path_text :: "string list \<Rightarrow> string" where
  "path_text segs = concat (map (\<lambda>s. CHR ''/'' # s) segs)"

definition em_dash :: string where
  "em_dash = [CHR 0xE2, CHR 0x80, CHR 0x94]"

fun client_err_text :: "string \<Rightarrow> string \<Rightarrow> string list \<Rightarrow> client_err \<Rightarrow> string" where
  "client_err_text cause meth segs MarshalFailed = ''marshal request: '' @ cause"
| "client_err_text cause meth segs HttpFailed = ''http '' @ meth @ '' '' @ path_text segs @ '': '' @ cause"
| "client_err_text cause meth segs (ApiFailed _ code msg) =
     ''admin api '' @ meth @ '' '' @ path_text segs @ '': '' @ code @ '' '' @ em_dash @ '' '' @ msg"
| "client_err_text cause meth segs DecodeFailed = ''decode response: '' @ cause"

definition condition :: "ObjectMeta \<Rightarrow> string \<Rightarrow> string \<Rightarrow> string \<Rightarrow> string \<Rightarrow> Condition" where
  "condition m condType status reason msg =
     \<lparr> cd_Type = condType, cd_Status = status, cd_Reason = reason, cd_Message = msg, cd_ObservedGeneration = om_Generation m \<rparr>"

section \<open>Routes\<close>

definition routeFinalizer :: string where
  "routeFinalizer = ''helix.io/route''"

definition route_setCondition :: "kube_util \<Rightarrow> (GatewayRoute, 'k) kube_client \<Rightarrow> GatewayRoute \<Rightarrow> string \<Rightarrow> string \<Rightarrow> string \<Rightarrow> string \<Rightarrow>
    'k \<Rightarrow> reconcile_err option \<times> 'k" where
  "route_setCondition ku kc cr condType status reason msg k =
     (let st = gr_Status cr;
          cr1 = cr\<lparr> gr_Status := st\<lparr> rt_Conditions := ku_SetStatusCondition ku (rt_Conditions st) (condition (gr_Meta cr) condType status reason msg) \<rparr> \<rparr>;
          (err, _, k1) = kc_StatusUpdate kc cr1 k
      in (case err of
            Some e \<Rightarrow> Some (KubeError e)
          | None \<Rightarrow> if status = ''False'' then Some (SyncError msg) else None, k1))"

definition resolveUpstreamID :: "kube_util \<Rightarrow> (GatewayUpstream, 'k) kube_client \<Rightarrow> GatewayRoute \<Rightarrow> 'k \<Rightarrow> string + string" where
  "resolveUpstreamID ku kcu cr k =
     (let ref = rs_UpstreamRef (gr_Spec cr)
      in case kc_Get kcu (om_Namespace (gr_Meta cr)) ref k of
           Inl e \<Rightarrow> Inl (''upstream '' @ go_quote ref @ '' not found: '' @ ku_Error ku e)
         | Inr u \<Rightarrow>
             if ut_UpstreamID (gu_Status u) = ''''
             then Inl (''upstream '' @ go_quote ref @ '' not yet synced '' @ em_dash @ '' waiting for status.upstreamId'')
             else Inr (ut_UpstreamID (gu_Status u)))"

definition desired_route :: "GatewayRoute \<Rightarrow> string \<Rightarrow> Route" where
  "desired_route cr upstreamID =
     (let spec = gr_Spec cr; m = rs_Match spec
      in zero_route\<lparr> r_Name := om_Name (gr_Meta cr), r_Active := rs_Active spec, r_UpstreamID := upstreamID, r_StripPath := rs_StripPath spec,
           r_Match := \<lparr> m_Hosts = cm_Hosts m, m_Path = cm_Path m,
                        m_PathMode = (if cm_PathMode m = '''' then PathModePrefix else cm_PathMode m),
                        m_Methods = cm_Methods m, m_Headers = cm_Headers m \<rparr>,
           r_Plugins := map (\<lambda>p. \<lparr> p_Name = cp_Name p, p_Config = cp_Config p \<rparr>) (rs_Plugins spec) \<rparr>)"

definition route_handleUpsert :: "kube_util \<Rightarrow> (GatewayRoute, 'k) kube_client \<Rightarrow> (GatewayUpstream, 'k) kube_client \<Rightarrow> 's admin_link \<Rightarrow>
    GatewayRoute \<Rightarrow> 'k \<times> 's \<Rightarrow> reconcile_err option \<times> 'k \<times> 's" where
  "route_handleUpsert ku kc kcu al cr ks =
     (let (k, s) = ks
      in case resolveUpstreamID ku kcu cr k of
           Inl msg \<Rightarrow> (let (e, k1) = route_setCondition ku kc cr ''Ready'' ''False'' ''UpstreamNotReady'' msg k in (e, k1, s))
         | Inr upstreamID \<Rightarrow>
             let route = desired_route cr upstreamID; rid = rt_RouteID (gr_Status cr);
                 (call, res, s1) =
                   (if rid = ''''
                    then ((''POST'', v1 [''routes'']), client_CreateRoute (al_Client al) (al_enc al) (al_link al) (al_server al) route s)
                    else ((''PUT'', v1 [''routes'', rid]),
                          client_UpdateRoute (al_Client al) (al_enc al) (al_link al) (al_server al) rid (route\<lparr> r_ID := rid \<rparr>) s))
             in (case res of
                   Inl err \<Rightarrow>
                     (let (e, k1) = route_setCondition ku kc cr ''Ready'' ''False'' ''SyncFailed''
                            (client_err_text (ku_cause ku err) (fst call) (snd call) err) k
                      in (e, k1, s1))
                 | Inr result \<Rightarrow>
                     (let cr1 = cr\<lparr> gr_Status := (gr_Status cr)\<lparr> rt_RouteID := r_ID result \<rparr> \<rparr>;
                          (e, k1) = route_setCondition ku kc cr1 ''Ready'' ''True'' ''Synced'' (''route '' @ r_ID result @ '' synced'') k
                      in (e, k1, s1))))"

definition route_handleDelete :: "kube_util \<Rightarrow> (GatewayRoute, 'k) kube_client \<Rightarrow> 's admin_link \<Rightarrow> GatewayRoute \<Rightarrow> 'k \<times> 's \<Rightarrow>
    reconcile_err option \<times> 'k \<times> 's" where
  "route_handleDelete ku kc al cr ks =
     (let (k, s) = ks; m = gr_Meta cr; rid = rt_RouteID (gr_Status cr)
      in if \<not> ku_ContainsFinalizer ku (om_Finalizers m) routeFinalizer then (None, k, s)
         else
           let (res, s1) = (if rid \<noteq> '''' then client_DeleteRoute (al_Client al) (al_link al) (al_server al) rid s else (Inr (), s))
           in case res of
                Inl err \<Rightarrow> (Some (AdminError err), k, s1)
              | Inr _ \<Rightarrow>
                  let (e, _, k1) = kc_Update kc (cr\<lparr> gr_Meta := m\<lparr> om_Finalizers := ku_RemoveFinalizer ku (om_Finalizers m) routeFinalizer \<rparr> \<rparr>) k
                  in (map_option KubeError e, k1, s1))"

definition route_Reconcile :: "kube_util \<Rightarrow> (GatewayRoute, 'k) kube_client \<Rightarrow> (GatewayUpstream, 'k) kube_client \<Rightarrow> 's admin_link \<Rightarrow>
    string \<Rightarrow> string \<Rightarrow> 'k \<times> 's \<Rightarrow> reconcile_err option \<times> 'k \<times> 's" where
  "route_Reconcile ku kc kcu al ns nm ks =
     (let (k, s) = ks
      in case kc_Get kc ns nm k of
           Inl err \<Rightarrow> (map_option KubeError (ku_IgnoreNotFound ku err), k, s)
         | Inr cr \<Rightarrow>
             let m = gr_Meta cr
             in if om_DeletionTimestamp m \<noteq> None then route_handleDelete ku kc al cr (k, s)
                else if \<not> ku_ContainsFinalizer ku (om_Finalizers m) routeFinalizer
                then (let (e, cr1, k1) = kc_Update kc (cr\<lparr> gr_Meta := m\<lparr> om_Finalizers := ku_AddFinalizer ku (om_Finalizers m) routeFinalizer \<rparr> \<rparr>) k
                      in case e of
                           Some err \<Rightarrow> (Some (KubeError err), k1, s)
                         | None \<Rightarrow> route_handleUpsert ku kc kcu al cr1 (k1, s))
                else route_handleUpsert ku kc kcu al cr (k, s))"

section \<open>Upstreams\<close>

definition upstreamFinalizer :: string where
  "upstreamFinalizer = ''helix.io/upstream''"

definition upstream_setCondition :: "kube_util \<Rightarrow> (GatewayUpstream, 'k) kube_client \<Rightarrow> GatewayUpstream \<Rightarrow> string \<Rightarrow> string \<Rightarrow> string \<Rightarrow> string \<Rightarrow>
    'k \<Rightarrow> reconcile_err option \<times> 'k" where
  "upstream_setCondition ku kc cr condType status reason msg k =
     (let st = gu_Status cr;
          cr1 = cr\<lparr> gu_Status := st\<lparr> ut_Conditions := ku_SetStatusCondition ku (ut_Conditions st) (condition (gu_Meta cr) condType status reason msg) \<rparr> \<rparr>;
          (err, _, k1) = kc_StatusUpdate kc cr1 k
      in (case err of
            Some e \<Rightarrow> Some (KubeError e)
          | None \<Rightarrow> if status = ''False'' then Some (SyncError msg) else None, k1))"

definition desired_upstream :: "GatewayUpstream \<Rightarrow> Upstream" where
  "desired_upstream cr = zero_upstream\<lparr> u_Name := om_Name (gu_Meta cr), u_URL := us_URL (gu_Spec cr), u_HealthPath := us_HealthPath (gu_Spec cr) \<rparr>"

definition upstream_handleUpsert :: "kube_util \<Rightarrow> (GatewayUpstream, 'k) kube_client \<Rightarrow> 's admin_link \<Rightarrow> GatewayUpstream \<Rightarrow> 'k \<times> 's \<Rightarrow>
    reconcile_err option \<times> 'k \<times> 's" where
  "upstream_handleUpsert ku kc al cr ks =
     (let (k, s) = ks; v = desired_upstream cr; rid = ut_UpstreamID (gu_Status cr);
          (call, res, s1) =
            (if rid = ''''
             then ((''POST'', v1 [''upstreams'']), client_CreateUpstream (al_Client al) (al_enc al) (al_link al) (al_server al) v s)
             else ((''PUT'', v1 [''upstreams'', rid]),
                   client_UpdateUpstream (al_Client al) (al_enc al) (al_link al) (al_server al) rid (v\<lparr> u_ID := rid \<rparr>) s))
      in (case res of
            Inl err \<Rightarrow>
              (let (e, k1) = upstream_setCondition ku kc cr ''Ready'' ''False'' ''SyncFailed''
                     (client_err_text (ku_cause ku err) (fst call) (snd call) err) k
               in (e, k1, s1))
          | Inr result \<Rightarrow>
              (let cr1 = cr\<lparr> gu_Status := (gu_Status cr)\<lparr> ut_UpstreamID := u_ID result \<rparr> \<rparr>;
                   (e, k1) = upstream_setCondition ku kc cr1 ''Ready'' ''True'' ''Synced'' (''upstream '' @ u_ID result @ '' synced'') k
               in (e, k1, s1))))"

definition upstream_handleDelete :: "kube_util \<Rightarrow> (GatewayUpstream, 'k) kube_client \<Rightarrow> 's admin_link \<Rightarrow> GatewayUpstream \<Rightarrow> 'k \<times> 's \<Rightarrow>
    reconcile_err option \<times> 'k \<times> 's" where
  "upstream_handleDelete ku kc al cr ks =
     (let (k, s) = ks; m = gu_Meta cr; rid = ut_UpstreamID (gu_Status cr)
      in if \<not> ku_ContainsFinalizer ku (om_Finalizers m) upstreamFinalizer then (None, k, s)
         else
           let (res, s1) = (if rid \<noteq> '''' then client_DeleteUpstream (al_Client al) (al_link al) (al_server al) rid s else (Inr (), s))
           in case res of
                Inl err \<Rightarrow> (Some (AdminError err), k, s1)
              | Inr _ \<Rightarrow>
                  let (e, _, k1) = kc_Update kc (cr\<lparr> gu_Meta := m\<lparr> om_Finalizers := ku_RemoveFinalizer ku (om_Finalizers m) upstreamFinalizer \<rparr> \<rparr>) k
                  in (map_option KubeError e, k1, s1))"

definition upstream_Reconcile :: "kube_util \<Rightarrow> (GatewayUpstream, 'k) kube_client \<Rightarrow> 's admin_link \<Rightarrow> string \<Rightarrow> string \<Rightarrow> 'k \<times> 's \<Rightarrow>
    reconcile_err option \<times> 'k \<times> 's" where
  "upstream_Reconcile ku kc al ns nm ks =
     (let (k, s) = ks
      in case kc_Get kc ns nm k of
           Inl err \<Rightarrow> (map_option KubeError (ku_IgnoreNotFound ku err), k, s)
         | Inr cr \<Rightarrow>
             let m = gu_Meta cr
             in if om_DeletionTimestamp m \<noteq> None then upstream_handleDelete ku kc al cr (k, s)
                else if \<not> ku_ContainsFinalizer ku (om_Finalizers m) upstreamFinalizer
                then (let (e, cr1, k1) = kc_Update kc (cr\<lparr> gu_Meta := m\<lparr> om_Finalizers := ku_AddFinalizer ku (om_Finalizers m) upstreamFinalizer \<rparr> \<rparr>) k
                      in case e of
                           Some err \<Rightarrow> (Some (KubeError err), k1, s)
                         | None \<Rightarrow> upstream_handleUpsert ku kc al cr1 (k1, s))
                else upstream_handleUpsert ku kc al cr (k, s))"

section \<open>IP policies\<close>

definition policyFinalizer :: string where
  "policyFinalizer = ''helix.io/policy''"

definition policy_setCondition :: "kube_util \<Rightarrow> (HelixIPPolicy, 'k) kube_client \<Rightarrow> HelixIPPolicy \<Rightarrow> string \<Rightarrow> string \<Rightarrow> string \<Rightarrow> string \<Rightarrow>
    'k \<Rightarrow> reconcile_err option \<times> 'k" where
  "policy_setCondition ku kc cr condType status reason msg k =
     (let st = hp_Status cr;
          cr1 = cr\<lparr> hp_Status := st\<lparr> pt_Conditions := ku_SetStatusCondition ku (pt_Conditions st) (condition (hp_Meta cr) condType status reason msg) \<rparr> \<rparr>;
          (err, _, k1) = kc_StatusUpdate kc cr1 k
      in (case err of
            Some e \<Rightarrow> Some (KubeError e)
          | None \<Rightarrow> if status = ''False'' then Some (SyncError msg) else None, k1))"

definition desired_policy :: "HelixIPPolicy \<Rightarrow> IPPolicy" where
  "desired_policy cr = zero_policy\<lparr> ip_Name := om_Name (hp_Meta cr), ip_Mode := ps_Mode (hp_Spec cr), ip_CIDRs := ps_CIDRs (hp_Spec cr), ip_Active := ps_Active (hp_Spec cr) \<rparr>"

definition policy_handleUpsert :: "kube_util \<Rightarrow> (HelixIPPolicy, 'k) kube_client \<Rightarrow> 's admin_link \<Rightarrow> HelixIPPolicy \<Rightarrow> 'k \<times> 's \<Rightarrow>
    reconcile_err option \<times> 'k \<times> 's" where
  "policy_handleUpsert ku kc al cr ks =
     (let (k, s) = ks; v = desired_policy cr; rid = pt_PolicyID (hp_Status cr);
          (call, res, s1) =
            (if rid = ''''
             then ((''POST'', v1 [''policies'']), client_CreateIPPolicy (al_Client al) (al_enc al) (al_link al) (al_server al) v s)
             else ((''PUT'', v1 [''policies'', rid]),
                   client_UpdateIPPolicy (al_Client al) (al_enc al) (al_link al) (al_server al) rid (v\<lparr> ip_ID := rid \<rparr>) s))
      in (case res of
            Inl err \<Rightarrow>
              (let (e, k1) = policy_setCondition ku kc cr ''Ready'' ''False'' ''SyncFailed''
                     (client_err_text (ku_cause ku err) (fst call) (snd call) err) k
               in (e, k1, s1))
          | Inr result \<Rightarrow>
              (let cr1 = cr\<lparr> hp_Status := (hp_Status cr)\<lparr> pt_PolicyID := ip_ID result \<rparr> \<rparr>;
                   (e, k1) = policy_setCondition ku kc cr1 ''Ready'' ''True'' ''Synced'' (''policy '' @ ip_ID result @ '' synced'') k
               in (e, k1, s1))))"

definition policy_handleDelete :: "kube_util \<Rightarrow> (HelixIPPolicy, 'k) kube_client \<Rightarrow> 's admin_link \<Rightarrow> HelixIPPolicy \<Rightarrow> 'k \<times> 's \<Rightarrow>
    reconcile_err option \<times> 'k \<times> 's" where
  "policy_handleDelete ku kc al cr ks =
     (let (k, s) = ks; m = hp_Meta cr; rid = pt_PolicyID (hp_Status cr)
      in if \<not> ku_ContainsFinalizer ku (om_Finalizers m) policyFinalizer then (None, k, s)
         else
           let (res, s1) = (if rid \<noteq> '''' then client_DeleteIPPolicy (al_Client al) (al_link al) (al_server al) rid s else (Inr (), s))
           in case res of
                Inl err \<Rightarrow> (Some (AdminError err), k, s1)
              | Inr _ \<Rightarrow>
                  let (e, _, k1) = kc_Update kc (cr\<lparr> hp_Meta := m\<lparr> om_Finalizers := ku_RemoveFinalizer ku (om_Finalizers m) policyFinalizer \<rparr> \<rparr>) k
                  in (map_option KubeError e, k1, s1))"

definition policy_Reconcile :: "kube_util \<Rightarrow> (HelixIPPolicy, 'k) kube_client \<Rightarrow> 's admin_link \<Rightarrow> string \<Rightarrow> string \<Rightarrow> 'k \<times> 's \<Rightarrow>
    reconcile_err option \<times> 'k \<times> 's" where
  "policy_Reconcile ku kc al ns nm ks =
     (let (k, s) = ks
      in case kc_Get kc ns nm k of
           Inl err \<Rightarrow> (map_option KubeError (ku_IgnoreNotFound ku err), k, s)
         | Inr cr \<Rightarrow>
             let m = hp_Meta cr
             in if om_DeletionTimestamp m \<noteq> None then policy_handleDelete ku kc al cr (k, s)
                else if \<not> ku_ContainsFinalizer ku (om_Finalizers m) policyFinalizer
                then (let (e, cr1, k1) = kc_Update kc (cr\<lparr> hp_Meta := m\<lparr> om_Finalizers := ku_AddFinalizer ku (om_Finalizers m) policyFinalizer \<rparr> \<rparr>) k
                      in case e of
                           Some err \<Rightarrow> (Some (KubeError err), k1, s)
                         | None \<Rightarrow> policy_handleUpsert ku kc al cr1 (k1, s))
                else policy_handleUpsert ku kc al cr (k, s))"

end
