(* ===== verification/Operator_Correct.thy ===== *)
theory Operator_Correct
  imports Operator
begin

text \<open>
  Correctness of the operator against the gateway's own admin server and store: what a reconciliation
  leaves in the store, and two situations from which no number of retries recovers. Retries share the
  locale \<open>wedge\<close>: attempts that fail, leave the gateway alone and stay in the same situation.
\<close>

section \<open>Retries\<close>

text \<open>
  An attempt runs under circumstances of its own (network, credentials, clock, disk of the gateway); after an
  error the run time of the operator tries again.
\<close>

definition retries :: "('e \<Rightarrow> 'k \<times> 's \<Rightarrow> reconcile_err option \<times> 'k \<times> 's) \<Rightarrow> 'e list \<Rightarrow> 'k \<times> 's \<Rightarrow> 'k \<times> 's" where
  "retries attempt as ks = fold (\<lambda>a ks. snd (attempt a ks)) as ks"

locale wedge =
  fixes attempt :: "'e \<Rightarrow> 'k \<times> 's \<Rightarrow> reconcile_err option \<times> 'k \<times> 's"
    and possible :: "'e \<Rightarrow> bool"
    and stuck :: "'k \<times> 's \<Rightarrow> bool"
  assumes stays: "stuck (k, s) \<Longrightarrow> possible a \<Longrightarrow> attempt a (k, s) = (err, k', s') \<Longrightarrow> err \<noteq> None \<and> s' = s \<and> stuck (k', s')"
begin

lemma retries_stuck:
  "stuck ks \<Longrightarrow> \<forall>a \<in> set as. possible a \<Longrightarrow> stuck (retries attempt as ks) \<and> snd (retries attempt as ks) = snd ks"
proof (induction as arbitrary: ks)
  case (Cons a as)
  obtain err k' s' where a: "attempt a (fst ks, snd ks) = (err, k', s')" by (metis prod_cases3)
  with stays [OF _ _ a] Cons.prems have "stuck (k', s')" "s' = snd ks" by auto
  with Cons.IH [of "(k', s')"] Cons.prems a show ?case by (simp add: retries_def)
qed (simp add: retries_def)

lemma never_succeeds:
  assumes "stuck ks" and "\<forall>a \<in> set as. possible a" and "possible a"
  shows "snd (retries attempt as ks) = snd ks \<and> (\<exists>err. fst (attempt a (retries attempt as ks)) = Some err)"
proof -
  obtain k s where r: "retries attempt as ks = (k, s)" by force
  obtain err k' s' where a: "attempt a (k, s) = (err, k', s')" by (metis prod_cases3)
  with stays [OF _ assms(3) a] retries_stuck [OF assms(1,2)] r show ?thesis by auto
qed

end

section \<open>Calls that the server refuses\<close>

text \<open>A call fails whenever every answer of the server is an error, whatever the network does.\<close>

lemma client_do_refused:
  assumes "\<And>data resp s1. body = Some (Some data) \<or> body = None \<and> data = '''' \<Longrightarrow> srv (client_request c meth segs data) s = (resp, s1) \<Longrightarrow>
      400 \<le> ar_Status resp \<and> s1 = s"
  shows "\<exists>err. client_do c l srv meth segs body out zero s = (Inl err, s)"
proof (cases "body = Some None")
  case False
  define data where "data = (case body of Some (Some d) \<Rightarrow> d | _ \<Rightarrow> '''')"
  obtain resp s1 where r: "srv (client_request c meth segs data) s = (resp, s1)" by force
  have "400 \<le> ar_Status resp" "s1 = s"
    using assms [OF _ r] False by (auto simp: data_def split: option.splits)
  with r False show ?thesis by (cases l) (auto simp: client_do_def hc_Do_def data_def split: option.splits)
qed (simp add: client_do_def)

lemma delete_refused:
  assumes "admin_ServeHTTP E av dc Sum256 ticks ui (client_request c ''DELETE'' (v1 [coll, rid]) '''') s = (resp, s1)" and "rid \<noteq> ''''"
    and "coll = ''routes'' \<and> map_of (st_routes (ad_store s)) rid = None \<or> coll = ''upstreams'' \<and> map_of (st_upstreams (ad_store s)) rid = None \<or>
      coll = ''policies'' \<and> map_of (st_policies (ad_store s)) rid = None"
  shows "400 \<le> ar_Status resp \<and> s1 = s"
  using assms
  by (auto simp: admin_ServeHTTP_def basicAuth_def admin_mux_def v1_def client_request_def item_ops_def deleteRoute_def deleteUpstream_def
      deletePolicy_def DeleteRoute_def DeleteUpstream_def DeleteIPPolicy_def answer_none_def storeErr_status Let_def split: if_splits)

lemma create_route_refused:
  assumes "admin_ServeHTTP E av dc Sum256 ticks ui (client_request c ''POST'' (v1 [''routes'']) d) s = (resp, s1)"
    and "\<And>n r. dc_Route dc (take n d) = Some r \<Longrightarrow> r_Name r = nm" and "(i, other) \<in> set (st_routes (ad_store s))" and "r_Name other = nm"
  shows "400 \<le> ar_Status resp \<and> s1 = s"
proof -
  have "CreateRoute e r (ad_store s) = (Inl ErrConflict, ad_store s)" if "r_Name r = nm" for e r
    using assms(3,4) that by (auto simp: CreateRoute_def list_ex_iff)
  then have "createRoute av dc q s \<in> {(errBadRequest ''invalid request body'', s), (storeErr ErrConflict, s)}" if "aq_Body q = d" for q
    using assms(2) [of max_body] that by (auto simp: createRoute_def with_body_def limited_def answer_value_def split: option.splits)
  then have "400 \<le> ar_Status (fst (createRoute av dc q s)) \<and> snd (createRoute av dc q s) = s" if "aq_Body q = d" for q
    using that storeErr_status [of ErrConflict] by fastforce
  then have "400 \<le> ar_Status (fst (admin_ServeHTTP E av dc Sum256 ticks ui (client_request c ''POST'' (v1 [''routes'']) d) s)) \<and>
      snd (admin_ServeHTTP E av dc Sum256 ticks ui (client_request c ''POST'' (v1 [''routes'']) d) s) = s"
    by (simp add: admin_ServeHTTP_def basicAuth_def admin_mux_def v1_def client_request_def collection_ops_def Let_def)
  with assms(1) show ?thesis by simp
qed

text \<open>Circumstances in which the server is a gateway's own, and in which the name of a route survives the encoding: what
  decodes from a body, or from the part of it that the server reads, has the name that was encoded.\<close>

definition gateway_link :: "'f admin admin_link \<Rightarrow> bool" where
  "gateway_link al \<longleftrightarrow> (\<exists>E av dc Sum256 ticks ui. al_server al = admin_ServeHTTP E av dc Sum256 ticks ui)"

definition naming_link :: "string \<Rightarrow> 'f admin admin_link \<Rightarrow> bool" where
  "naming_link nm al \<longleftrightarrow> (\<exists>E av dc Sum256 ticks ui. al_server al = admin_ServeHTTP E av dc Sum256 ticks ui \<and>
     (\<forall>r d n r'. r_Name r = nm \<and> en_Route (al_enc al) r = Some d \<and> dc_Route dc (take n d) = Some r' \<longrightarrow> r_Name r' = nm))"

lemma delete_calls_refused:
  assumes "gateway_link al" and "rid \<noteq> ''''"
  shows "map_of (st_routes (ad_store s)) rid = None \<Longrightarrow> \<exists>err. client_DeleteRoute (al_Client al) (al_link al) (al_server al) rid s = (Inl err, s)"
    and "map_of (st_upstreams (ad_store s)) rid = None \<Longrightarrow> \<exists>err. client_DeleteUpstream (al_Client al) (al_link al) (al_server al) rid s = (Inl err, s)"
    and "map_of (st_policies (ad_store s)) rid = None \<Longrightarrow> \<exists>err. client_DeleteIPPolicy (al_Client al) (al_link al) (al_server al) rid s = (Inl err, s)"
proof -
  obtain E av dc Sum256 ticks ui where al: "al_server al = admin_ServeHTTP E av dc Sum256 ticks ui"
    using assms(1) unfolding gateway_link_def by blast
  note refused = client_do_refused [where body = None, OF delete_refused [OF _ assms(2)]]
  show "map_of (st_routes (ad_store s)) rid = None \<Longrightarrow> \<exists>err. client_DeleteRoute (al_Client al) (al_link al) (al_server al) rid s = (Inl err, s)"
    unfolding client_DeleteRoute_def al by (rule refused) auto
  show "map_of (st_upstreams (ad_store s)) rid = None \<Longrightarrow> \<exists>err. client_DeleteUpstream (al_Client al) (al_link al) (al_server al) rid s = (Inl err, s)"
    unfolding client_DeleteUpstream_def al by (rule refused) auto
  show "map_of (st_policies (ad_store s)) rid = None \<Longrightarrow> \<exists>err. client_DeleteIPPolicy (al_Client al) (al_link al) (al_server al) rid s = (Inl err, s)"
    unfolding client_DeleteIPPolicy_def al by (rule refused) auto
qed

lemma create_call_refused:
  assumes "naming_link nm al" and "r_Name r = nm" and "(i, other) \<in> set (st_routes (ad_store s))" and "r_Name other = nm"
  shows "\<exists>err. client_CreateRoute (al_Client al) (al_enc al) (al_link al) (al_server al) r s = (Inl err, s)"
proof -
  obtain E av dc Sum256 ticks ui where al: "al_server al = admin_ServeHTTP E av dc Sum256 ticks ui"
    "\<And>d n r'. en_Route (al_enc al) r = Some d \<Longrightarrow> dc_Route dc (take n d) = Some r' \<Longrightarrow> r_Name r' = nm"
    using assms(1,2) unfolding naming_link_def by blast
  show ?thesis
    unfolding client_CreateRoute_def al(1)
    by (rule client_do_refused, rule create_route_refused [OF _ _ assms(3,4)]) (use al(2) in auto)
qed

section \<open>Deletions that never end\<close>

text \<open>A resource under deletion whose object is no longer in the store.\<close>

definition route_orphan :: "kube_util \<Rightarrow> (GatewayRoute, 'k) kube_client \<Rightarrow> string \<Rightarrow> string \<Rightarrow> 'k \<times> 'f admin \<Rightarrow> bool" where
  "route_orphan ku kc ns nm ks \<longleftrightarrow> (\<exists>cr. kc_Get kc ns nm (fst ks) = Inr cr \<and> om_DeletionTimestamp (gr_Meta cr) \<noteq> None \<and>
     ku_ContainsFinalizer ku (om_Finalizers (gr_Meta cr)) routeFinalizer \<and> rt_RouteID (gr_Status cr) \<noteq> '''' \<and>
     map_of (st_routes (ad_store (snd ks))) (rt_RouteID (gr_Status cr)) = None)"

definition upstream_orphan :: "kube_util \<Rightarrow> (GatewayUpstream, 'k) kube_client \<Rightarrow> string \<Rightarrow> string \<Rightarrow> 'k \<times> 'f admin \<Rightarrow> bool" where
  "upstream_orphan ku kc ns nm ks \<longleftrightarrow> (\<exists>cr. kc_Get kc ns nm (fst ks) = Inr cr \<and> om_DeletionTimestamp (gu_Meta cr) \<noteq> None \<and>
     ku_ContainsFinalizer ku (om_Finalizers (gu_Meta cr)) upstreamFinalizer \<and> ut_UpstreamID (gu_Status cr) \<noteq> '''' \<and>
     map_of (st_upstreams (ad_store (snd ks))) (ut_UpstreamID (gu_Status cr)) = None)"

definition policy_orphan :: "kube_util \<Rightarrow> (HelixIPPolicy, 'k) kube_client \<Rightarrow> string \<Rightarrow> string \<Rightarrow> 'k \<times> 'f admin \<Rightarrow> bool" where
  "policy_orphan ku kc ns nm ks \<longleftrightarrow> (\<exists>cr. kc_Get kc ns nm (fst ks) = Inr cr \<and> om_DeletionTimestamp (hp_Meta cr) \<noteq> None \<and>
     ku_ContainsFinalizer ku (om_Finalizers (hp_Meta cr)) policyFinalizer \<and> pt_PolicyID (hp_Status cr) \<noteq> '''' \<and>
     map_of (st_policies (ad_store (snd ks))) (pt_PolicyID (hp_Status cr)) = None)"

lemma route_delete_error:
  assumes "kc_Get kc ns nm k = Inr cr" and "om_DeletionTimestamp (gr_Meta cr) \<noteq> None"
    and "ku_ContainsFinalizer ku (om_Finalizers (gr_Meta cr)) routeFinalizer" and "rt_RouteID (gr_Status cr) \<noteq> ''''"
    and "client_DeleteRoute (al_Client al) (al_link al) (al_server al) (rt_RouteID (gr_Status cr)) s = (Inl err, s1)"
  shows "route_Reconcile ku kc kcu al ns nm (k, s) = (Some (AdminError err), k, s1)"
  using assms by (simp add: route_Reconcile_def route_handleDelete_def)

lemma upstream_delete_error:
  assumes "kc_Get kc ns nm k = Inr cr" and "om_DeletionTimestamp (gu_Meta cr) \<noteq> None"
    and "ku_ContainsFinalizer ku (om_Finalizers (gu_Meta cr)) upstreamFinalizer" and "ut_UpstreamID (gu_Status cr) \<noteq> ''''"
    and "client_DeleteUpstream (al_Client al) (al_link al) (al_server al) (ut_UpstreamID (gu_Status cr)) s = (Inl err, s1)"
  shows "upstream_Reconcile ku kc al ns nm (k, s) = (Some (AdminError err), k, s1)"
  using assms by (simp add: upstream_Reconcile_def upstream_handleDelete_def)

lemma policy_delete_error:
  assumes "kc_Get kc ns nm k = Inr cr" and "om_DeletionTimestamp (hp_Meta cr) \<noteq> None"
    and "ku_ContainsFinalizer ku (om_Finalizers (hp_Meta cr)) policyFinalizer" and "pt_PolicyID (hp_Status cr) \<noteq> ''''"
    and "client_DeleteIPPolicy (al_Client al) (al_link al) (al_server al) (pt_PolicyID (hp_Status cr)) s = (Inl err, s1)"
  shows "policy_Reconcile ku kc al ns nm (k, s) = (Some (AdminError err), k, s1)"
  using assms by (simp add: policy_Reconcile_def policy_handleDelete_def)

interpretation route_deletion: wedge "\<lambda>al. route_Reconcile ku kc kcu al ns nm" gateway_link "route_orphan ku kc ns nm" for ku kc kcu ns nm
proof unfold_locales
  fix k and s :: "'f admin" and al err k' s'
  assume o: "route_orphan ku kc ns nm (k, s)" and al: "gateway_link al" and a: "route_Reconcile ku kc kcu al ns nm (k, s) = (err, k', s')"
  then obtain cr where cr: "kc_Get kc ns nm k = Inr cr" "om_DeletionTimestamp (gr_Meta cr) \<noteq> None"
    "ku_ContainsFinalizer ku (om_Finalizers (gr_Meta cr)) routeFinalizer" "rt_RouteID (gr_Status cr) \<noteq> ''''"
    "map_of (st_routes (ad_store s)) (rt_RouteID (gr_Status cr)) = None"
    by (auto simp: route_orphan_def)
  with delete_calls_refused(1) [OF al cr(4,5)] route_delete_error [OF cr(1-4)] a o
  show "err \<noteq> None \<and> s' = s \<and> route_orphan ku kc ns nm (k', s')" by fastforce
qed

interpretation upstream_deletion: wedge "\<lambda>al. upstream_Reconcile ku kc al ns nm" gateway_link "upstream_orphan ku kc ns nm" for ku kc ns nm
proof unfold_locales
  fix k and s :: "'f admin" and al err k' s'
  assume o: "upstream_orphan ku kc ns nm (k, s)" and al: "gateway_link al" and a: "upstream_Reconcile ku kc al ns nm (k, s) = (err, k', s')"
  then obtain cr where cr: "kc_Get kc ns nm k = Inr cr" "om_DeletionTimestamp (gu_Meta cr) \<noteq> None"
    "ku_ContainsFinalizer ku (om_Finalizers (gu_Meta cr)) upstreamFinalizer" "ut_UpstreamID (gu_Status cr) \<noteq> ''''"
    "map_of (st_upstreams (ad_store s)) (ut_UpstreamID (gu_Status cr)) = None"
    by (auto simp: upstream_orphan_def)
  with delete_calls_refused(2) [OF al cr(4,5)] upstream_delete_error [OF cr(1-4)] a o
  show "err \<noteq> None \<and> s' = s \<and> upstream_orphan ku kc ns nm (k', s')" by fastforce
qed

interpretation policy_deletion: wedge "\<lambda>al. policy_Reconcile ku kc al ns nm" gateway_link "policy_orphan ku kc ns nm" for ku kc ns nm
proof unfold_locales
  fix k and s :: "'f admin" and al err k' s'
  assume o: "policy_orphan ku kc ns nm (k, s)" and al: "gateway_link al" and a: "policy_Reconcile ku kc al ns nm (k, s) = (err, k', s')"
  then obtain cr where cr: "kc_Get kc ns nm k = Inr cr" "om_DeletionTimestamp (hp_Meta cr) \<noteq> None"
    "ku_ContainsFinalizer ku (om_Finalizers (hp_Meta cr)) policyFinalizer" "pt_PolicyID (hp_Status cr) \<noteq> ''''"
    "map_of (st_policies (ad_store s)) (pt_PolicyID (hp_Status cr)) = None"
    by (auto simp: policy_orphan_def)
  with delete_calls_refused(3) [OF al cr(4,5)] policy_delete_error [OF cr(1-4)] a o
  show "err \<noteq> None \<and> s' = s \<and> policy_orphan ku kc ns nm (k', s')" by fastforce
qed

section \<open>Creations that never end\<close>

text \<open>
  What a write of the status does to the stored resource, as the API server documents it: the write fails
  and changes nothing, or it replaces the status; name, deletion mark and finalizers stay.
\<close>

definition status_writes :: "(GatewayRoute, 'k) kube_client \<Rightarrow> bool" where
  "status_writes kc \<longleftrightarrow> (\<forall>cr k e cr1 k1 ns nm cr0. kc_StatusUpdate kc cr k = (e, cr1, k1) \<and> kc_Get kc ns nm k = Inr cr0 \<longrightarrow>
     (\<exists>cr2. kc_Get kc ns nm k1 = Inr cr2 \<and> om_Name (gr_Meta cr2) = om_Name (gr_Meta cr0) \<and>
        om_DeletionTimestamp (gr_Meta cr2) = om_DeletionTimestamp (gr_Meta cr0) \<and> om_Finalizers (gr_Meta cr2) = om_Finalizers (gr_Meta cr0) \<and>
        (gr_Status cr2 = gr_Status cr0 \<or> gr_Status cr2 = gr_Status cr)))"

text \<open>A resource without an identifier whose name the store has already, as after a create whose status write was lost.\<close>

definition route_unclaimed :: "kube_util \<Rightarrow> (GatewayRoute, 'k) kube_client \<Rightarrow> string \<Rightarrow> string \<Rightarrow> 'k \<times> 'f admin \<Rightarrow> bool" where
  "route_unclaimed ku kc ns nm ks \<longleftrightarrow> status_writes kc \<and>
     (\<exists>cr. kc_Get kc ns nm (fst ks) = Inr cr \<and> om_Name (gr_Meta cr) = nm \<and> om_DeletionTimestamp (gr_Meta cr) = None \<and>
        ku_ContainsFinalizer ku (om_Finalizers (gr_Meta cr)) routeFinalizer \<and> rt_RouteID (gr_Status cr) = '''') \<and>
     (\<exists>(i, other) \<in> set (st_routes (ad_store (snd ks))). r_Name other = nm)"

lemma failed_condition:
  obtains e k1 where "route_setCondition ku kc cr t ''False'' reason msg k = (Some e, k1)"
proof -
  have "\<exists>e k1. route_setCondition ku kc cr t ''False'' reason msg k = (Some e, k1)"
    by (auto simp: route_setCondition_def Let_def split: prod.split option.split)
  with that show ?thesis by blast
qed

lemma route_create_error:
  assumes "kc_Get kc ns nm k = Inr cr" and "om_DeletionTimestamp (gr_Meta cr) = None"
    and "ku_ContainsFinalizer ku (om_Finalizers (gr_Meta cr)) routeFinalizer" and "rt_RouteID (gr_Status cr) = ''''"
    and "\<And>uid. \<exists>err. client_CreateRoute (al_Client al) (al_enc al) (al_link al) (al_server al) (desired_route cr uid) s = (Inl err, s)"
  shows "\<exists>e reason msg. route_Reconcile ku kc kcu al ns nm (k, s) =
      (Some e, snd (route_setCondition ku kc cr ''Ready'' ''False'' reason msg k), s)"
proof (cases "resolveUpstreamID ku kcu cr k")
  case (Inl msg)
  obtain e k1 where c: "route_setCondition ku kc cr ''Ready'' ''False'' ''UpstreamNotReady'' msg k = (Some e, k1)" by (rule failed_condition)
  with Inl assms(1-4) have "route_Reconcile ku kc kcu al ns nm (k, s) = (Some e, k1, s)" by (simp add: route_Reconcile_def route_handleUpsert_def)
  with c show ?thesis by (metis snd_conv)
next
  case (Inr uid)
  obtain err where "client_CreateRoute (al_Client al) (al_enc al) (al_link al) (al_server al) (desired_route cr uid) s = (Inl err, s)"
    using assms(5) by blast
  moreover obtain e k1 where c: "route_setCondition ku kc cr ''Ready'' ''False'' ''SyncFailed''
      (client_err_text (ku_cause ku err) ''POST'' (v1 [''routes'']) err) k = (Some e, k1)" by (rule failed_condition)
  ultimately have "route_Reconcile ku kc kcu al ns nm (k, s) = (Some e, k1, s)"
    using Inr assms(1-4) by (simp add: route_Reconcile_def route_handleUpsert_def)
  with c show ?thesis by (metis snd_conv)
qed

lemma desired_name [simp]: "r_Name (desired_route cr uid) = om_Name (gr_Meta cr)"
  by (simp add: desired_route_def Let_def)

lemma unclaimed_condition:
  assumes "route_unclaimed ku kc ns nm (k, s)" and "kc_Get kc ns nm k = Inr cr" and "rt_RouteID (gr_Status cr) = ''''"
  shows "route_unclaimed ku kc ns nm (snd (route_setCondition ku kc cr t st reason msg k), s)"
proof -
  define cr1 where "cr1 = cr\<lparr> gr_Status := (gr_Status cr)\<lparr> rt_Conditions :=
      ku_SetStatusCondition ku (rt_Conditions (gr_Status cr)) (condition (gr_Meta cr) t st reason msg) \<rparr> \<rparr>"
  obtain e cr2 k1 where u: "kc_StatusUpdate kc cr1 k = (e, cr2, k1)" by (metis prod_cases3)
  have k1: "snd (route_setCondition ku kc cr t st reason msg k) = k1" using u by (simp add: route_setCondition_def cr1_def Let_def)
  have "rt_RouteID (gr_Status cr1) = ''''" using assms(3) by (simp add: cr1_def)
  moreover obtain cr3 where "kc_Get kc ns nm k1 = Inr cr3" "om_Name (gr_Meta cr3) = om_Name (gr_Meta cr)"
    "om_DeletionTimestamp (gr_Meta cr3) = om_DeletionTimestamp (gr_Meta cr)" "om_Finalizers (gr_Meta cr3) = om_Finalizers (gr_Meta cr)"
    "gr_Status cr3 = gr_Status cr \<or> gr_Status cr3 = gr_Status cr1"
    using assms(1,2) u unfolding route_unclaimed_def status_writes_def by blast
  ultimately show ?thesis using assms unfolding k1 route_unclaimed_def by auto
qed

interpretation route_creation: wedge "\<lambda>al. route_Reconcile ku kc kcu al ns nm" "naming_link nm" "route_unclaimed ku kc ns nm" for ku kc kcu ns nm
proof unfold_locales
  fix k and s :: "'f admin" and al err k' s'
  assume o: "route_unclaimed ku kc ns nm (k, s)" and al: "naming_link nm al" and a: "route_Reconcile ku kc kcu al ns nm (k, s) = (err, k', s')"
  then obtain cr i other where cr: "kc_Get kc ns nm k = Inr cr" "om_DeletionTimestamp (gr_Meta cr) = None"
    "ku_ContainsFinalizer ku (om_Finalizers (gr_Meta cr)) routeFinalizer" "rt_RouteID (gr_Status cr) = ''''"
    and other: "om_Name (gr_Meta cr) = nm" "(i, other) \<in> set (st_routes (ad_store s))" "r_Name other = nm"
    by (auto simp: route_unclaimed_def)
  have "\<exists>err. client_CreateRoute (al_Client al) (al_enc al) (al_link al) (al_server al) (desired_route cr uid) s = (Inl err, s)" for uid
    by (rule create_call_refused [OF al _ other(2,3)]) (simp add: other(1))
  from route_create_error [OF cr this, of kcu] obtain e reason msg where
    "route_Reconcile ku kc kcu al ns nm (k, s) = (Some e, snd (route_setCondition ku kc cr ''Ready'' ''False'' reason msg k), s)"
    by (elim exE)
  with a unclaimed_condition [OF o cr(1,4), of "''Ready''" "''False''" reason msg]
  show "err \<noteq> None \<and> s' = s \<and> route_unclaimed ku kc ns nm (k', s')" by auto
qed

section \<open>What a reconciliation leaves in the store\<close>

text \<open>The route of a resource, as it is sent, and the resource as its status is written after a success.\<close>

definition sent_route :: "GatewayRoute \<Rightarrow> string \<Rightarrow> Route" where
  "sent_route cr uid = (desired_route cr uid)\<lparr> r_ID := rt_RouteID (gr_Status cr) \<rparr>"

definition synced_route :: "kube_util \<Rightarrow> GatewayRoute \<Rightarrow> string \<Rightarrow> GatewayRoute" where
  "synced_route ku cr rid = cr\<lparr> gr_Status := (gr_Status cr)\<lparr> rt_RouteID := rid,
     rt_Conditions := ku_SetStatusCondition ku (rt_Conditions (gr_Status cr))
       (condition (gr_Meta cr) ''Ready'' ''True'' ''Synced'' (''route '' @ rid @ '' synced'')) \<rparr> \<rparr>"

text \<open>The specification: one create or one update in the store.\<close>

definition sync_route :: "store_env \<Rightarrow> string \<Rightarrow> Route \<Rightarrow> store \<Rightarrow> (store_err + Route) \<times> store" where
  "sync_route e rid r st = (if rid = '''' then CreateRoute e r st else UpdateRoute e rid r st)"

lemma sent_create: "rt_RouteID (gr_Status cr) = '''' \<Longrightarrow> sent_route cr uid = desired_route cr uid"
  by (simp add: sent_route_def desired_route_def zero_route_def Let_def)

lemma route_setCondition_ready:
  "route_setCondition ku kc (cr\<lparr> gr_Status := (gr_Status cr)\<lparr> rt_RouteID := rid \<rparr> \<rparr>) ''Ready'' ''True'' ''Synced'' (''route '' @ rid @ '' synced'') k =
     (map_option KubeError (fst (kc_StatusUpdate kc (synced_route ku cr rid) k)), snd (snd (kc_StatusUpdate kc (synced_route ku cr rid) k)))"
  by (auto simp: route_setCondition_def synced_route_def Let_def split: prod.split option.split)

lemma route_upsert_call:
  assumes "resolveUpstreamID ku kcu cr k = Inr uid" and "trusted E c"
    and "al = \<lparr> al_Client = c, al_enc = en, al_link = Link_up, al_server = admin_ServeHTTP E av dc Sum256 ticks ui \<rparr>"
    and "en_Route en (sent_route cr uid) = Some d" and "length d \<le> max_body" and "dc_Route dc d = Some (sent_route cr uid)"
    and "sync_route (ae_store av) (rt_RouteID (gr_Status cr)) (sent_route cr uid) (ad_store s) = (res, st')"
  shows "\<exists>msg. route_handleUpsert ku kc kcu al cr (k, s) =
    (let (e, k1) = (case res of
         Inl err \<Rightarrow> route_setCondition ku kc cr ''Ready'' ''False'' ''SyncFailed'' msg k
       | Inr r \<Rightarrow> route_setCondition ku kc (cr\<lparr> gr_Status := (gr_Status cr)\<lparr> rt_RouteID := r_ID r \<rparr> \<rparr>) ''Ready'' ''True'' ''Synced''
           (''route '' @ r_ID r @ '' synced'') k)
     in (e, k1, s\<lparr> ad_store := st' \<rparr>))"
proof (cases "rt_RouteID (gr_Status cr) = ''''")
  case True
  with assms show ?thesis using client_create_route [OF assms(2,4,5,6), of av Sum256 ticks ui s]
    by (cases res) (auto simp: route_handleUpsert_def sync_route_def sent_create Let_def)
next
  case False
  with assms show ?thesis using client_update_route [OF assms(2,4,5,6) False, of av Sum256 ticks ui s]
    by (cases res) (auto simp: route_handleUpsert_def sync_route_def sent_route_def Let_def)
qed

lemma route_reconcile_upsert:
  assumes "kc_Get kc ns nm k = Inr cr" and "om_DeletionTimestamp (gr_Meta cr) = None"
    and "ku_ContainsFinalizer ku (om_Finalizers (gr_Meta cr)) routeFinalizer"
  shows "route_Reconcile ku kc kcu al ns nm (k, s) = route_handleUpsert ku kc kcu al cr (k, s)"
  using assms by (simp add: route_Reconcile_def)

text \<open>What a successful create or update stores.\<close>

lemma CreateRoute_value:
  "CreateRoute e r st = (Inr v, st') \<Longrightarrow> v = r\<lparr> r_ID := env_uuid e, r_CreatedAt := env_now e, r_UpdatedAt := env_now e \<rparr>"
  by (auto simp: CreateRoute_def Let_def split: if_splits option.splits prod.splits)

lemma UpdateRoute_value:
  "UpdateRoute e rid r st = (Inr v, st') \<Longrightarrow> v = r\<lparr> r_ID := r_ID v, r_CreatedAt := r_CreatedAt v, r_UpdatedAt := env_now e \<rparr>"
  by (auto simp: UpdateRoute_def Let_def split: if_splits option.splits prod.splits)

lemma sync_route_stored:
  assumes "sync_route e rid r st = (Inr v, st')" and "rid \<noteq> '''' \<Longrightarrow> wf_store st"
  shows "map_of (st_routes st') (r_ID v) = Some v" and "rid \<noteq> '''' \<Longrightarrow> r_ID v = rid"
    and "v = r\<lparr> r_ID := r_ID v, r_CreatedAt := r_CreatedAt v, r_UpdatedAt := env_now e \<rparr>"
proof -
  show "v = r\<lparr> r_ID := r_ID v, r_CreatedAt := r_CreatedAt v, r_UpdatedAt := env_now e \<rparr>"
  proof (cases "rid = ''''")
    case True
    with assms(1) have "CreateRoute e r st = (Inr v, st')" by (simp add: sync_route_def)
    from CreateRoute_value [OF this] show ?thesis by (simp add: Route.equality)
  next
    case False
    with assms(1) have "UpdateRoute e rid r st = (Inr v, st')" by (simp add: sync_route_def)
    then show ?thesis by (rule UpdateRoute_value)
  qed
  have upd: "r_ID v = rid" if "rid \<noteq> ''''"
  proof -
    have "UpdateRoute e rid r st = (Inr v, st')" using assms(1) that by (simp add: sync_route_def)
    from routes.modify_ok [OF this] obtain old where "map_of (st_routes st) rid = Some old" "r_ID v = r_ID old" by blast
    moreover have "table_ok r_ID r_Name (st_routes st)" using assms(2) [OF that] by (simp add: wf_store_def)
    ultimately show ?thesis by (simp add: table_ok_def)
  qed
  then show "rid \<noteq> '''' \<Longrightarrow> r_ID v = rid" .
  show "map_of (st_routes st') (r_ID v) = Some v"
  proof (cases "rid = ''''")
    case True
    with assms(1) have "CreateRoute e r st = (Inr v, st')" by (simp add: sync_route_def)
    from routes.create_ok [OF this] show ?thesis by simp
  next
    case False
    with assms(1) have "UpdateRoute e rid r st = (Inr v, st')" by (simp add: sync_route_def)
    from routes.modify_lookup [OF this] upd [OF False] show ?thesis by simp
  qed
qed

section \<open>The properties\<close>

text \<open>
  A reconciliation carries out exactly one operation of the store: for a live route resource whose
  upstream is known, over a working connection to the gateway, the store afterwards is the one after a
  create, or an update when the resource has an identifier, of the route that the resource describes. The
  reconciliation succeeds exactly when that operation and the write of the status do, and then the store
  holds, under the identifier that the status was given, the described route with its times.
\<close>
theorem route_reconcile_syncs:
  assumes "kc_Get kc ns nm k = Inr cr" and "om_DeletionTimestamp (gr_Meta cr) = None"
    and "ku_ContainsFinalizer ku (om_Finalizers (gr_Meta cr)) routeFinalizer" and "resolveUpstreamID ku kcu cr k = Inr uid"
    and "trusted E c" and "al = \<lparr> al_Client = c, al_enc = en, al_link = Link_up, al_server = admin_ServeHTTP E av dc Sum256 ticks ui \<rparr>"
    and "en_Route en (sent_route cr uid) = Some d" and "length d \<le> max_body" and "dc_Route dc d = Some (sent_route cr uid)"
    and "wf_store (ad_store s)"
    and "sync_route (ae_store av) (rt_RouteID (gr_Status cr)) (sent_route cr uid) (ad_store s) = (res, st')"
    and "route_Reconcile ku kc kcu al ns nm (k, s) = (err, k', s')"
  shows "s' = s\<lparr> ad_store := st' \<rparr> \<and>
    (err = None \<longleftrightarrow> (\<exists>r. res = Inr r \<and> fst (kc_StatusUpdate kc (synced_route ku cr (r_ID r)) k) = None)) \<and>
    (\<forall>r. res = Inr r \<longrightarrow> map_of (st_routes st') (r_ID r) = Some r \<and> (rt_RouteID (gr_Status cr) \<noteq> '''' \<longrightarrow> r_ID r = rt_RouteID (gr_Status cr)) \<and>
      r = (desired_route cr uid)\<lparr> r_ID := r_ID r, r_CreatedAt := r_CreatedAt r, r_UpdatedAt := env_now (ae_store av) \<rparr>)"
proof (intro conjI allI impI)
  from route_upsert_call [OF assms(4,5,6,7,8,9,11), of kc] obtain msg where up: "route_handleUpsert ku kc kcu al cr (k, s) =
    (let (e, k1) = (case res of
         Inl err \<Rightarrow> route_setCondition ku kc cr ''Ready'' ''False'' ''SyncFailed'' msg k
       | Inr r \<Rightarrow> route_setCondition ku kc (cr\<lparr> gr_Status := (gr_Status cr)\<lparr> rt_RouteID := r_ID r \<rparr> \<rparr>) ''Ready'' ''True'' ''Synced''
           (''route '' @ r_ID r @ '' synced'') k)
     in (e, k1, s\<lparr> ad_store := st' \<rparr>))" by (elim exE)
  note out = assms(12) [unfolded route_reconcile_upsert [OF assms(1-3)] up]
  show "s' = s\<lparr> ad_store := st' \<rparr>" using out by (simp split: prod.splits)
  show "err = None \<longleftrightarrow> (\<exists>r. res = Inr r \<and> fst (kc_StatusUpdate kc (synced_route ku cr (r_ID r)) k) = None)"
  proof (cases res)
    case (Inl x)
    obtain e k1 where "route_setCondition ku kc cr ''Ready'' ''False'' ''SyncFailed'' msg k = (Some e, k1)" by (rule failed_condition)
    with out Inl show ?thesis by auto
  next
    case (Inr r)
    then have "(map_option KubeError (fst (kc_StatusUpdate kc (synced_route ku cr (r_ID r)) k)),
        snd (snd (kc_StatusUpdate kc (synced_route ku cr (r_ID r)) k)), s\<lparr> ad_store := st' \<rparr>) = (err, k', s')"
      using out unfolding Inr sum.case route_setCondition_ready by (simp only: Let_def prod.case)
    with Inr show ?thesis by auto
  qed
next
  fix r
  assume "res = Inr r"
  note stored = sync_route_stored [OF assms(11) [unfolded this] assms(10)]
  show "map_of (st_routes st') (r_ID r) = Some r" by (rule stored(1))
  show "rt_RouteID (gr_Status cr) \<noteq> '''' \<Longrightarrow> r_ID r = rt_RouteID (gr_Status cr)" by (rule stored(2))
  have "(sent_route cr uid)\<lparr> r_ID := i, r_CreatedAt := t, r_UpdatedAt := u \<rparr> = (desired_route cr uid)\<lparr> r_ID := i, r_CreatedAt := t, r_UpdatedAt := u \<rparr>" for i t u
    by (simp add: sent_route_def)
  with stored(3) show "r = (desired_route cr uid)\<lparr> r_ID := r_ID r, r_CreatedAt := r_CreatedAt r, r_UpdatedAt := env_now (ae_store av) \<rparr>" by metis
qed

text \<open>
  C37. Deleting a resource whose object has gone never ends: when a route was deleted through the admin API and
  its resource is deleted afterwards, every reconciliation fails, in whatever circumstances of network,
  credentials, clock and disk, and changes neither the cluster nor the gateway, so that the finalizer stays
  and the resource is never removed. The same holds for upstreams and policies.
\<close>
theorem orphan_deletion_never_ends:
  fixes ks :: "'k \<times> 'f admin" and als :: "'f admin admin_link list"
  assumes "\<forall>al \<in> set als. gateway_link al" and "gateway_link al"
  shows "(route_orphan ku kr ns nm ks \<longrightarrow>
      snd (retries (\<lambda>al. route_Reconcile ku kr kcu al ns nm) als ks) = snd ks \<and>
      (\<exists>err. fst (route_Reconcile ku kr kcu al ns nm (retries (\<lambda>al. route_Reconcile ku kr kcu al ns nm) als ks)) = Some err)) \<and>
    (upstream_orphan ku kcu ns nm ks \<longrightarrow>
      snd (retries (\<lambda>al. upstream_Reconcile ku kcu al ns nm) als ks) = snd ks \<and>
      (\<exists>err. fst (upstream_Reconcile ku kcu al ns nm (retries (\<lambda>al. upstream_Reconcile ku kcu al ns nm) als ks)) = Some err)) \<and>
    (policy_orphan ku kp ns nm ks \<longrightarrow>
      snd (retries (\<lambda>al. policy_Reconcile ku kp al ns nm) als ks) = snd ks \<and>
      (\<exists>err. fst (policy_Reconcile ku kp al ns nm (retries (\<lambda>al. policy_Reconcile ku kp al ns nm) als ks)) = Some err))"
  using route_deletion.never_succeeds [OF _ assms] upstream_deletion.never_succeeds [OF _ assms] policy_deletion.never_succeeds [OF _ assms] by blast

text \<open>
  A create whose status write is lost is never repaired: a resource without an identifier whose name is
  taken in the store, as it is after that loss, fails at every reconciliation, and the store is never changed
  again. The operator does not look for the route that it created.
\<close>
theorem lost_status_never_repaired:
  fixes ks :: "'k \<times> 'f admin" and als :: "'f admin admin_link list"
  assumes "route_unclaimed ku kc ns nm ks" and "\<forall>al \<in> set als. naming_link nm al" and "naming_link nm al"
  shows "snd (retries (\<lambda>al. route_Reconcile ku kc kcu al ns nm) als ks) = snd ks \<and>
    (\<exists>err. fst (route_Reconcile ku kc kcu al ns nm (retries (\<lambda>al. route_Reconcile ku kc kcu al ns nm) als ks)) = Some err)"
  using assms by (rule route_creation.never_succeeds)


section \<open>The properties at work\<close>

text \<open>A cluster with one route resource and one upstream resource, and a gateway whose store has the upstream.\<close>

definition sample_util :: kube_util where
  "sample_util = \<lparr> ku_ContainsFinalizer = (\<lambda>fs f. f \<in> set fs), ku_AddFinalizer = (\<lambda>fs f. if f \<in> set fs then fs else fs @ [f]),
     ku_RemoveFinalizer = (\<lambda>fs f. filter (\<lambda>x. x \<noteq> f) fs), ku_SetStatusCondition = (\<lambda>cs c. filter (\<lambda>x. cd_Type x \<noteq> cd_Type c) cs @ [c]),
     ku_IgnoreNotFound = (\<lambda>e. if e = Kube_NotFound then None else Some e), ku_Error = (\<lambda>_. ''error''), ku_cause = (\<lambda>_. ''error'') \<rparr>"

definition sample_routes :: "(GatewayRoute, GatewayRoute \<times> GatewayUpstream) kube_client" where
  "sample_routes = \<lparr> kc_Get = (\<lambda>ns nm k. Inr (fst k)), kc_Update = (\<lambda>cr k. (None, cr, (cr, snd k))),
     kc_StatusUpdate = (\<lambda>cr k. (None, (fst k)\<lparr> gr_Status := gr_Status cr \<rparr>, ((fst k)\<lparr> gr_Status := gr_Status cr \<rparr>, snd k))) \<rparr>"

definition sample_upstreams :: "(GatewayUpstream, GatewayRoute \<times> GatewayUpstream) kube_client" where
  "sample_upstreams = \<lparr> kc_Get = (\<lambda>ns nm k. Inr (snd k)), kc_Update = (\<lambda>cr k. (None, cr, (fst k, cr))),
     kc_StatusUpdate = (\<lambda>cr k. (None, cr, (fst k, cr))) \<rparr>"

definition sample_meta :: "string \<Rightarrow> int option \<Rightarrow> string \<Rightarrow> ObjectMeta" where
  "sample_meta nm del f = \<lparr> om_Name = nm, om_Namespace = ''default'', om_Generation = 1, om_DeletionTimestamp = del,
     om_Finalizers = [f], om_ResourceVersion = ''1'' \<rparr>"

definition sample_cr :: "int option \<Rightarrow> string \<Rightarrow> GatewayRoute" where
  "sample_cr del rid = \<lparr> gr_Meta = sample_meta ''web'' del ''helix.io/route'',
     gr_Spec = \<lparr> rs_Active = True, rs_Match = \<lparr> cm_Hosts = [], cm_Path = ''/'', cm_PathMode = '''', cm_Methods = [], cm_Headers = [] \<rparr>,
       rs_UpstreamRef = ''api'', rs_Plugins = [], rs_StripPath = False \<rparr>,
     gr_Status = \<lparr> rt_RouteID = rid, rt_Conditions = [] \<rparr> \<rparr>"

definition sample_upstream_cr :: GatewayUpstream where
  "sample_upstream_cr = \<lparr> gu_Meta = sample_meta ''api'' None ''helix.io/upstream'', gu_Spec = \<lparr> us_URL = ''http://a'', us_HealthPath = '''' \<rparr>,
     gu_Status = \<lparr> ut_UpstreamID = ''u'', ut_Health = '''', ut_Conditions = [] \<rparr> \<rparr>"

definition sample_encoders :: "Route \<Rightarrow> encoders" where
  "sample_encoders r = \<lparr> en_Route = (\<lambda>x. if x = r then Some ''r'' else None), en_Upstream = (\<lambda>_. None), en_Policy = (\<lambda>_. None) \<rparr>"

definition sample_link :: "Route \<Rightarrow> unit admin admin_link" where
  "sample_link r = \<lparr> al_Client = \<lparr> cl_user = '''', cl_pass = '''', cl_addr = '''' \<rparr>, al_enc = sample_encoders r, al_link = Link_up,
     al_server = admin_ServeHTTP (\<lambda>_. '''') (sample_admin_env\<lparr> ae_store := sample_env ''r1'' IO_ok \<rparr>)
       (sample_decoders\<lparr> dc_Route := (\<lambda>b. if b = ''r'' then Some r else None) \<rparr>) (\<lambda>x. x) [] (\<lambda>_. (200, [], '''')) \<rparr>"

lemma sample_with_upstream_wf: "wf_store sample_with_upstream"
  unfolding sample_with_upstream_def using reachable_ok [OF operation [OF sample_reachable sample_good]] by blast

lemma sample_cr_fields [simp]:
  "om_Name (gr_Meta (sample_cr del rid)) = ''web''" "om_DeletionTimestamp (gr_Meta (sample_cr del rid)) = del"
  "rt_RouteID (gr_Status (sample_cr del rid)) = rid"
  by (simp_all add: sample_cr_def sample_meta_def)

lemma sample_resolves: "resolveUpstreamID sample_util sample_upstreams (sample_cr del rid) (cr, sample_upstream_cr) = Inr ''u''"
  by (simp add: resolveUpstreamID_def sample_upstreams_def sample_upstream_cr_def Let_def)

lemma sample_held: "ku_ContainsFinalizer sample_util (om_Finalizers (gr_Meta (sample_cr del rid))) routeFinalizer"
  by (simp add: sample_util_def sample_cr_def sample_meta_def routeFinalizer_def)

theorem route_reconcile_syncs_witness:
  "\<exists>k' s' r. route_Reconcile sample_util sample_routes sample_upstreams (sample_link (sent_route (sample_cr None '''') ''u'')) ''default'' ''web''
       ((sample_cr None '''', sample_upstream_cr), sample_admin\<lparr> ad_store := sample_with_upstream \<rparr>) = (None, k', s') \<and>
     map_of (st_routes (ad_store s')) ''r1'' = Some r \<and> r_Name r = ''web''"
proof -
  let ?cr = "sample_cr None ''''" and ?e = "sample_env ''r1'' IO_ok"
  let ?r = "sent_route ?cr ''u''" and ?k = "(sample_cr None '''', sample_upstream_cr)" and ?s = "sample_admin\<lparr> ad_store := sample_with_upstream \<rparr>"
  have name: "r_Name ?r = ''web''" "r_UpstreamID ?r = ''u''"
    by (simp_all add: sent_route_def desired_route_def Let_def)
  have st: "st_routes sample_with_upstream = []" "map_of (st_upstreams sample_with_upstream) ''u'' \<noteq> None"
    by (simp_all add: sample_with_upstream_def sample_defs CreateUpstream_def persist_def Let_def notify_def)
  have "\<exists>v st'. sync_route ?e (rt_RouteID (gr_Status ?cr)) ?r sample_with_upstream = (Inr v, st') \<and> r_ID v = ''r1'' \<and> r_Name v = ''web''"
    using st name by (simp add: sync_route_def CreateRoute_def persist_def sample_env_def Let_def)
  then obtain v st' where sync: "sync_route ?e (rt_RouteID (gr_Status ?cr)) ?r sample_with_upstream = (Inr v, st')" "r_ID v = ''r1''" "r_Name v = ''web''"
    by blast
  obtain err k' s' where out: "route_Reconcile sample_util sample_routes sample_upstreams (sample_link ?r) ''default'' ''web'' (?k, ?s) = (err, k', s')"
    by (metis prod_cases3)
  have "s' = ?s\<lparr> ad_store := st' \<rparr> \<and> (err = None \<longleftrightarrow> (\<exists>r. Inr v = (Inr r :: store_err + Route) \<and>
      fst (kc_StatusUpdate sample_routes (synced_route sample_util ?cr (r_ID r)) ?k) = None)) \<and>
    (\<forall>r. Inr v = (Inr r :: store_err + Route) \<longrightarrow> map_of (st_routes st') (r_ID r) = Some r \<and> (rt_RouteID (gr_Status ?cr) \<noteq> '''' \<longrightarrow>
      r_ID r = rt_RouteID (gr_Status ?cr)) \<and> r = (desired_route ?cr ''u'')\<lparr> r_ID := r_ID r, r_CreatedAt := r_CreatedAt r,
        r_UpdatedAt := env_now (ae_store (sample_admin_env\<lparr> ae_store := ?e \<rparr>)) \<rparr>)"
    by (rule route_reconcile_syncs [OF _ _ sample_held sample_resolves _ sample_link_def _ _ _ _ _ out, where d = "''r''"])
      (use sync(1) in \<open>simp_all add: sample_routes_def trusted_def sample_encoders_def max_body_def sample_with_upstream_wf\<close>)
  then show ?thesis using out sync(2,3) by (intro exI [of _ k'] exI [of _ s'] exI [of _ v]) (auto simp: sample_routes_def)
qed


lemma sample_gateway_link: "gateway_link (sample_link r)"
  unfolding gateway_link_def sample_link_def admin_link.simps by (intro exI) (rule refl)

lemma sample_naming_link: "r_Name r = ''web'' \<Longrightarrow> naming_link ''web'' (sample_link r)"
  unfolding naming_link_def sample_link_def admin_link.simps
  by (intro exI conjI) (rule refl, simp add: sample_encoders_def split: if_splits)

definition no_policies :: "(HelixIPPolicy, GatewayRoute \<times> GatewayUpstream) kube_client" where
  "no_policies = \<lparr> kc_Get = (\<lambda>ns nm k. Inl Kube_NotFound), kc_Update = (\<lambda>cr k. (Some Kube_NotFound, cr, k)),
     kc_StatusUpdate = (\<lambda>cr k. (Some Kube_NotFound, cr, k)) \<rparr>"

theorem orphan_deletion_never_ends_witness:
  "\<exists>err. fst (route_Reconcile sample_util sample_routes sample_upstreams (sample_link zero_route) ''default'' ''web''
     (retries (\<lambda>al. route_Reconcile sample_util sample_routes sample_upstreams al ''default'' ''web'') [sample_link zero_route, sample_link sample_route]
       ((sample_cr (Some 5) ''gone'', sample_upstream_cr), sample_admin))) = Some err"
proof -
  have "route_orphan sample_util sample_routes ''default'' ''web'' ((sample_cr (Some 5) ''gone'', sample_upstream_cr), sample_admin)"
    unfolding route_orphan_def using sample_held [of "Some 5" "''gone''"]
    by (intro exI [of _ "sample_cr (Some 5) ''gone''"]) (simp add: sample_routes_def sample_admin_def sample_store_def empty_store_def)
  moreover have "\<forall>al \<in> set [sample_link zero_route, sample_link sample_route]. gateway_link al" by (simp add: sample_gateway_link)
  note orphan_deletion_never_ends [OF this sample_gateway_link, of sample_util sample_routes "''default''" "''web''"
      "((sample_cr (Some 5) ''gone'', sample_upstream_cr), sample_admin)" sample_upstreams zero_route no_policies]
  ultimately show ?thesis by blast
qed

theorem lost_status_never_repaired_witness:
  "\<exists>err. fst (route_Reconcile sample_util sample_routes sample_upstreams (sample_link (zero_route\<lparr> r_Name := ''web'' \<rparr>)) ''default'' ''web''
     (retries (\<lambda>al. route_Reconcile sample_util sample_routes sample_upstreams al ''default'' ''web'') [sample_link (zero_route\<lparr> r_Name := ''web'' \<rparr>)]
       ((sample_cr None '''', sample_upstream_cr), sample_admin\<lparr> ad_store := sample_store\<lparr> st_routes := [(''r1'', sample_route\<lparr> r_Name := ''web'' \<rparr>)] \<rparr> \<rparr>))) = Some err"
proof -
  have "status_writes sample_routes" by (simp add: status_writes_def sample_routes_def)
  then have "route_unclaimed sample_util sample_routes ''default'' ''web'' ((sample_cr None '''', sample_upstream_cr),
      sample_admin\<lparr> ad_store := sample_store\<lparr> st_routes := [(''r1'', sample_route\<lparr> r_Name := ''web'' \<rparr>)] \<rparr> \<rparr>)"
    unfolding route_unclaimed_def using sample_held [of None "''''"] by (simp add: sample_routes_def)
  from lost_status_never_repaired [OF this _ sample_naming_link, where als = "[sample_link (zero_route\<lparr> r_Name := ''web'' \<rparr>)]"]
  show ?thesis by (simp add: sample_naming_link)
qed


end
