(* ===== verification/Operator_Process.thy ===== *)
theory Operator_Process
  imports Operator_Correct
begin

text \<open>
  The operator as a process, \<open>cmd/operator/main.go\<close>: its flags with defaults from the environment, the admin
  client it makes of them (\<open>client.New\<close>, and \<open>Stream\<close>, the one call that bypasses \<open>do\<close>), the registration of the
  resource types and the controllers, and the order of its start-up. Then what the reconcilers of upstreams and
  policies leave in the store, as \<open>Operator_Correct\<close> shows it for routes.

  Outside code is a parameter: which flags were given, and whether each set-up call of controller-runtime works.
\<close>

section \<open>Flags and client\<close>

definition op_envOrDefault :: "environment \<Rightarrow> string \<Rightarrow> string \<Rightarrow> string" where
  "op_envOrDefault E key def = (let v = E key in if v \<noteq> '''' then v else def)"

record operator_options =
  fl_metricsAddr :: string
  fl_probeAddr :: string
  fl_leaderElect :: bool
  fl_adminURL :: string
  fl_adminUser :: string
  fl_adminPass :: string

text \<open>\<open>given\<close>: the value of each string flag on the command line; \<open>elect\<close>: that of \<open>leader-elect\<close>.\<close>

definition operator_flags :: "environment \<Rightarrow> (string \<rightharpoonup> string) \<Rightarrow> bool option \<Rightarrow> operator_options" where
  "operator_flags E given elect =
     (let flag = (\<lambda>name def. case given name of Some v \<Rightarrow> v | None \<Rightarrow> def)
      in \<lparr> fl_metricsAddr = flag ''metrics-bind-address'' '':8080'',
           fl_probeAddr = flag ''health-probe-bind-address'' '':8081'',
           fl_leaderElect = (case elect of Some v \<Rightarrow> v | None \<Rightarrow> True),
           fl_adminURL = flag ''admin-url'' (op_envOrDefault E ''HELIX_ADMIN_URL'' ''http://helix-gateway:9090''),
           fl_adminUser = flag ''admin-user'' (op_envOrDefault E ''HELIX_ADMIN_USER'' ''admin''),
           fl_adminPass = flag ''admin-password'' (E ''HELIX_ADMIN_PASSWORD'') \<rparr>)"

text \<open>
  The base URL selects the server, which is an argument of every call in this model; \<open>addr\<close> is the address from
  which the client connects.
\<close>

definition client_New :: "string \<Rightarrow> string \<Rightarrow> string \<Rightarrow> string \<Rightarrow> Client" where
  "client_New addr baseURL user pass = \<lparr> cl_user = user, cl_pass = pass, cl_addr = addr \<rparr>"

text \<open>\<open>Stream\<close> hands out the response as it is, whatever its status.\<close>

definition client_Stream :: "Client \<Rightarrow> link \<Rightarrow> 's server \<Rightarrow> string list \<Rightarrow> 's \<Rightarrow> admin_resp option \<times> 's" where
  "client_Stream c l srv segs s = hc_Do l srv (client_request c ''GET'' segs '''') s"

definition operator_client :: "string \<Rightarrow> operator_options \<Rightarrow> Client" where
  "operator_client addr fl = client_New addr (fl_adminURL fl) (fl_adminUser fl) (fl_adminPass fl)"

section \<open>Start-up\<close>

text \<open>The kinds that \<open>addKnownTypes\<close> adds to the scheme of the API group.\<close>

definition known_types :: "string list" where
  "known_types = [''GatewayRoute'', ''GatewayRouteList'', ''GatewayUpstream'', ''GatewayUpstreamList'', ''HelixIPPolicy'', ''HelixIPPolicyList'']"

definition addKnownTypes :: "string list \<Rightarrow> string list" where
  "addKnownTypes scheme = scheme @ known_types"

text \<open>
  \<open>SetupWithManager\<close> of the three reconcilers. \<open>Complete\<close> is the builder of controller-runtime: it adds the
  controller for one kind, which has to be in the scheme, unless setting it up fails.
\<close>

definition Complete :: "(string \<Rightarrow> bool) \<Rightarrow> string list \<Rightarrow> string \<Rightarrow> string list \<Rightarrow> string list option" where
  "Complete completes scheme kind controllers =
     (if kind \<in> set scheme \<and> completes kind then Some (controllers @ [kind]) else None)"

definition upstream_SetupWithManager :: "(string \<Rightarrow> bool) \<Rightarrow> string list \<Rightarrow> string list \<Rightarrow> string list option" where
  "upstream_SetupWithManager completes scheme = Complete completes scheme ''GatewayUpstream''"

definition route_SetupWithManager :: "(string \<Rightarrow> bool) \<Rightarrow> string list \<Rightarrow> string list \<Rightarrow> string list option" where
  "route_SetupWithManager completes scheme = Complete completes scheme ''GatewayRoute''"

definition policy_SetupWithManager :: "(string \<Rightarrow> bool) \<Rightarrow> string list \<Rightarrow> string list \<Rightarrow> string list option" where
  "policy_SetupWithManager completes scheme = Complete completes scheme ''HelixIPPolicy''"

datatype operator_exit = Exit_manager | Exit_controller string | Exit_check string | Exit_start | Finished

text \<open>
  What the calls of controller-runtime do: making the manager, completing a controller, adding a check, running.
\<close>

record operator_env =
  oe_manager :: bool
  oe_complete :: "string \<Rightarrow> bool"
  oe_check :: "string \<Rightarrow> bool"
  oe_start :: bool

text \<open>The set-up calls of \<open>main\<close> in turn, each with the controller that its error message names.\<close>

fun setup_controllers :: "(string \<times> (string list \<Rightarrow> string list option)) list \<Rightarrow> string list \<Rightarrow> operator_exit + string list" where
  "setup_controllers [] cs = Inr cs"
| "setup_controllers ((k, setup) # ks) cs = (case setup cs of None \<Rightarrow> Inl (Exit_controller k) | Some cs' \<Rightarrow> setup_controllers ks cs')"

text \<open>\<open>main\<close>: how it ends, and the controllers that ran; every end but \<open>Finished\<close> is an exit with status 1.\<close>

definition operator_main :: "operator_env \<Rightarrow> string list \<Rightarrow> operator_exit \<times> string list" where
  "operator_main oe clientgo =
     (let scheme = addKnownTypes clientgo
      in if \<not> oe_manager oe then (Exit_manager, [])
         else case setup_controllers
                [(''GatewayUpstream'', upstream_SetupWithManager (oe_complete oe) scheme),
                 (''GatewayRoute'', route_SetupWithManager (oe_complete oe) scheme),
                 (''HelixIPPolicy'', policy_SetupWithManager (oe_complete oe) scheme)] [] of
                Inl e \<Rightarrow> (e, [])
              | Inr cs \<Rightarrow>
                  if \<not> oe_check oe ''healthz'' then (Exit_check ''healthz'', [])
                  else if \<not> oe_check oe ''readyz'' then (Exit_check ''readyz'', [])
                  else (if oe_start oe then Finished else Exit_start, cs))"

text \<open>All three controllers run, or none.\<close>

lemma operator_controllers:
  "snd (operator_main oe clientgo) =
     (if oe_manager oe \<and> (\<forall>k \<in> {''GatewayUpstream'', ''GatewayRoute'', ''HelixIPPolicy''}. oe_complete oe k) \<and>
         oe_check oe ''healthz'' \<and> oe_check oe ''readyz''
      then [''GatewayUpstream'', ''GatewayRoute'', ''HelixIPPolicy''] else [])"
  by (simp add: operator_main_def upstream_SetupWithManager_def route_SetupWithManager_def policy_SetupWithManager_def Complete_def
      addKnownTypes_def known_types_def Let_def)

section \<open>Credentials\<close>

text \<open>
  The operator reaches the gateway it was deployed with. With the environment of the gateway and no flags, the
  client of the operator has the credentials that the admin server of that gateway takes. A flag changes that: with
  a password set, the server takes exactly the client whose user and password flags, or the environment behind
  them, give its own.
\<close>
theorem operator_credentials:
  "trusted E (operator_client addr (operator_flags E Map.empty elect)) \<and>
   (E ''HELIX_ADMIN_PASSWORD'' \<noteq> '''' \<longrightarrow>
     (trusted E (operator_client addr (operator_flags E given elect)) \<longleftrightarrow>
       (case given ''admin-user'' of None \<Rightarrow> True | Some u \<Rightarrow> u = env E ''HELIX_ADMIN_USER'' ''admin'') \<and>
       (case given ''admin-password'' of None \<Rightarrow> True | Some p \<Rightarrow> p = E ''HELIX_ADMIN_PASSWORD'')))"
  by (auto simp: trusted_def operator_client_def client_New_def operator_flags_def op_envOrDefault_def env_def Let_def split: option.split)

theorem operator_credentials_witness:
  "\<not> trusted (\<lambda>k. if k = ''HELIX_ADMIN_PASSWORD'' then ''s3'' else '''')
     (operator_client ''10.0.0.7'' (operator_flags (\<lambda>k. if k = ''HELIX_ADMIN_PASSWORD'' then ''s3'' else '''') [''admin-user'' \<mapsto> ''op''] None))"
  using operator_credentials [of "\<lambda>k. if k = ''HELIX_ADMIN_PASSWORD'' then ''s3'' else ''''" "''10.0.0.7''" None "[''admin-user'' \<mapsto> ''op'']"]
  by (simp add: env_def)

section \<open>Upstreams\<close>

definition sent_upstream :: "GatewayUpstream \<Rightarrow> Upstream" where
  "sent_upstream cr = (desired_upstream cr)\<lparr> u_ID := ut_UpstreamID (gu_Status cr) \<rparr>"

definition synced_upstream :: "kube_util \<Rightarrow> GatewayUpstream \<Rightarrow> string \<Rightarrow> GatewayUpstream" where
  "synced_upstream ku cr rid = cr\<lparr> gu_Status := (gu_Status cr)\<lparr> ut_UpstreamID := rid,
     ut_Conditions := ku_SetStatusCondition ku (ut_Conditions (gu_Status cr))
       (condition (gu_Meta cr) ''Ready'' ''True'' ''Synced'' (''upstream '' @ rid @ '' synced'')) \<rparr> \<rparr>"

definition sync_upstream :: "store_env \<Rightarrow> string \<Rightarrow> Upstream \<Rightarrow> store \<Rightarrow> (store_err + Upstream) \<times> store" where
  "sync_upstream e rid u st = (if rid = '''' then CreateUpstream e u st else UpdateUpstream e rid u st)"

lemma sent_upstream_create: "ut_UpstreamID (gu_Status cr) = '''' \<Longrightarrow> sent_upstream cr = desired_upstream cr"
  by (simp add: sent_upstream_def desired_upstream_def zero_upstream_def)

lemma upstream_setCondition_ready:
  "upstream_setCondition ku kc (cr\<lparr> gu_Status := (gu_Status cr)\<lparr> ut_UpstreamID := rid \<rparr> \<rparr>) ''Ready'' ''True'' ''Synced'' (''upstream '' @ rid @ '' synced'') k =
     (map_option KubeError (fst (kc_StatusUpdate kc (synced_upstream ku cr rid) k)), snd (snd (kc_StatusUpdate kc (synced_upstream ku cr rid) k)))"
  by (auto simp: upstream_setCondition_def synced_upstream_def Let_def split: prod.split option.split)

lemma upstream_condition_failed:
  "\<exists>e k1. upstream_setCondition ku kc cr ''Ready'' ''False'' reason msg k = (Some e, k1)"
  by (auto simp: upstream_setCondition_def Let_def split: prod.split option.split)

lemma upstream_upsert_call:
  assumes "trusted E c" and "al = \<lparr> al_Client = c, al_enc = en, al_link = Link_up, al_server = admin_ServeHTTP E av dc Sum256 ticks ui \<rparr>"
    and "en_Upstream en (sent_upstream cr) = Some d" and "length d \<le> max_body" and "dc_Upstream dc d = Some (sent_upstream cr)"
    and "sync_upstream (ae_store av) (ut_UpstreamID (gu_Status cr)) (sent_upstream cr) (ad_store s) = (res, st')"
  shows "\<exists>msg. upstream_handleUpsert ku kc al cr (k, s) =
    (let (e, k1) = (case res of
         Inl err \<Rightarrow> upstream_setCondition ku kc cr ''Ready'' ''False'' ''SyncFailed'' msg k
       | Inr r \<Rightarrow> upstream_setCondition ku kc (cr\<lparr> gu_Status := (gu_Status cr)\<lparr> ut_UpstreamID := u_ID r \<rparr> \<rparr>) ''Ready'' ''True'' ''Synced''
           (''upstream '' @ u_ID r @ '' synced'') k)
     in (e, k1, s\<lparr> ad_store := st' \<rparr>))"
proof (cases "ut_UpstreamID (gu_Status cr) = ''''")
  case True
  with assms show ?thesis using client_create_upstream [OF assms(1,3,4,5), of av Sum256 ticks ui s]
    by (cases res) (auto simp: upstream_handleUpsert_def sync_upstream_def sent_upstream_create Let_def)
next
  case False
  with assms show ?thesis using client_update_upstream [OF assms(1,3,4,5) False, of av Sum256 ticks ui s]
    by (cases res) (auto simp: upstream_handleUpsert_def sync_upstream_def sent_upstream_def Let_def)
qed

text \<open>What a successful create or update stores.\<close>

lemma sync_upstream_stored:
  assumes "sync_upstream e rid u st = (Inr v, st')" and "wf_store st"
  shows "map_of (st_upstreams st') (u_ID v) = Some v \<and> (rid \<noteq> '''' \<longrightarrow> u_ID v = rid) \<and>
    v = u\<lparr> u_ID := u_ID v, u_CreatedAt := u_CreatedAt v, u_UpdatedAt := env_now e \<rparr>"
proof -
  have ids: "map_of (st_upstreams st) k = Some old \<Longrightarrow> u_ID old = k" for k old using assms(2) by (auto simp: wf_store_def table_ok_def)
  show ?thesis
  proof (cases "rid = ''''")
    case True
    with assms(1) have c: "CreateUpstream e u st = (Inr v, st')" by (simp add: sync_upstream_def)
    then have "v = u\<lparr> u_ID := env_uuid e, u_CreatedAt := env_now e, u_UpdatedAt := env_now e \<rparr>"
      by (auto simp: CreateUpstream_def Let_def split: if_splits option.splits prod.splits)
    with True upstreams.create_ok [OF c] show ?thesis by (simp add: Upstream.equality)
  next
    case False
    with assms(1) have m: "UpdateUpstream e rid u st = (Inr v, st')" by (simp add: sync_upstream_def)
    then have "v = u\<lparr> u_ID := u_ID v, u_CreatedAt := u_CreatedAt v, u_UpdatedAt := env_now e \<rparr>"
      by (auto simp: UpdateUpstream_def Let_def split: if_splits option.splits prod.splits)
    moreover from upstreams.modify_ok [OF m] ids have "u_ID v = rid" by auto
    ultimately show ?thesis using upstreams.modify_lookup [OF m] by simp
  qed
qed

lemma stamped_upstream:
  assumes "v = u\<lparr> u_ID := i, u_CreatedAt := a, u_UpdatedAt := b \<rparr>"
  shows "u_Name v = u_Name u \<and> u_URL v = u_URL u \<and> u_HealthPath v = u_HealthPath u \<and> u_Endpoints v = u_Endpoints u \<and>
    u_LBAlgorithm v = u_LBAlgorithm u \<and> u_Protocol v = u_Protocol u"
  by (simp add: assms)

text \<open>
  C36. Reconciling an upstream is one operation of the store, and resets its load balancing. For a live upstream
  resource, over a working connection to the gateway, the store afterwards is the one after a create, or an update
  when the resource has an identifier, of what the resource describes; the reconciliation succeeds exactly when
  that operation and the write of the status do. The upstream that is then stored has the name, URL and health
  path of the resource and nothing else: endpoints, algorithm and protocol that were set through the admin API
  are gone, so that the router balances this upstream no longer.
\<close>
theorem upstream_reconcile_syncs:
  assumes "kc_Get kc ns nm k = Inr cr" and "om_DeletionTimestamp (gu_Meta cr) = None"
    and "ku_ContainsFinalizer ku (om_Finalizers (gu_Meta cr)) upstreamFinalizer"
    and "trusted E c" and "al = \<lparr> al_Client = c, al_enc = en, al_link = Link_up, al_server = admin_ServeHTTP E av dc Sum256 ticks ui \<rparr>"
    and "en_Upstream en (sent_upstream cr) = Some d" and "length d \<le> max_body" and "dc_Upstream dc d = Some (sent_upstream cr)"
    and "wf_store (ad_store s)"
    and "sync_upstream (ae_store av) (ut_UpstreamID (gu_Status cr)) (sent_upstream cr) (ad_store s) = (res, st')"
    and "upstream_Reconcile ku kc al ns nm (k, s) = (err, k', s')"
  shows "s' = s\<lparr> ad_store := st' \<rparr> \<and>
    (err = None \<longleftrightarrow> (\<exists>u. res = Inr u \<and> fst (kc_StatusUpdate kc (synced_upstream ku cr (u_ID u)) k) = None)) \<and>
    (\<forall>u. res = Inr u \<longrightarrow> map_of (st_upstreams st') (u_ID u) = Some u \<and>
      (ut_UpstreamID (gu_Status cr) \<noteq> '''' \<longrightarrow> u_ID u = ut_UpstreamID (gu_Status cr)) \<and>
      u_Name u = om_Name (gu_Meta cr) \<and> u_URL u = us_URL (gu_Spec cr) \<and> u_HealthPath u = us_HealthPath (gu_Spec cr) \<and>
      u_Endpoints u = [] \<and> u_LBAlgorithm u = '''' \<and> u_Protocol u = '''')"
proof (intro conjI allI)
  have rec: "upstream_Reconcile ku kc al ns nm (k, s) = upstream_handleUpsert ku kc al cr (k, s)"
    using assms(1-3) by (simp add: upstream_Reconcile_def)
  from upstream_upsert_call [OF assms(4-8,10), of ku kc k] obtain msg where up: "upstream_handleUpsert ku kc al cr (k, s) =
    (let (e, k1) = (case res of
         Inl err \<Rightarrow> upstream_setCondition ku kc cr ''Ready'' ''False'' ''SyncFailed'' msg k
       | Inr r \<Rightarrow> upstream_setCondition ku kc (cr\<lparr> gu_Status := (gu_Status cr)\<lparr> ut_UpstreamID := u_ID r \<rparr> \<rparr>) ''Ready'' ''True'' ''Synced''
           (''upstream '' @ u_ID r @ '' synced'') k)
     in (e, k1, s\<lparr> ad_store := st' \<rparr>))" by (elim exE)
  note out = assms(11) [unfolded rec up]
  show "s' = s\<lparr> ad_store := st' \<rparr>" using out by (simp split: prod.splits)
  show "err = None \<longleftrightarrow> (\<exists>u. res = Inr u \<and> fst (kc_StatusUpdate kc (synced_upstream ku cr (u_ID u)) k) = None)"
  proof (cases res)
    case (Inl x)
    obtain e k1 where "upstream_setCondition ku kc cr ''Ready'' ''False'' ''SyncFailed'' msg k = (Some e, k1)"
      using upstream_condition_failed [of ku kc cr "''SyncFailed''" msg k] by (elim exE)
    with out Inl show ?thesis by auto
  next
    case (Inr u)
    then have "(map_option KubeError (fst (kc_StatusUpdate kc (synced_upstream ku cr (u_ID u)) k)),
        snd (snd (kc_StatusUpdate kc (synced_upstream ku cr (u_ID u)) k)), s\<lparr> ad_store := st' \<rparr>) = (err, k', s')"
      using out unfolding Inr sum.case upstream_setCondition_ready by (simp only: Let_def prod.case)
    with Inr show ?thesis by auto
  qed
next
  fix u
  show "res = Inr u \<longrightarrow> map_of (st_upstreams st') (u_ID u) = Some u \<and>
      (ut_UpstreamID (gu_Status cr) \<noteq> '''' \<longrightarrow> u_ID u = ut_UpstreamID (gu_Status cr)) \<and>
      u_Name u = om_Name (gu_Meta cr) \<and> u_URL u = us_URL (gu_Spec cr) \<and> u_HealthPath u = us_HealthPath (gu_Spec cr) \<and>
      u_Endpoints u = [] \<and> u_LBAlgorithm u = '''' \<and> u_Protocol u = ''''"
  proof
    assume "res = Inr u"
    note stored = sync_upstream_stored [OF assms(10) [unfolded this] assms(9)]
    with stamped_upstream have "u_Name u = u_Name (sent_upstream cr) \<and> u_URL u = u_URL (sent_upstream cr) \<and>
      u_HealthPath u = u_HealthPath (sent_upstream cr) \<and> u_Endpoints u = u_Endpoints (sent_upstream cr) \<and>
      u_LBAlgorithm u = u_LBAlgorithm (sent_upstream cr) \<and> u_Protocol u = u_Protocol (sent_upstream cr)" by blast
    with stored(1) show "map_of (st_upstreams st') (u_ID u) = Some u \<and>
      (ut_UpstreamID (gu_Status cr) \<noteq> '''' \<longrightarrow> u_ID u = ut_UpstreamID (gu_Status cr)) \<and>
      u_Name u = om_Name (gu_Meta cr) \<and> u_URL u = us_URL (gu_Spec cr) \<and> u_HealthPath u = us_HealthPath (gu_Spec cr) \<and>
      u_Endpoints u = [] \<and> u_LBAlgorithm u = '''' \<and> u_Protocol u = ''''"
      by (intro conjI) (simp_all add: sent_upstream_def desired_upstream_def zero_upstream_def)
  qed
qed

section \<open>The property at work\<close>

text \<open>An upstream of the operator that was given two endpoints through the admin API.\<close>

definition balanced_op :: store_op where
  "balanced_op = UpdateUpstreamOp ''u'' (sample_upstream\<lparr> u_Endpoints := [''http://a'', ''http://b''], u_LBAlgorithm := ''least-conn'' \<rparr>)"

definition balanced_store :: store where
  "balanced_store = snd (run_op (sample_env ''x'' IO_ok) balanced_op sample_with_upstream)"

definition upstream_cluster :: "(GatewayUpstream, GatewayUpstream) kube_client" where
  "upstream_cluster = \<lparr> kc_Get = (\<lambda>ns nm k. Inr k), kc_Update = (\<lambda>cr k. (None, cr, cr)), kc_StatusUpdate = (\<lambda>cr k. (None, cr, cr)) \<rparr>"

definition upstream_link :: "unit admin admin_link" where
  "upstream_link = \<lparr> al_Client = \<lparr> cl_user = '''', cl_pass = '''', cl_addr = '''' \<rparr>,
     al_enc = \<lparr> en_Route = (\<lambda>_. None), en_Upstream = (\<lambda>_. Some ''u''), en_Policy = (\<lambda>_. None) \<rparr>, al_link = Link_up,
     al_server = admin_ServeHTTP (\<lambda>_. '''') (sample_admin_env\<lparr> ae_store := sample_env ''y'' IO_ok \<rparr>)
       (sample_decoders\<lparr> dc_Upstream := (\<lambda>_. Some (sent_upstream sample_upstream_cr)) \<rparr>) (\<lambda>x. x) [] (\<lambda>_. (200, [], '''')) \<rparr>"

lemma balanced_good: "good_env (sample_env ''x'' IO_ok) sample_with_upstream"
  using sample_orders_fair
  by (simp add: good_env_def) (simp add: sample_with_upstream_def sample_defs CreateUpstream_def persist_def Let_def notify_def)

lemma balanced_reachable: "store_reachable balanced_store"
  unfolding balanced_store_def
  by (rule operation [OF _ balanced_good], unfold sample_with_upstream_def, rule operation [OF sample_reachable sample_good])

lemma balanced_upstream:
  "\<exists>old. st_upstreams balanced_store = [(''u'', old)] \<and> u_ID old = ''u'' \<and> u_Endpoints old = [''http://a'', ''http://b'']"
  by (simp add: balanced_store_def balanced_op_def sample_with_upstream_def sample_defs CreateUpstream_def UpdateUpstream_def persist_def Let_def
      notify_def gm_put_def)

theorem upstream_reconcile_syncs_witness:
  "\<exists>k' s' u. upstream_Reconcile sample_util upstream_cluster upstream_link ''default'' ''api''
       (sample_upstream_cr, sample_admin\<lparr> ad_store := balanced_store \<rparr>) = (None, k', s') \<and>
     map_of (st_upstreams (ad_store s')) ''u'' = Some u \<and> u_Endpoints u = []"
proof -
  let ?cr = sample_upstream_cr and ?e = "sample_env ''y'' IO_ok" and ?s = "sample_admin\<lparr> ad_store := balanced_store \<rparr>"
  have rid: "ut_UpstreamID (gu_Status ?cr) = ''u''" by (simp add: sample_upstream_cr_def)
  have held: "ku_ContainsFinalizer sample_util (om_Finalizers (gu_Meta ?cr)) upstreamFinalizer"
    by (simp add: sample_util_def sample_upstream_cr_def sample_meta_def upstreamFinalizer_def)
  have "\<exists>v st'. sync_upstream ?e (ut_UpstreamID (gu_Status ?cr)) (sent_upstream ?cr) balanced_store = (Inr v, st')"
    using balanced_upstream unfolding rid
    by (auto simp: sync_upstream_def UpdateUpstream_def persist_def sample_env_def Let_def)
  then obtain v st' where sync: "sync_upstream ?e (ut_UpstreamID (gu_Status ?cr)) (sent_upstream ?cr) balanced_store = (Inr v, st')" by blast
  obtain err k' s' where out: "upstream_Reconcile sample_util upstream_cluster upstream_link ''default'' ''api'' (?cr, ?s) = (err, k', s')"
    by (metis prod_cases3)
  have wf: "wf_store balanced_store" using reachable_ok [OF balanced_reachable] by simp
  have main: "s' = ?s\<lparr> ad_store := st' \<rparr> \<and>
      (err = None \<longleftrightarrow> (\<exists>u. Inr v = (Inr u :: store_err + Upstream) \<and> fst (kc_StatusUpdate upstream_cluster (synced_upstream sample_util ?cr (u_ID u)) ?cr) = None)) \<and>
      (\<forall>u. Inr v = (Inr u :: store_err + Upstream) \<longrightarrow> map_of (st_upstreams st') (u_ID u) = Some u \<and>
        (ut_UpstreamID (gu_Status ?cr) \<noteq> '''' \<longrightarrow> u_ID u = ut_UpstreamID (gu_Status ?cr)) \<and>
        u_Name u = om_Name (gu_Meta ?cr) \<and> u_URL u = us_URL (gu_Spec ?cr) \<and> u_HealthPath u = us_HealthPath (gu_Spec ?cr) \<and>
        u_Endpoints u = [] \<and> u_LBAlgorithm u = '''' \<and> u_Protocol u = '''')"
    by (rule upstream_reconcile_syncs [OF _ _ held _ upstream_link_def _ _ _ _ _ out, where d = "''u''"])
      (use sync in \<open>simp_all add: upstream_cluster_def sample_upstream_cr_def sample_meta_def trusted_def max_body_def wf\<close>)
  then show ?thesis using out rid by (intro exI [of _ k'] exI [of _ s'] exI [of _ v]) (auto simp: upstream_cluster_def)
qed

end
