(* ===== verification/Control_Plane.thy ===== *)
theory Control_Plane
  imports Hot_Reload Operator_Process
begin

text \<open>
  The control plane as a whole: the admin API in front of the store that the router reloads from, and the operator
  in front of the admin API. The state is that of \<open>Hot_Reload\<close> with the audit log; the admin server works on the
  part of it that \<open>admin.New\<close> is given (the store, the plugin registry, the tracker, the audit log), which the
  locale \<open>part_of\<close> says in general. The steps are requests to the admin server, traffic and the steps of the reloads.
\<close>

section \<open>A server on a part of the state\<close>

definition on_part :: "('s \<Rightarrow> 't) \<Rightarrow> ('t \<Rightarrow> 's \<Rightarrow> 's) \<Rightarrow> 't server \<Rightarrow> 's server" where
  "on_part view put srv q s = (let (resp, t) = srv q (view s) in (resp, put t s))"

definition link_on_part :: "('s \<Rightarrow> 't) \<Rightarrow> ('t \<Rightarrow> 's \<Rightarrow> 's) \<Rightarrow> 't admin_link \<Rightarrow> 's admin_link" where
  "link_on_part view put al =
     \<lparr> al_Client = al_Client al, al_enc = al_enc al, al_link = al_link al, al_server = on_part view put (al_server al) \<rparr>"

locale part_of =
  fixes view :: "'s \<Rightarrow> 't" and put :: "'t \<Rightarrow> 's \<Rightarrow> 's"
  assumes put_view: "put (view s) s = s"
begin

text \<open>A call of the client, and so a reconciliation, does to the whole what it does to the part.\<close>

lemma do_on_part:
  "client_do c l (on_part view put srv) meth segs body out zero s =
     (let (res, t) = client_do c l srv meth segs body out zero (view s) in (res, put t s))"
  by (cases l) (auto simp: client_do_def hc_Do_def on_part_def put_view Let_def case_prod_unfold split: option.split)

lemma upsert_on_part:
  "route_handleUpsert ku kc kcu (link_on_part view put al) cr (k, s) =
     (let (err, k', t) = route_handleUpsert ku kc kcu al cr (k, view s) in (err, k', put t s))"
  by (simp add: route_handleUpsert_def link_on_part_def client_CreateRoute_def client_UpdateRoute_def do_on_part put_view Let_def case_prod_unfold
      split: sum.split)

lemma delete_on_part:
  "route_handleDelete ku kc (link_on_part view put al) cr (k, s) =
     (let (err, k', t) = route_handleDelete ku kc al cr (k, view s) in (err, k', put t s))"
  by (simp add: route_handleDelete_def link_on_part_def client_DeleteRoute_def do_on_part put_view Let_def case_prod_unfold split: sum.split)

lemma reconcile_on_part:
  "route_Reconcile ku kc kcu (link_on_part view put al) ns nm (k, s) =
     (let (err, k', t) = route_Reconcile ku kc kcu al ns nm (k, view s) in (err, k', put t s))"
  by (simp add: route_Reconcile_def upsert_on_part delete_on_part put_view Let_def case_prod_unfold split: sum.split option.split)

end

section \<open>The system\<close>

record 'x system =
  sy_live :: "'x live"
  sy_audit :: audit_log

definition admin_view :: "'x Registry \<Rightarrow> 'x system \<Rightarrow> 'x Factory admin" where
  "admin_view reg sy = \<lparr> ad_store = lv_store (sy_live sy), ad_reg = reg, ad_tracker = w_tracker (lv_world (sy_live sy)), ad_audit = sy_audit sy \<rparr>"

definition put_admin :: "'x Factory admin \<Rightarrow> 'x system \<Rightarrow> 'x system" where
  "put_admin ad sy =
     (let l = sy_live sy
      in sy\<lparr> sy_live := l\<lparr> lv_world := (lv_world l)\<lparr> w_store := ad_store ad, w_tracker := ad_tracker ad \<rparr>,
               lv_unsaved := lv_unsaved l \<or> unsaved_change (lv_store l) (ad_store ad) \<rparr>,
             sy_audit := ad_audit ad \<rparr>)"

definition admin_call :: "'x Registry \<Rightarrow> environment \<Rightarrow> admin_env \<Rightarrow> decoders \<Rightarrow> (string \<Rightarrow> string) \<Rightarrow> tracker list \<Rightarrow>
    (admin_req \<Rightarrow> int \<times> (string \<times> string) list \<times> string) \<Rightarrow> 'x system server" where
  "admin_call reg E av dc Sum256 ticks ui = on_part (admin_view reg) put_admin (admin_ServeHTTP E av dc Sum256 ticks ui)"

interpretation sys: part_of "admin_view reg" put_admin for reg
  by unfold_locales (simp add: put_admin_def admin_view_def Let_def lv_store_def)

inductive system_step :: "'x ext_api \<Rightarrow> 'x net_api \<Rightarrow> 'x Registry \<Rightarrow> bool \<Rightarrow> bool \<Rightarrow> 'x system \<Rightarrow> 'x system \<Rightarrow> bool"
  for ex na reg checker tracker where
  admin_request: "good_env (ae_store av) (lv_store (sy_live sy)) \<Longrightarrow> admin_call reg E av dc Sum256 ticks ui q sy = (resp, sy') \<Longrightarrow>
     system_step ex na reg checker tracker sy sy'"
| gateway_traffic: "w_store w = lv_store (sy_live sy) \<Longrightarrow>
     system_step ex na reg checker tracker sy (sy\<lparr> sy_live := (sy_live sy)\<lparr> lv_world := w \<rparr> \<rparr>)"
| router_reload: "reload_step ex na reg checker tracker (sy_live sy) l \<Longrightarrow> system_step ex na reg checker tracker sy (sy\<lparr> sy_live := l \<rparr>)"

inductive system_reach :: "'x ext_api \<Rightarrow> 'x net_api \<Rightarrow> 'x Registry \<Rightarrow> bool \<Rightarrow> bool \<Rightarrow> 'x system \<Rightarrow> bool"
  for ex na reg checker tracker where
  boot: "wf_store (w_store w) \<Longrightarrow> st_listeners (w_store w) = [] \<Longrightarrow> st_spawned (w_store w) = [] \<Longrightarrow>
     router_New ex na reg checker tracker fn w = (t, w1) \<Longrightarrow>
     system_reach ex na reg checker tracker \<lparr> sy_live = \<lparr> lv_world = w1, lv_table = t, lv_started = 0, lv_phase = None, lv_unsaved = False \<rparr>,
       sy_audit = audit_New 0 \<rparr>"
| step: "system_reach ex na reg checker tracker sy \<Longrightarrow> system_step ex na reg checker tracker sy sy' \<Longrightarrow>
     system_reach ex na reg checker tracker sy'"

section \<open>The system runs the store and the router\<close>

lemma asked_not_subscribe: "asked av dc Sum256 opn q st = Some opn' \<Longrightarrow> \<not> is_subscribe opn'"
  by (cases opn) (auto simp: asked_key_def asked_toggle_def split: option.splits sum.splits if_splits prod.splits)

lemma request_not_subscribe: "request_op E av dc Sum256 q st = Some opn \<Longrightarrow> \<not> is_subscribe opn"
  by (auto simp: request_op_def asked_not_subscribe split: if_splits option.splits)

text \<open>A request to the admin server is the operation it asks for, run on the store of the system.\<close>

lemma admin_call_live:
  "sy_live (snd (admin_call reg E av dc Sum256 ticks ui q sy)) =
     (case request_op E av dc Sum256 q (lv_store (sy_live sy)) of
        None \<Rightarrow> sy_live sy
      | Some opn \<Rightarrow> live_op (ae_store av) opn (sy_live sy))"
proof -
  let ?ad = "snd (admin_ServeHTTP E av dc Sum256 ticks ui q (admin_view reg sy))" and ?s = "lv_store (sy_live sy)"
  have view: "ad_store (admin_view reg sy) = ?s" "ad_tracker (admin_view reg sy) = w_tracker (lv_world (sy_live sy))"
    by (simp_all add: admin_view_def)
  have out: "sy_live (snd (admin_call reg E av dc Sum256 ticks ui q sy)) =
      (sy_live sy)\<lparr> lv_world := (lv_world (sy_live sy))\<lparr> w_store := ad_store ?ad \<rparr>, lv_unsaved := lv_unsaved (sy_live sy) \<or> unsaved_change ?s (ad_store ?ad) \<rparr>"
    using admin_ServeHTTP_frame(2) [of E av dc Sum256 ticks ui q "admin_view reg sy"]
    by (simp add: admin_call_def on_part_def put_admin_def view Let_def case_prod_unfold)
  have st: "does (ae_store av) (request_op E av dc Sum256 q ?s) ?s (fst (admin_ServeHTTP E av dc Sum256 ticks ui q (admin_view reg sy))) (ad_store ?ad)"
    using admin_ServeHTTP_does [of av E dc Sum256 q "admin_view reg sy" ticks ui] by (simp add: view)
  show ?thesis
  proof (cases "request_op E av dc Sum256 q ?s")
    case None
    with st have "ad_store ?ad = ?s" by simp
    with None out show ?thesis by (simp add: lv_store_def)
  next
    case (Some opn)
    with st have "ad_store ?ad = snd (run_op (ae_store av) opn ?s)" by (simp add: does_def)
    with Some out show ?thesis by (simp add: live_op_def)
  qed
qed

lemma system_step_live:
  assumes "system_step ex na reg checker tracker sy sy'"
  shows "sy_live sy' = sy_live sy \<or> live_step ex na reg checker tracker (sy_live sy) (sy_live sy')"
  using assms
proof cases
  case (admin_request av E dc Sum256 ticks ui q resp)
  then have "sy_live sy' = (case request_op E av dc Sum256 q (lv_store (sy_live sy)) of None \<Rightarrow> sy_live sy
      | Some opn \<Rightarrow> live_op (ae_store av) opn (sy_live sy))"
    using admin_call_live [of reg E av dc Sum256 ticks ui q sy] by simp
  with admin_request(1) show ?thesis
    by (auto split: option.splits intro: store_change dest: request_not_subscribe)
next
  case (gateway_traffic w)
  then show ?thesis by (auto intro: traffic)
next
  case (router_reload l)
  then show ?thesis by (auto intro: reloading)
qed

lemma system_reach_live: "system_reach ex na reg checker tracker sy \<Longrightarrow> live_reach ex na reg checker tracker (sy_live sy)"
proof (induction rule: system_reach.induct)
  case (boot w fn t w1)
  then show ?case by (simp add: live_reach.start)
next
  case (step sy sy')
  with system_step_live [OF step.hyps(2)] show ?case by (metis live_reach.run)
qed

section \<open>What the API lists is what is served\<close>

lemma list_routes_answer:
  assumes "admitted E q" "aq_Method q = ''GET''" "aq_Segs q = v1 [''routes'']"
  shows "admin_call reg E av dc Sum256 ticks ui q sy =
    (admin_writeJSON 200 (P_routes (ListRoutes (env_orders (ae_store av)) (lv_store (sy_live sy)))
       (length (ListRoutes (env_orders (ae_store av)) (lv_store (sy_live sy))))), sy)"
proof -
  have found: "find (\<lambda>(m, _). m = aq_Method q \<or> (m = ''GET'' \<and> aq_Method q = ''HEAD'')) (registerRoutes (aq_Segs q)) = Some (''GET'', A_listRoutes)"
    by (simp add: assms(2,3) v1_def collection_ops_def)
  have "admin_ServeHTTP E av dc Sum256 ticks ui q (admin_view reg sy) = (listRoutes av (admin_view reg sy), admin_view reg sy)"
    using admin_ServeHTTP_found [OF assms(1) _ found] assms(3) by (simp add: v1_def)
  moreover have "ad_store (admin_view reg sy) = lv_store (sy_live sy)" by (simp add: admin_view_def)
  ultimately show ?thesis by (simp add: admin_call_def on_part_def listRoutes_def sys.put_view Let_def)
qed

text \<open>
  C27. What the admin API lists is what the router serves. Whatever requests the admin server has had, with whatever
  failures of the disk, whatever traffic and reloads: when no reload is waiting or at work and no toggle was left
  unsaved, a list of the routes answers with the routes by which the router serves. Every request goes to the best
  of the listed routes that are active, can be built and match, and to the fallback when there is none.
\<close>
theorem admin_lists_what_is_served:
  assumes "sort_ok na" "fair_orders (ex_orders ex)" "registry_keeps_store reg" "fair_orders (env_orders (ae_store av))"
    and "system_reach ex na reg checker tracker sy" "settled (sy_live sy)" "\<not> lv_unsaved (sy_live sy)"
    and "admitted E q" "aq_Method q = ''GET''" "aq_Segs q = v1 [''routes'']"
  shows "\<exists>rs. admin_call reg E av dc Sum256 ticks ui q sy = (admin_writeJSON 200 (P_routes rs (length rs)), sy) \<and>
    ((\<exists>r upH wa. r \<in> set rs \<and> r_Active r \<and> route_matches na r req \<and>
        (\<forall>r' \<in> set rs. should_serve na (lv_store (sy_live sy)) r' \<and> route_matches na r' req \<longrightarrow> outranked r' r) \<and>
        upstream_of ex na checker (lv_store (sy_live sy)) r upH \<and>
        router_ServeHTTP (lv_table (sy_live sy)) fallback req v = fst (buildRouteHandler reg tracker r upH wa) req v) \<or>
     ((\<forall>r \<in> set rs. should_serve na (lv_store (sy_live sy)) r \<longrightarrow> \<not> route_matches na r req) \<and>
        router_ServeHTTP (lv_table (sy_live sy)) fallback req v = fallback req v))"
proof -
  let ?s = "lv_store (sy_live sy)" and ?t = "lv_table (sy_live sy)" and ?rs = "ListRoutes (env_orders (ae_store av)) (lv_store (sy_live sy))"
  have ok: "live_ok ex na reg checker tracker (sy_live sy)" by (rule live_reach_ok [OF assms(1-3) system_reach_live [OF assms(5)]])
  then have cur: "table_current ex na reg checker tracker ?s ?t" using assms(6,7) by (simp add: live_ok_def settled_def)
  have "wf_store ?s" using ok by (simp add: live_ok_def)
  then have rs: "set ?rs = ran (map_of (st_routes ?s))"
    using assms(4) unfolding ListRoutes_def by (intro order_values) (simp_all add: wf_store_def fair_orders_def table_ok_def)
  have listed: "should_serve na ?s r \<Longrightarrow> r \<in> set ?rs \<and> r_Active r" for r unfolding rs by (simp add: should_serve_def)
  show ?thesis
    using current_table_routes [OF cur, of req fallback v] listed
    by (intro exI [of _ ?rs] conjI list_routes_answer assms(8-10)) blast
qed

section \<open>From a resource to the router\<close>

lemma sync_route_op:
  assumes "sync_route e rid r s = (Inr v, s')"
  shows "run_op e (if rid = '''' then CreateRouteOp r else UpdateRouteOp rid r) s = (None, s')"
  using assms by (cases "rid = ''''") (simp_all add: sync_route_def err_of_def)

lemma reconciled_live:
  assumes reach: "live_reach ex na reg checker tracker (sy_live sy)" and env: "good_env (ae_store av) (lv_store (sy_live sy))"
    and lib: "sort_ok na" "fair_orders (ex_orders ex)" "registry_keeps_store reg"
    and sync: "sync_route (ae_store av) rid r (lv_store (sy_live sy)) = (Inr v, st')"
    and put: "sy' = put_admin ((admin_view reg sy)\<lparr> ad_store := st' \<rparr>) sy"
  shows "live_reach ex na reg checker tracker (sy_live sy') \<and> 0 < reload_work (sy_live sy') \<and> lv_store (sy_live sy') = st'"
proof -
  let ?op = "if rid = '''' then CreateRouteOp r else UpdateRouteOp rid r"
  note op = sync_route_op [OF sync]
  have spawned: "st_spawned st' = st_spawned (lv_store (sy_live sy)) @ st_listeners (lv_store (sy_live sy))"
    using listeners_told_exactly_on_success [of "ae_store av" ?op "lv_store (sy_live sy)"] unfolding op by (simp split: if_splits)
  have l: "sy_live sy' = live_op (ae_store av) ?op (sy_live sy)"
    unfolding put live_op_def op by (simp add: put_admin_def admin_view_def Let_def)
  have st: "lv_store (sy_live sy') = st'" unfolding l live_op_def op by (simp add: lv_store_def)
  have "live_ok ex na reg checker tracker (sy_live sy)" by (rule live_reach_ok [OF lib reach])
  then have "lv_started (sy_live sy) < length (st_spawned st')" using spawned by (simp add: live_ok_def)
  moreover have "lv_started (sy_live sy') = lv_started (sy_live sy)" by (simp add: l live_op_def)
  ultimately have "0 < reload_work (sy_live sy')" by (simp add: reload_work_def st)
  moreover have "live_reach ex na reg checker tracker (sy_live sy')"
    unfolding l by (rule live_reach.run [OF reach], rule store_change [OF env]) simp
  ultimately show ?thesis using st by blast
qed

text \<open>What a route resource says of its route, field by field.\<close>

definition describes :: "GatewayRoute \<Rightarrow> string \<Rightarrow> Route \<Rightarrow> bool" where
  "describes cr uid r \<longleftrightarrow>
     r_Name r = om_Name (gr_Meta cr) \<and> r_Active r = rs_Active (gr_Spec cr) \<and> r_UpstreamID r = uid \<and> r_WeightedUpstreams r = [] \<and>
     r_StripPath r = rs_StripPath (gr_Spec cr) \<and>
     m_Hosts (r_Match r) = cm_Hosts (rs_Match (gr_Spec cr)) \<and> m_Path (r_Match r) = cm_Path (rs_Match (gr_Spec cr)) \<and>
     m_PathMode (r_Match r) = (if cm_PathMode (rs_Match (gr_Spec cr)) = '''' then ''prefix'' else cm_PathMode (rs_Match (gr_Spec cr))) \<and>
     m_Methods (r_Match r) = cm_Methods (rs_Match (gr_Spec cr)) \<and> m_Headers (r_Match r) = cm_Headers (rs_Match (gr_Spec cr)) \<and>
     map p_Name (r_Plugins r) = map cp_Name (rs_Plugins (gr_Spec cr)) \<and> map p_Config (r_Plugins r) = map cp_Config (rs_Plugins (gr_Spec cr))"

lemma desired_described: "describes cr uid ((desired_route cr uid)\<lparr> r_ID := i, r_CreatedAt := a, r_UpdatedAt := b \<rparr>)"
  by (simp add: describes_def desired_route_def zero_route_def PathModePrefix_def Let_def comp_def)

text \<open>
  C35. A resource reaches the router. When a reconciliation of a live route resource succeeds, over the admin API of
  a gateway in any reachable state, the store holds the route that the resource describes; reloads can come to
  rest from there, and however they do, the router then answers by that route every request that matches it and
  no better or equal route, with a handler built from the upstream of the store.
\<close>
theorem reconciled_route_is_served:
  assumes lib: "sort_ok na" "fair_orders (ex_orders ex)" "registry_keeps_store reg"
    and reach: "system_reach ex na reg checker tracker sy" "good_env (ae_store av) (lv_store (sy_live sy))"
    and res: "kc_Get kc ns nm k = Inr cr" "om_DeletionTimestamp (gr_Meta cr) = None"
      "ku_ContainsFinalizer ku (om_Finalizers (gr_Meta cr)) routeFinalizer" "resolveUpstreamID ku kcu cr k = Inr uid"
    and adm: "trusted E c" "al = \<lparr> al_Client = c, al_enc = en, al_link = Link_up, al_server = admin_call reg E av dc Sum256 ticks ui \<rparr>"
      "en_Route en (sent_route cr uid) = Some d" "length d \<le> max_body" "dc_Route dc d = Some (sent_route cr uid)"
    and run: "route_Reconcile ku kc kcu al ns nm (k, sy) = (None, k', sy')"
  shows "\<exists>r. map_of (st_routes (lv_store (sy_live sy'))) (r_ID r) = Some r \<and> describes cr uid r \<and>
      (\<exists>n l'. ((reload_step ex na reg checker tracker) ^^ n) (sy_live sy') l' \<and> settled l') \<and>
      (\<forall>n l' req v. ((reload_step ex na reg checker tracker) ^^ n) (sy_live sy') l' \<and> settled l' \<and>
         should_serve na (lv_store (sy_live sy')) r \<and> route_matches na r req \<and>
         (\<forall>r'. should_serve na (lv_store (sy_live sy')) r' \<and> route_matches na r' req \<and> r' \<noteq> r \<longrightarrow> \<not> outranked r r') \<longrightarrow>
         (\<exists>upH wa. upstream_of ex na checker (lv_store (sy_live sy')) r upH \<and>
            router_ServeHTTP (lv_table l') fallback req v = fst (buildRouteHandler reg tracker r upH wa) req v))"
proof -
  let ?al = "\<lparr> al_Client = c, al_enc = en, al_link = Link_up, al_server = admin_ServeHTTP E av dc Sum256 ticks ui \<rparr>"
  let ?s = "admin_view reg sy" and ?st = "lv_store (sy_live sy)"
  have al: "al = link_on_part (admin_view reg) put_admin ?al" by (simp add: adm(2) link_on_part_def admin_call_def)
  obtain err k0 ad where part: "route_Reconcile ku kc kcu ?al ns nm (k, ?s) = (err, k0, ad)" by (metis prod_cases3)
  with run sys.reconcile_on_part [of ku kc kcu reg ?al ns nm k sy] have none: "err = None" and put: "sy' = put_admin ad sy"
    unfolding al by (simp_all add: Let_def)
  obtain out st' where sync: "sync_route (ae_store av) (rt_RouteID (gr_Status cr)) (sent_route cr uid) ?st = (out, st')" by force
  have live: "live_reach ex na reg checker tracker (sy_live sy)" by (rule system_reach_live [OF reach(1)])
  have view: "ad_store ?s = ?st" by (simp add: admin_view_def)
  have wf: "wf_store ?st" using live_reach_ok [OF lib live] by (simp add: live_ok_def)
  note synced = route_reconcile_syncs [OF res adm(1) refl adm(3-5) wf [folded view] sync [folded view] part]
  from synced none obtain r where r: "out = Inr r" and ad: "ad = ?s\<lparr> ad_store := st' \<rparr>" by blast
  from synced r have stored: "map_of (st_routes st') (r_ID r) = Some r"
    "r = (desired_route cr uid)\<lparr> r_ID := r_ID r, r_CreatedAt := r_CreatedAt r, r_UpdatedAt := env_now (ae_store av) \<rparr>" by blast+
  note now = reconciled_live [OF live reach(2) lib sync [unfolded r] put [unfolded ad]]
  have rest: "\<exists>n l'. ((reload_step ex na reg checker tracker) ^^ n) (sy_live sy') l' \<and> settled l'"
    using reloads_can_settle [OF lib(3)] live_reach_ok [OF lib] now by blast
  have serve: "\<exists>upH wa. upstream_of ex na checker st' r upH \<and>
      router_ServeHTTP (lv_table l') fallback req v = fst (buildRouteHandler reg tracker r upH wa) req v"
    if l': "((reload_step ex na reg checker tracker) ^^ n) (sy_live sy') l'" "settled l'" and "should_serve na st' r" "route_matches na r req"
      and best: "\<And>r'. should_serve na st' r' \<Longrightarrow> route_matches na r' req \<Longrightarrow> r' \<noteq> r \<Longrightarrow> \<not> outranked r r'" for n l' req v
  proof -
    have "table_current ex na reg checker tracker st' (lv_table l')"
      using reload_run [OF lib _ l'(1)] now l'(2) by auto
    from current_table_routes [OF this, of req fallback v] show ?thesis using that(3,4) best by blast
  qed
  show ?thesis
  proof (intro exI [of _ r] conjI allI impI)
    show "map_of (st_routes (lv_store (sy_live sy'))) (r_ID r) = Some r" using stored(1) now by simp
    show "describes cr uid r" by (subst stored(2)) (rule desired_described)
    show "\<exists>n l'. ((reload_step ex na reg checker tracker) ^^ n) (sy_live sy') l' \<and> settled l'" by (fact rest)
  qed (use serve now in blast)
qed

section \<open>The properties at work\<close>

definition sample_system :: "unit system" where
  "sample_system = \<lparr> sy_live = sample_live, sy_audit = audit_New 0 \<rparr>"

lemma sample_system_reach: "system_reach some_ext some_net NewRegistry True False sample_system"
proof -
  obtain t w1 where n: "router_New some_ext some_net NewRegistry True False 0 live_world = (t, w1)" by force
  from boot [OF live_world_wf live_world_store(4,5) n] show ?thesis by (simp add: sample_system_def sample_live_def n)
qed

definition list_request :: admin_req where
  "list_request = \<lparr> aq_Method = ''GET'', aq_Segs = v1 [''routes''], aq_Auth = None, aq_Remote = '''', aq_Limit = '''', aq_Body = '''' \<rparr>"

theorem admin_lists_what_is_served_witness:
  "\<exists>rs r upH wa. admin_call NewRegistry (\<lambda>_. '''') sample_admin_env sample_decoders (\<lambda>x. x) [] (\<lambda>_. (200, [], '''')) list_request sample_system =
      (admin_writeJSON 200 (P_routes rs (length rs)), sample_system) \<and> r \<in> set rs \<and>
    router_ServeHTTP (lv_table sample_live) (answer 404) (blank_request\<lparr> rq_Path := ''/private'' \<rparr>) blank_world =
      fst (buildRouteHandler NewRegistry False r upH wa) (blank_request\<lparr> rq_Path := ''/private'' \<rparr>) blank_world"
proof -
  let ?req = "blank_request\<lparr> rq_Path := ''/private'' \<rparr>" and ?r = "route_of ''2'' PathModePrefix ''/private''"
  have live: "sy_live sample_system = sample_live" by (simp add: sample_system_def)
  have orders: "fair_orders (env_orders (ae_store sample_admin_env))"
    using sample_orders_fair by (simp add: sample_admin_env_def)
  have q: "admitted (\<lambda>_. '''') list_request" "aq_Method list_request = ''GET''" "aq_Segs list_request = v1 [''routes'']"
    by (simp_all add: admitted_def list_request_def)
  have serves: "should_serve some_net (lv_store sample_live) ?r" "route_matches some_net ?r ?req"
    by (simp_all add: sample_should_serve route_of_matches HasPrefix_def)
  note main = admin_lists_what_is_served [OF some_net_sort_ok some_ext_fair new_registry_keeps_store orders sample_system_reach
      _ _ q, unfolded live, OF sample_live_settled, where req = ?req and fallback = "answer 404" and v = blank_world
        and dc = sample_decoders and ?Sum256.0 = "\<lambda>x. x" and ticks = "[]" and ui = "\<lambda>_. (200, [], '''')"]
  from main obtain rs where call: "admin_call NewRegistry (\<lambda>_. '''') sample_admin_env sample_decoders (\<lambda>x. x) [] (\<lambda>_. (200, [], '''')) list_request sample_system =
      (admin_writeJSON 200 (P_routes rs (length rs)), sample_system)"
    and cases: "(\<exists>r upH wa. r \<in> set rs \<and> router_ServeHTTP (lv_table sample_live) (answer 404) ?req blank_world = fst (buildRouteHandler NewRegistry False r upH wa) ?req blank_world) \<or>
      (\<forall>r \<in> set rs. should_serve some_net (lv_store sample_live) r \<longrightarrow> \<not> route_matches some_net r ?req)" by blast
  have "rs = ListRoutes (env_orders (ae_store sample_admin_env)) (lv_store sample_live)"
    using call list_routes_answer [OF q, of NewRegistry sample_admin_env sample_decoders "\<lambda>x. x" "[]" "\<lambda>_. (200, [], '''')" sample_system]
    by (simp add: live admin_writeJSON_def)
  then have "?r \<in> set rs"
    by (simp add: ListRoutes_def sample_live_store OnChange_def live_world_store) (simp add: sample_admin_env_def sample_env_def)
  with cases serves call show ?thesis by blast
qed

text \<open>The operator of a cluster with one route resource, connected to that gateway.\<close>

definition operator_env_sample :: admin_env where
  "operator_env_sample = sample_admin_env\<lparr> ae_store := sample_env ''r1'' IO_ok \<rparr>"

definition route_decoders :: "Route \<Rightarrow> decoders" where
  "route_decoders r = sample_decoders\<lparr> dc_Route := (\<lambda>b. if b = ''r'' then Some r else None) \<rparr>"

definition gateway_link :: "'s server \<Rightarrow> Route \<Rightarrow> 's admin_link" where
  "gateway_link srv r = \<lparr> al_Client = \<lparr> cl_user = '''', cl_pass = '''', cl_addr = '''' \<rparr>, al_enc = sample_encoders r, al_link = Link_up, al_server = srv \<rparr>"

lemma sample_system_reconciles:
  defines "cr \<equiv> sample_cr None ''''"
  defines "r \<equiv> sent_route cr ''u''"
  shows "\<exists>k' sy'. route_Reconcile sample_util sample_routes sample_upstreams
      (gateway_link (admin_call NewRegistry (\<lambda>_. '''') operator_env_sample (route_decoders r) (\<lambda>x. x) [] (\<lambda>_. (200, [], ''''))) r)
      ''default'' ''web'' ((cr, sample_upstream_cr), sample_system) = (None, k', sy')"
proof -
  let ?e = "sample_env ''r1'' IO_ok" and ?k = "(cr, sample_upstream_cr)" and ?s = "admin_view NewRegistry sample_system"
  let ?srv = "admin_ServeHTTP (\<lambda>_. '''') operator_env_sample (route_decoders r) (\<lambda>x. x) [] (\<lambda>_. (200, [], '''')) :: unit Factory admin server"
  have st: "ad_store ?s = OnChange 0 (w_store live_world)" by (simp add: admin_view_def sample_system_def sample_live_store)
  have r: "r_Name r = ''web''" "r_UpstreamID r = ''u''" by (simp_all add: r_def cr_def sent_route_def desired_route_def Let_def)
  have "\<exists>v st'. sync_route ?e (rt_RouteID (gr_Status cr)) r (ad_store ?s) = (Inr v, st')"
    unfolding st cr_def by (simp add: sync_route_def CreateRoute_def persist_def sample_env_def Let_def r OnChange_def live_world_store)
      (simp add: route_of_def)
  then obtain v st' where sync: "sync_route ?e (rt_RouteID (gr_Status cr)) r (ad_store ?s) = (Inr v, st')" by blast
  obtain err k' ad where out: "route_Reconcile sample_util sample_routes sample_upstreams (gateway_link ?srv r) ''default'' ''web'' (?k, ?s) = (err, k', ad)"
    by (metis prod_cases3)
  have wf: "wf_store (ad_store ?s)"
    unfolding st using live_world_wf wf_store_cong [of "w_store live_world" "OnChange 0 (w_store live_world)"] by (simp add: same_data_def OnChange_def)
  have "(err = None) = (\<exists>u. Inr v = (Inr u :: store_err + Route) \<and> fst (kc_StatusUpdate sample_routes (synced_route sample_util cr (r_ID u)) ?k) = None)"
    by (rule route_reconcile_syncs [OF _ _ sample_held [of None "''''", folded cr_def] sample_resolves [of None "''''" cr, folded cr_def] _ gateway_link_def _ _ _ wf _ out,
          where d = "''r''", folded r_def, THEN conjunct2, THEN conjunct1])
      (use sync in \<open>simp_all add: sample_routes_def cr_def trusted_def sample_encoders_def max_body_def route_decoders_def operator_env_sample_def\<close>)
  then have "err = None" by (simp add: sample_routes_def)
  moreover have "gateway_link (admin_call NewRegistry (\<lambda>_. '''') operator_env_sample (route_decoders r) (\<lambda>x. x) [] (\<lambda>_. (200, [], ''''))) r =
      link_on_part (admin_view NewRegistry) put_admin (gateway_link ?srv r)"
    by (simp add: gateway_link_def link_on_part_def admin_call_def)
  ultimately show ?thesis using sys.reconcile_on_part [of sample_util sample_routes sample_upstreams NewRegistry "gateway_link ?srv r"] out by simp
qed

theorem reconciled_route_is_served_witness:
  "\<exists>k' sy' r n l'. route_Reconcile sample_util sample_routes sample_upstreams
       (gateway_link (admin_call NewRegistry (\<lambda>_. '''') operator_env_sample (route_decoders (sent_route (sample_cr None '''') ''u'')) (\<lambda>x. x) []
          (\<lambda>_. (200, [], ''''))) (sent_route (sample_cr None '''') ''u''))
       ''default'' ''web'' ((sample_cr None '''', sample_upstream_cr), sample_system) = (None, k', sy') \<and>
     map_of (st_routes (lv_store (sy_live sy'))) (r_ID r) = Some r \<and> r_Name r = ''web'' \<and>
     ((reload_step some_ext some_net NewRegistry True False) ^^ n) (sy_live sy') l' \<and> settled l'"
proof -
  let ?cr = "sample_cr None ''''" let ?r = "sent_route (sample_cr None '''') ''u''"
  obtain k' sy' where out: "route_Reconcile sample_util sample_routes sample_upstreams
      (gateway_link (admin_call NewRegistry (\<lambda>_. '''') operator_env_sample (route_decoders ?r) (\<lambda>x. x) [] (\<lambda>_. (200, [], ''''))) ?r)
      ''default'' ''web'' ((?cr, sample_upstream_cr), sample_system) = (None, k', sy')" using sample_system_reconciles by blast
  have env: "good_env (ae_store operator_env_sample) (lv_store (sy_live sample_system))"
    using sample_orders_fair [of "''r1''" IO_ok]
    by (simp add: good_env_def operator_env_sample_def sample_system_def sample_live_store OnChange_def live_world_store)
      (simp add: sample_env_def live_world_def routed_world_def empty_store_def)

  have side: "kc_Get sample_routes ''default'' ''web'' (?cr, sample_upstream_cr) = Inr ?cr" "om_DeletionTimestamp (gr_Meta ?cr) = None"
    "trusted (\<lambda>_. '''') \<lparr> cl_user = '''', cl_pass = '''', cl_addr = '''' \<rparr>" "en_Route (sample_encoders ?r) ?r = Some ''r''"
    "length ''r'' \<le> max_body" "dc_Route (route_decoders ?r) ''r'' = Some ?r"
    by (simp_all add: sample_routes_def trusted_def sample_encoders_def max_body_def route_decoders_def)
  from reconciled_route_is_served [OF some_net_sort_ok some_ext_fair new_registry_keeps_store sample_system_reach env side(1,2)
      sample_held sample_resolves side(3) gateway_link_def side(4-6) out, where fallback = "answer 404"]
  obtain r where r: "map_of (st_routes (lv_store (sy_live sy'))) (r_ID r) = Some r"
    "describes ?cr ''u'' r"
    "\<exists>n l'. ((reload_step some_ext some_net NewRegistry True False) ^^ n) (sy_live sy') l' \<and> settled l'" by blast
  from r(2) have "r_Name r = ''web''" by (simp add: describes_def)
  with r(1,3) out show ?thesis by blast
qed

end
