(* ===== verification/Deep_Copy.thy ===== *)
theory Deep_Copy
  imports Operator
begin

text \<open>
  The deep copies of \<open>internal/operator/types/types.go\<close>, on an explicit heap: slices and maps are cells that
  several objects may share, and a copy is deep when it shares none with its original. The cell of a map
  lists its entries in the order in which the loop visits them.

  Values of type \<open>any\<close> are copied by recursion with fuel, since nothing in the code keeps a value from
  containing itself: \<open>None\<close> stands for a recursion deeper than the fuel. \<open>dci\<close> is \<open>DeepCopyInto\<close> of the
  metadata, which belongs to Kubernetes and is kept outside the heap.
\<close>

section \<open>Heaps\<close>

datatype hval = H_nil | H_bool bool | H_int int | H_int64 int | H_float rat | H_string string | H_slice "nat option" | H_map "nat option"

datatype cell =
    C_slice "hval list"
  | C_map "(string \<times> hval) list"
  | C_strings "string list"
  | C_strmap "(string \<times> string) list"
  | C_plugins "(string \<times> nat option) list"
  | C_conditions "Condition list"

type_synonym heap = "cell list"
type_synonym 'x copier = "'x \<Rightarrow> heap \<Rightarrow> ('x \<times> heap) option"

text \<open>Elements one after the other.\<close>

fun copy_seq :: "'x copier \<Rightarrow> 'x list copier" where
  "copy_seq c [] h = Some ([], h)"
| "copy_seq c (x # xs) h =
     (case c x h of
        None \<Rightarrow> None
      | Some (y, h1) \<Rightarrow> (case copy_seq c xs h1 of None \<Rightarrow> None | Some (ys, h2) \<Rightarrow> Some (y # ys, h2)))"

text \<open>
  \<open>out := make(...)\<close>, then a loop that fills it: the new cell comes first, the cells of its elements after it.
\<close>

definition fill :: "(heap \<Rightarrow> ('y \<times> heap) option) \<Rightarrow> ('y \<Rightarrow> cell) \<Rightarrow> cell \<Rightarrow> heap \<Rightarrow> (nat \<times> heap) option" where
  "fill body mk c0 h =
     (case body (h @ [c0]) of None \<Rightarrow> None | Some (y, h1) \<Rightarrow> Some (length h, h1[length h := mk y]))"

section \<open>Copies\<close>

definition copy_any_map :: "hval copier \<Rightarrow> nat option copier" where
  "copy_any_map c m h =
     (case m of
        None \<Rightarrow> Some (None, h)
      | Some a \<Rightarrow>
          (case h ! a of
             C_map es \<Rightarrow> map_option (apfst Some) (fill (copy_seq c (map snd es)) (\<lambda>vs. C_map (zip (map fst es) vs)) (C_map []) h)
           | _ \<Rightarrow> None))"

definition copy_any_slice :: "hval copier \<Rightarrow> nat option copier" where
  "copy_any_slice c m h =
     (case m of
        None \<Rightarrow> Some (Some (length h), h @ [C_slice []])
      | Some a \<Rightarrow>
          (case h ! a of
             C_slice vs \<Rightarrow> map_option (apfst Some) (fill (copy_seq c vs) C_slice (C_slice []) h)
           | _ \<Rightarrow> None))"

primrec deepCopyAnyValue :: "nat \<Rightarrow> hval copier" where
  "deepCopyAnyValue 0 v h = None"
| "deepCopyAnyValue (Suc n) v h =
     (case v of
        H_map m \<Rightarrow> map_option (apfst H_map) (copy_any_map (deepCopyAnyValue n) m h)
      | H_slice m \<Rightarrow> map_option (apfst H_slice) (copy_any_slice (deepCopyAnyValue n) m h)
      | _ \<Rightarrow> Some (v, h))"

definition deepCopyAnyMap :: "nat \<Rightarrow> nat option copier" where
  "deepCopyAnyMap n = copy_any_map (deepCopyAnyValue n)"

text \<open>A slice or map of plain values: nil stays nil, anything else becomes a new cell with the same contents.\<close>

definition copy_flat :: "nat option \<Rightarrow> heap \<Rightarrow> nat option \<times> heap" where
  "copy_flat r h = (case r of None \<Rightarrow> (None, h) | Some a \<Rightarrow> (Some (length h), h @ [h ! a]))"

definition deepCopyConditions :: "nat option \<Rightarrow> heap \<Rightarrow> nat option \<times> heap" where
  "deepCopyConditions = copy_flat"

record hMatchRule =
  hm_Hosts :: "nat option"
  hm_Path :: string
  hm_PathMode :: string
  hm_Methods :: "nat option"
  hm_Headers :: "nat option"

record hRouteSpec =
  hs_Active :: bool
  hs_Match :: hMatchRule
  hs_UpstreamRef :: string
  hs_Plugins :: "nat option"
  hs_StripPath :: bool

record hRoute =
  hr_Meta :: ObjectMeta
  hr_Spec :: hRouteSpec
  hr_RouteID :: string
  hr_Conditions :: "nat option"

definition deepCopyMatchRule :: "hMatchRule \<Rightarrow> heap \<Rightarrow> hMatchRule \<times> heap" where
  "deepCopyMatchRule m h =
     (let (hosts, h1) = copy_flat (hm_Hosts m) h;
          (methods, h2) = copy_flat (hm_Methods m) h1;
          (headers, h3) = copy_flat (hm_Headers m) h2
      in (m\<lparr> hm_Hosts := hosts, hm_Methods := methods, hm_Headers := headers \<rparr>, h3))"

definition copy_plugin :: "nat \<Rightarrow> (string \<times> nat option) copier" where
  "copy_plugin n p h = map_option (apfst (Pair (fst p))) (deepCopyAnyMap n (snd p) h)"

definition copy_plugins :: "nat \<Rightarrow> nat option copier" where
  "copy_plugins n r h =
     (case r of
        None \<Rightarrow> Some (None, h)
      | Some a \<Rightarrow>
          (case h ! a of
             C_plugins ps \<Rightarrow> map_option (apfst Some) (fill (copy_seq (copy_plugin n) ps) C_plugins (C_plugins []) h)
           | _ \<Rightarrow> None))"

definition deepCopyRouteSpec :: "nat \<Rightarrow> hRouteSpec copier" where
  "deepCopyRouteSpec n spec h =
     (let (m, h1) = deepCopyMatchRule (hs_Match spec) h
      in map_option (apfst (\<lambda>ps. spec\<lparr> hs_Match := m, hs_Plugins := ps \<rparr>)) (copy_plugins n (hs_Plugins spec) h1))"

definition route_DeepCopyObject :: "(ObjectMeta \<Rightarrow> ObjectMeta) \<Rightarrow> nat \<Rightarrow> hRoute copier" where
  "route_DeepCopyObject dci n x h =
     (case deepCopyRouteSpec n (hr_Spec x) h of
        None \<Rightarrow> None
      | Some (spec, h1) \<Rightarrow>
          (let (conds, h2) = deepCopyConditions (hr_Conditions x) h1
           in Some (\<lparr> hr_Meta = dci (hr_Meta x), hr_Spec = spec, hr_RouteID = hr_RouteID x, hr_Conditions = conds \<rparr>, h2)))"

text \<open>A list of resources, as the slice of its items.\<close>

definition routes_DeepCopyObject :: "(ObjectMeta \<Rightarrow> ObjectMeta) \<Rightarrow> nat \<Rightarrow> hRoute list copier" where
  "routes_DeepCopyObject dci n = copy_seq (route_DeepCopyObject dci n)"

record hUpstream =
  hu_Meta :: ObjectMeta
  hu_Spec :: GatewayUpstreamSpec
  hu_UpstreamID :: string
  hu_Health :: string
  hu_Conditions :: "nat option"

definition upstream_DeepCopyObject :: "(ObjectMeta \<Rightarrow> ObjectMeta) \<Rightarrow> hUpstream copier" where
  "upstream_DeepCopyObject dci x h =
     (let (conds, h1) = deepCopyConditions (hu_Conditions x) h
      in Some (\<lparr> hu_Meta = dci (hu_Meta x), hu_Spec = hu_Spec x, hu_UpstreamID = hu_UpstreamID x, hu_Health = hu_Health x,
                 hu_Conditions = conds \<rparr>, h1))"

definition upstreams_DeepCopyObject :: "(ObjectMeta \<Rightarrow> ObjectMeta) \<Rightarrow> hUpstream list copier" where
  "upstreams_DeepCopyObject dci = copy_seq (upstream_DeepCopyObject dci)"

record hPolicy =
  hq_Meta :: ObjectMeta
  hq_Mode :: string
  hq_CIDRs :: "nat option"
  hq_Active :: bool
  hq_PolicyID :: string
  hq_Conditions :: "nat option"

definition policy_DeepCopyObject :: "(ObjectMeta \<Rightarrow> ObjectMeta) \<Rightarrow> hPolicy copier" where
  "policy_DeepCopyObject dci x h =
     (let (cidrs, h1) = copy_flat (hq_CIDRs x) h;
          (conds, h2) = deepCopyConditions (hq_Conditions x) h1
      in Some (\<lparr> hq_Meta = dci (hq_Meta x), hq_Mode = hq_Mode x, hq_CIDRs = cidrs, hq_Active = hq_Active x,
                 hq_PolicyID = hq_PolicyID x, hq_Conditions = conds \<rparr>, h2))"

definition policies_DeepCopyObject :: "(ObjectMeta \<Rightarrow> ObjectMeta) \<Rightarrow> hPolicy list copier" where
  "policies_DeepCopyObject dci = copy_seq (policy_DeepCopyObject dci)"

section \<open>What an object denotes\<close>

text \<open>
  \<open>reads b h v t\<close>: the value \<open>v\<close> stands for the tree \<open>t\<close> in the heap \<open>h\<close>, through cells at \<open>b\<close> or above. Copies of
  the value in cells from \<open>b\<close> on share nothing with anything below.
\<close>

inductive reads :: "nat \<Rightarrow> heap \<Rightarrow> hval \<Rightarrow> any \<Rightarrow> bool" for b h where
  "reads b h H_nil AnyNil"
| "reads b h (H_bool x) (AnyBool x)"
| "reads b h (H_int i) (AnyInt i)"
| "reads b h (H_int64 i) (AnyInt64 i)"
| "reads b h (H_float q) (AnyFloat q)"
| "reads b h (H_string s) (AnyString s)"
| "reads b h (H_slice None) (AnySlice [])"
| "b \<le> a \<Longrightarrow> a < length h \<Longrightarrow> h ! a = C_slice vs \<Longrightarrow> list_all2 (reads b h) vs ts \<Longrightarrow> reads b h (H_slice (Some a)) (AnySlice ts)"
| "reads b h (H_map None) (AnyMap [])"
| "b \<le> a \<Longrightarrow> a < length h \<Longrightarrow> h ! a = C_map es \<Longrightarrow> map fst es = ks \<Longrightarrow> list_all2 (reads b h) (map snd es) ts \<Longrightarrow>
     reads b h (H_map (Some a)) (AnyMap (zip ks ts))"

section \<open>Deep copies\<close>

text \<open>
  The contract of a copy: it ends, leaves the heap below as it was, and its result stands for the same
  value through new cells only. What a value stands for depends on its own cells alone.
\<close>

locale deep_copy =
  fixes copy :: "'x copier"
    and R :: "nat \<Rightarrow> heap \<Rightarrow> 'x \<Rightarrow> 't \<Rightarrow> bool"
  assumes copies: "R 0 h x t \<Longrightarrow> \<exists>y h'. copy x h = Some (y, h @ h') \<and> R (length h) (h @ h') y t"
    and frame: "R b h x t \<Longrightarrow> length h \<le> length g \<Longrightarrow> (\<And>a. b \<le> a \<Longrightarrow> a < length h \<Longrightarrow> g ! a = h ! a) \<Longrightarrow> R b g x t"
    and lower: "R b h x t \<Longrightarrow> c \<le> b \<Longrightarrow> R c h x t"
begin

lemma extend: "R b h x t \<Longrightarrow> R b (h @ g) x t"
  by (rule frame) (auto simp: nth_append)

lemma extend_all: "list_all2 (R b h) xs ts \<Longrightarrow> list_all2 (R b (h @ g)) xs ts"
  by (auto elim!: list_all2_mono extend)

lemma lower_all: "list_all2 (R b h) xs ts \<Longrightarrow> c \<le> b \<Longrightarrow> list_all2 (R c h) xs ts"
  by (auto elim!: list_all2_mono lower)

lemma frame_all:
  "list_all2 (R b h) xs ts \<Longrightarrow> length h \<le> length g \<Longrightarrow> (\<And>a. b \<le> a \<Longrightarrow> a < length h \<Longrightarrow> g ! a = h ! a) \<Longrightarrow> list_all2 (R b g) xs ts"
  by (erule list_all2_mono) (rule frame)

lemma copies_all:
  "list_all2 (R 0 h) xs ts \<Longrightarrow> \<exists>ys h'. copy_seq copy xs h = Some (ys, h @ h') \<and> list_all2 (R (length h) (h @ h')) ys ts"
proof (induction xs arbitrary: ts h)
  case (Cons x xs)
  then obtain t us where ts: "ts = t # us" "R 0 h x t" "list_all2 (R 0 h) xs us" by (auto simp: list_all2_Cons1)
  obtain y h1 where y: "copy x h = Some (y, h @ h1)" "R (length h) (h @ h1) y t" using copies [OF ts(2)] by blast
  obtain ys h2 where ys: "copy_seq copy xs (h @ h1) = Some (ys, (h @ h1) @ h2)" "list_all2 (R (length (h @ h1)) ((h @ h1) @ h2)) ys us"
    using Cons.IH [OF extend_all [OF ts(3), of h1]] by blast
  have "R (length h) (h @ h1 @ h2) y t" using extend [OF y(2), of h2] by simp
  moreover have "list_all2 (R (length h) (h @ h1 @ h2)) ys us" using lower_all [OF ys(2), of "length h"] by simp
  ultimately show ?case using y(1) ys(1) by (auto simp: ts(1))
qed simp

lemma copies_filled:
  assumes "list_all2 (R 0 h) xs ts"
  shows "\<exists>ys h'. fill (copy_seq copy xs) mk c0 h = Some (length h, h @ mk ys # h') \<and> list_all2 (R (length h) (h @ mk ys # h')) ys ts"
proof -
  obtain ys h' where ys: "copy_seq copy xs (h @ [c0]) = Some (ys, (h @ [c0]) @ h')" "list_all2 (R (length (h @ [c0])) ((h @ [c0]) @ h')) ys ts"
    using copies_all [OF extend_all [OF assms, of "[c0]"]] by blast
  have "list_all2 (R (length (h @ [c0])) (h @ mk ys # h')) ys ts"
    by (rule frame_all [OF ys(2)]) (auto simp: nth_append nth_Cons')
  then have "list_all2 (R (length h) (h @ mk ys # h')) ys ts" by (rule lower_all) simp
  with ys(1) show ?thesis by (auto simp: fill_def)
qed

text \<open>Writing to the cells of one of the two objects never changes the other.\<close>

lemma isolated:
  assumes "R 0 h x t" and "copy x h = Some (y, h')" and "length g = length h'"
  shows "(\<And>a. a < length h \<Longrightarrow> g ! a = h ! a) \<Longrightarrow> R 0 g x t"
    and "(\<And>a. length h \<le> a \<Longrightarrow> a < length h' \<Longrightarrow> g ! a = h' ! a) \<Longrightarrow> R (length h) g y t"
proof -
  obtain h1 where h1: "h' = h @ h1" "R (length h) h' y t" using copies [OF assms(1)] assms(2) by auto
  show "(\<And>a. a < length h \<Longrightarrow> g ! a = h ! a) \<Longrightarrow> R 0 g x t" using frame [OF assms(1), of g] h1(1) assms(3) by simp
  show "(\<And>a. length h \<le> a \<Longrightarrow> a < length h' \<Longrightarrow> g ! a = h' ! a) \<Longrightarrow> R (length h) g y t" using frame [OF h1(2), of g] assms(3) by simp
qed

end

section \<open>Values of any type\<close>

lemma reads_frame:
  "reads b h v t \<Longrightarrow> length h \<le> length g \<Longrightarrow> (\<And>a. b \<le> a \<Longrightarrow> a < length h \<Longrightarrow> g ! a = h ! a) \<Longrightarrow> reads b g v t"
proof (induction rule: reads.induct)
  case (8 a vs ts)
  then show ?case by (intro reads.intros(8) [of b a g vs ts]) (auto elim!: list_all2_mono)
next
  case (10 a es ks ts)
  then show ?case by (intro reads.intros(10) [of b a g es ks ts]) (auto elim!: list_all2_mono)
qed (auto intro: reads.intros)

lemma reads_lower: "reads b h v t \<Longrightarrow> c \<le> b \<Longrightarrow> reads c h v t"
proof (induction rule: reads.induct)
  case (8 a vs ts)
  then show ?case by (intro reads.intros(8) [of c a h vs ts]) (auto elim!: list_all2_mono)
next
  case (10 a es ks ts)
  then show ?case by (intro reads.intros(10) [of c a h es ks ts]) (auto elim!: list_all2_mono)
qed (auto intro: reads.intros)

inductive_cases reads_mapE: "reads b h (H_map m) t"
inductive_cases reads_sliceE: "reads b h (H_slice m) t"

text \<open>The fuel that suffices for a value: more than its size.\<close>

definition reads_within :: "nat \<Rightarrow> nat \<Rightarrow> heap \<Rightarrow> hval \<Rightarrow> any \<Rightarrow> bool" where
  "reads_within n b h v t \<longleftrightarrow> reads b h v t \<and> size t < n"

lemma size_elements:
  "t \<in> set ts \<Longrightarrow> size t < size (AnySlice ts)"
  "length ks = length ts \<Longrightarrow> t \<in> set ts \<Longrightarrow> size t < size (AnyMap (zip ks ts))"
proof -
  show "t \<in> set ts \<Longrightarrow> size t < size (AnySlice ts)" by (simp add: less_Suc_eq_le size_list_estimation')
  assume l: "length ks = length ts" "t \<in> set ts"
  then obtain k where "(k, t) \<in> set (zip ks ts)" by (metis in_set_impl_in_set_zip2)
  then show "size t < size (AnyMap (zip ks ts))" by (auto simp: less_Suc_eq_le intro!: size_list_estimation')
qed

lemma within_elements:
  assumes "list_all2 (reads b h) vs ts" and "\<And>t. t \<in> set ts \<Longrightarrow> size t < n"
  shows "list_all2 (reads_within n b h) vs ts"
  using assms by (auto simp: reads_within_def list_all2_conv_all_nth)


lemma copy_any_map_copies:
  assumes c: "deep_copy c (reads_within n)" and "reads 0 h (H_map m) t" and "size t \<le> n"
  shows "\<exists>m' h'. copy_any_map c m h = Some (m', h @ h') \<and> reads (length h) (h @ h') (H_map m') t"
  using assms(2)
proof (rule reads_mapE)
  assume "m = None" and "t = AnyMap []"
  then show ?thesis by (auto simp: copy_any_map_def intro: reads.intros)
next
  fix a es ts
  assume m: "m = Some a" "t = AnyMap (zip (map fst es) ts)" "a < length h" "h ! a = C_map es" "list_all2 (reads 0 h) (map snd es) ts"
  define ks where "ks = map fst es"
  have l: "length ks = length ts" using m(5) by (auto simp: ks_def dest: list_all2_lengthD)
  have "list_all2 (reads_within n 0 h) (map snd es) ts"
    by (rule within_elements [OF m(5)]) (use size_elements(2) [OF l] assms(3) m(2) in \<open>fastforce simp: ks_def\<close>)
  from deep_copy.copies_filled [OF c this, of "\<lambda>vs. C_map (zip ks vs)" "C_map []"] obtain vs h' where
    f: "fill (copy_seq c (map snd es)) (\<lambda>vs. C_map (zip ks vs)) (C_map []) h = Some (length h, h @ C_map (zip ks vs) # h')"
    and r: "list_all2 (reads_within n (length h) (h @ C_map (zip ks vs) # h')) vs ts"
    by blast
  have lv: "length ks = length vs" using r l by (auto dest: list_all2_lengthD)
  have "reads (length h) (h @ C_map (zip ks vs) # h') (H_map (Some (length h))) (AnyMap (zip ks ts))"
    using r lv by (intro reads.intros(10) [of _ _ _ "zip ks vs"]) (auto simp: reads_within_def elim!: list_all2_mono)
  with f m show ?thesis by (auto simp: copy_any_map_def ks_def)
qed

lemma copy_any_slice_copies:
  assumes c: "deep_copy c (reads_within n)" and "reads 0 h (H_slice m) t" and "size t \<le> n"
  shows "\<exists>m' h'. copy_any_slice c m h = Some (m', h @ h') \<and> reads (length h) (h @ h') (H_slice m') t"
  using assms(2)
proof (rule reads_sliceE)
  assume "m = None" and t: "t = AnySlice []"
  have "reads (length h) (h @ [C_slice []]) (H_slice (Some (length h))) t"
    unfolding t by (rule reads.intros(8) [of _ _ _ "[]"]) simp_all
  with \<open>m = None\<close> show ?thesis by (auto simp: copy_any_slice_def)
next
  fix a vs ts
  assume m: "m = Some a" "t = AnySlice ts" "a < length h" "h ! a = C_slice vs" "list_all2 (reads 0 h) vs ts"
  have "list_all2 (reads_within n 0 h) vs ts"
    by (rule within_elements [OF m(5)]) (use size_elements(1) [of _ ts] assms(3) m(2) in fastforce)
  from deep_copy.copies_filled [OF c this, of C_slice "C_slice []"] obtain ws h' where
    f: "fill (copy_seq c vs) C_slice (C_slice []) h = Some (length h, h @ C_slice ws # h')"
    and r: "list_all2 (reads_within n (length h) (h @ C_slice ws # h')) ws ts"
    by blast
  have "reads (length h) (h @ C_slice ws # h') (H_slice (Some (length h))) (AnySlice ts)"
    using r by (intro reads.intros(8) [of _ _ _ ws]) (auto simp: reads_within_def elim!: list_all2_mono)
  with f m show ?thesis by (auto simp: copy_any_slice_def)
qed

lemma deepCopyAnyValue_deep: "deep_copy (deepCopyAnyValue n) (reads_within n)"
proof (induction n)
  case 0
  show ?case by unfold_locales (simp_all add: reads_within_def)
next
  case (Suc n)
  show ?case
  proof unfold_locales
    fix h v t
    assume "reads_within (Suc n) 0 h v t"
    then have r: "reads 0 h v t" "size t \<le> n" by (simp_all add: reads_within_def)
    show "\<exists>y h'. deepCopyAnyValue (Suc n) v h = Some (y, h @ h') \<and> reads_within (Suc n) (length h) (h @ h') y t"
    proof (cases v)
      case (H_map m)
      from copy_any_map_copies [OF Suc] r H_map show ?thesis by (fastforce simp: reads_within_def)
    next
      case (H_slice m)
      from copy_any_slice_copies [OF Suc] r H_slice show ?thesis by (fastforce simp: reads_within_def)
    qed (use r in \<open>auto simp: reads_within_def elim!: reads.cases intro: reads.intros\<close>)
  qed (auto simp: reads_within_def intro: reads_frame reads_lower)
qed

interpretation any_value: deep_copy "deepCopyAnyValue n" "reads_within n" for n
  by (rule deepCopyAnyValue_deep)

section \<open>Resources\<close>

text \<open>Copies of two parts, and of a part of a record whose other fields are plain values.\<close>

definition both :: "'x copier \<Rightarrow> 'y copier \<Rightarrow> ('x \<times> 'y) copier" where
  "both c d p h =
     (case c (fst p) h of
        None \<Rightarrow> None
      | Some (x, h1) \<Rightarrow> (case d (snd p) h1 of None \<Rightarrow> None | Some (y, h2) \<Rightarrow> Some ((x, y), h2)))"

definition part :: "('r \<Rightarrow> 'x) \<Rightarrow> ('r \<Rightarrow> 'x \<Rightarrow> 'r) \<Rightarrow> 'x copier \<Rightarrow> 'r copier" where
  "part get put c r h = map_option (apfst (put r)) (c (get r) h)"

lemma both_deep:
  assumes "deep_copy c R" and "deep_copy d S"
  shows "deep_copy (both c d) (\<lambda>b h p q. R b h (fst p) (fst q) \<and> S b h (snd p) (snd q))"
proof
  fix h p q
  assume r: "R 0 h (fst p) (fst q) \<and> S 0 h (snd p) (snd q)"
  obtain x h1 where x: "c (fst p) h = Some (x, h @ h1)" "R (length h) (h @ h1) x (fst q)" using deep_copy.copies [OF assms(1)] r by blast
  obtain y h2 where y: "d (snd p) (h @ h1) = Some (y, (h @ h1) @ h2)" "S (length (h @ h1)) ((h @ h1) @ h2) y (snd q)"
    using deep_copy.copies [OF assms(2) deep_copy.extend [OF assms(2)]] r by blast
  have "S (length h) (h @ h1 @ h2) y (snd q)" using deep_copy.lower [OF assms(2) y(2), of "length h"] by simp
  with x y(1) deep_copy.extend [OF assms(1) x(2), of h2]
  show "\<exists>z h'. both c d p h = Some (z, h @ h') \<and> R (length h) (h @ h') (fst z) (fst q) \<and> S (length h) (h @ h') (snd z) (snd q)"
    by (auto simp: both_def)
qed (use assms in \<open>auto intro: deep_copy.frame deep_copy.lower\<close>)

lemma part_deep:
  assumes "deep_copy c R" and "\<And>r x. get (put r x) = x" and "\<And>r x t. Q r t \<Longrightarrow> Q (put r x) t"
  shows "deep_copy (part get put c) (\<lambda>b h r t. R b h (get r) (of_t t) \<and> Q r t)"
proof
  fix h r t
  assume r: "R 0 h (get r) (of_t t) \<and> Q r t"
  obtain x h1 where "c (get r) h = Some (x, h @ h1)" "R (length h) (h @ h1) x (of_t t)" using deep_copy.copies [OF assms(1)] r by blast
  with r assms(2,3) show "\<exists>y h'. part get put c r h = Some (y, h @ h') \<and> R (length h) (h @ h') (get y) (of_t t) \<and> Q y t"
    by (auto simp: part_def)
qed (use assms(1) in \<open>auto intro: deep_copy.frame deep_copy.lower\<close>)

text \<open>Slices and maps of plain values.\<close>

fun strings_of :: "cell \<Rightarrow> string list option" where
  "strings_of (C_strings xs) = Some xs" | "strings_of _ = None"

fun strmap_of :: "cell \<Rightarrow> (string \<times> string) list option" where
  "strmap_of (C_strmap m) = Some m" | "strmap_of _ = None"

fun conditions_of :: "cell \<Rightarrow> Condition list option" where
  "conditions_of (C_conditions cs) = Some cs" | "conditions_of _ = None"

definition reads_ref :: "(cell \<Rightarrow> 'v list option) \<Rightarrow> nat \<Rightarrow> heap \<Rightarrow> nat option \<Rightarrow> 'v list \<Rightarrow> bool" where
  "reads_ref get b h r vs \<longleftrightarrow> (case r of None \<Rightarrow> vs = [] | Some a \<Rightarrow> b \<le> a \<and> a < length h \<and> get (h ! a) = Some vs)"

interpretation flat: deep_copy "\<lambda>r h. Some (copy_flat r h)" "reads_ref get" for get
  by unfold_locales (auto simp: reads_ref_def copy_flat_def split: option.splits)

text \<open>Plugins with their configuration.\<close>

definition reads_plugin :: "nat \<Rightarrow> nat \<Rightarrow> heap \<Rightarrow> string \<times> nat option \<Rightarrow> CRPluginRef \<Rightarrow> bool" where
  "reads_plugin n b h p q \<longleftrightarrow> fst p = cp_Name q \<and> reads b h (H_map (snd p)) (AnyMap (cp_Config q)) \<and> size (AnyMap (cp_Config q)) \<le> n"

definition reads_plugins :: "nat \<Rightarrow> nat \<Rightarrow> heap \<Rightarrow> nat option \<Rightarrow> CRPluginRef list \<Rightarrow> bool" where
  "reads_plugins n b h r qs \<longleftrightarrow>
     (case r of None \<Rightarrow> qs = [] | Some a \<Rightarrow> b \<le> a \<and> a < length h \<and> (\<exists>ps. h ! a = C_plugins ps \<and> list_all2 (reads_plugin n b h) ps qs))"

interpretation plugin: deep_copy "copy_plugin n" "reads_plugin n" for n
proof unfold_locales
  fix h p q
  assume "reads_plugin n 0 h p q"
  then show "\<exists>y h'. copy_plugin n p h = Some (y, h @ h') \<and> reads_plugin n (length h) (h @ h') y q"
    using copy_any_map_copies [OF deepCopyAnyValue_deep, of h "snd p" "AnyMap (cp_Config q)" n]
    by (auto simp: reads_plugin_def copy_plugin_def deepCopyAnyMap_def)
qed (auto simp: reads_plugin_def intro: reads_frame reads_lower)

interpretation plugins: deep_copy "copy_plugins n" "reads_plugins n" for n
proof unfold_locales
  fix h r qs
  assume r: "reads_plugins n 0 h r qs"
  show "\<exists>y h'. copy_plugins n r h = Some (y, h @ h') \<and> reads_plugins n (length h) (h @ h') y qs"
  proof (cases r)
    case (Some a)
    with r obtain ps where ps: "h ! a = C_plugins ps" "list_all2 (reads_plugin n 0 h) ps qs" by (auto simp: reads_plugins_def)
    with plugin.copies_filled [OF ps(2), of C_plugins "C_plugins []"] Some show ?thesis
      by (auto simp: copy_plugins_def reads_plugins_def)
  qed (use r in \<open>auto simp: copy_plugins_def reads_plugins_def\<close>)
next
  fix b h r qs and g :: heap
  assume "reads_plugins n b h r qs" and "length h \<le> length g" and "\<And>a. b \<le> a \<Longrightarrow> a < length h \<Longrightarrow> g ! a = h ! a"
  then show "reads_plugins n b g r qs"
    using plugin.frame_all [of n b h _ qs g] by (fastforce simp: reads_plugins_def split: option.splits)
next
  fix b h r qs c
  assume "reads_plugins n b h r qs" and "c \<le> b"
  then show "reads_plugins n c h r qs"
    using plugin.lower_all [of n b h _ qs c] by (fastforce simp: reads_plugins_def split: option.splits)
qed


text \<open>The objects, each against the resource that it stands for.\<close>

definition reads_match :: "nat \<Rightarrow> heap \<Rightarrow> hMatchRule \<Rightarrow> CRMatchRule \<Rightarrow> bool" where
  "reads_match b h m r \<longleftrightarrow> (reads_ref strings_of b h (hm_Hosts m) (cm_Hosts r) \<and> reads_ref strings_of b h (hm_Methods m) (cm_Methods r) \<and>
     reads_ref strmap_of b h (hm_Headers m) (cm_Headers r)) \<and> hm_Path m = cm_Path r \<and> hm_PathMode m = cm_PathMode r"

definition reads_spec :: "nat \<Rightarrow> nat \<Rightarrow> heap \<Rightarrow> hRouteSpec \<Rightarrow> GatewayRouteSpec \<Rightarrow> bool" where
  "reads_spec n b h x s \<longleftrightarrow> (reads_match b h (hs_Match x) (rs_Match s) \<and> reads_plugins n b h (hs_Plugins x) (rs_Plugins s)) \<and>
     hs_Active x = rs_Active s \<and> hs_UpstreamRef x = rs_UpstreamRef s \<and> hs_StripPath x = rs_StripPath s"

definition reads_route :: "nat \<Rightarrow> nat \<Rightarrow> heap \<Rightarrow> hRoute \<Rightarrow> GatewayRoute \<Rightarrow> bool" where
  "reads_route n b h x cr \<longleftrightarrow> (reads_spec n b h (hr_Spec x) (gr_Spec cr) \<and> reads_ref conditions_of b h (hr_Conditions x) (rt_Conditions (gr_Status cr))) \<and>
     hr_Meta x = gr_Meta cr \<and> hr_RouteID x = rt_RouteID (gr_Status cr)"

definition reads_upstream :: "nat \<Rightarrow> heap \<Rightarrow> hUpstream \<Rightarrow> GatewayUpstream \<Rightarrow> bool" where
  "reads_upstream b h x cr \<longleftrightarrow> reads_ref conditions_of b h (hu_Conditions x) (ut_Conditions (gu_Status cr)) \<and>
     hu_Meta x = gu_Meta cr \<and> hu_Spec x = gu_Spec cr \<and> hu_UpstreamID x = ut_UpstreamID (gu_Status cr) \<and> hu_Health x = ut_Health (gu_Status cr)"

definition reads_policy :: "nat \<Rightarrow> heap \<Rightarrow> hPolicy \<Rightarrow> HelixIPPolicy \<Rightarrow> bool" where
  "reads_policy b h x cr \<longleftrightarrow> (reads_ref strings_of b h (hq_CIDRs x) (ps_CIDRs (hp_Spec cr)) \<and>
     reads_ref conditions_of b h (hq_Conditions x) (pt_Conditions (hp_Status cr))) \<and>
     hq_Meta x = hp_Meta cr \<and> hq_Mode x = ps_Mode (hp_Spec cr) \<and> hq_Active x = ps_Active (hp_Spec cr) \<and> hq_PolicyID x = pt_PolicyID (hp_Status cr)"

lemma match_parts:
  "Some (deepCopyMatchRule m h) = part (\<lambda>m. (hm_Hosts m, hm_Methods m, hm_Headers m))
     (\<lambda>m p. m\<lparr> hm_Hosts := fst p, hm_Methods := fst (snd p), hm_Headers := snd (snd p) \<rparr>)
     (both (\<lambda>r h. Some (copy_flat r h)) (both (\<lambda>r h. Some (copy_flat r h)) (\<lambda>r h. Some (copy_flat r h)))) m h"
  by (simp add: deepCopyMatchRule_def part_def both_def split: prod.split)

interpretation match_rule: deep_copy "\<lambda>m h. Some (deepCopyMatchRule m h)" reads_match
  using part_deep [OF both_deep [OF flat.deep_copy_axioms both_deep [OF flat.deep_copy_axioms flat.deep_copy_axioms]],
    where of_t = "\<lambda>r. (cm_Hosts r, cm_Methods r, cm_Headers r)" and get = "\<lambda>m. (hm_Hosts m, hm_Methods m, hm_Headers m)"
      and put = "\<lambda>m p. m\<lparr> hm_Hosts := fst p, hm_Methods := fst (snd p), hm_Headers := snd (snd p) \<rparr>"
      and Q = "\<lambda>m r. hm_Path m = cm_Path r \<and> hm_PathMode m = cm_PathMode r", of strings_of strings_of strmap_of]
  by (simp add: match_parts reads_match_def [abs_def])

lemma spec_parts:
  "deepCopyRouteSpec n x h = part (\<lambda>s. (hs_Match s, hs_Plugins s)) (\<lambda>s p. s\<lparr> hs_Match := fst p, hs_Plugins := snd p \<rparr>)
     (both (\<lambda>m h. Some (deepCopyMatchRule m h)) (copy_plugins n)) x h"
  by (auto simp: deepCopyRouteSpec_def part_def both_def split: prod.split option.split)

interpretation route_spec: deep_copy "deepCopyRouteSpec n" "reads_spec n" for n
  using part_deep [OF both_deep [OF match_rule.deep_copy_axioms plugins.deep_copy_axioms],
    where of_t = "\<lambda>s. (rs_Match s, rs_Plugins s)" and get = "\<lambda>s. (hs_Match s, hs_Plugins s)"
      and put = "\<lambda>s p. s\<lparr> hs_Match := fst p, hs_Plugins := snd p \<rparr>"
      and Q = "\<lambda>x s. hs_Active x = rs_Active s \<and> hs_UpstreamRef x = rs_UpstreamRef s \<and> hs_StripPath x = rs_StripPath s", of n]
  by (simp add: spec_parts [abs_def] reads_spec_def [abs_def])


text \<open>From here on \<open>dci\<close> is a copy: \<open>dci m = m\<close> for every \<open>m\<close>.\<close>

lemma route_parts:
  "route_DeepCopyObject dci n x h = part (\<lambda>x. (hr_Spec x, hr_Conditions x))
     (\<lambda>x p. \<lparr> hr_Meta = dci (hr_Meta x), hr_Spec = fst p, hr_RouteID = hr_RouteID x, hr_Conditions = snd p \<rparr>)
     (both (deepCopyRouteSpec n) (\<lambda>r h. Some (copy_flat r h))) x h"
  by (auto simp: route_DeepCopyObject_def deepCopyConditions_def part_def both_def split: prod.split option.split)

lemma route_deep:
  assumes "\<And>m. dci m = m"
  shows "deep_copy (route_DeepCopyObject dci n) (reads_route n)"
  using part_deep [OF both_deep [OF route_spec.deep_copy_axioms flat.deep_copy_axioms],
    where of_t = "\<lambda>cr. (gr_Spec cr, rt_Conditions (gr_Status cr))" and get = "\<lambda>x. (hr_Spec x, hr_Conditions x)"
      and put = "\<lambda>x p. \<lparr> hr_Meta = dci (hr_Meta x), hr_Spec = fst p, hr_RouteID = hr_RouteID x, hr_Conditions = snd p \<rparr>"
      and Q = "\<lambda>x cr. hr_Meta x = gr_Meta cr \<and> hr_RouteID x = rt_RouteID (gr_Status cr)", of n conditions_of] assms
  by (simp add: route_parts [abs_def] reads_route_def [abs_def])

lemma upstream_deep:
  assumes "\<And>m. dci m = m"
  shows "deep_copy (upstream_DeepCopyObject dci) reads_upstream"
proof -
  have "upstream_DeepCopyObject dci = part hu_Conditions (\<lambda>x c. \<lparr> hu_Meta = dci (hu_Meta x), hu_Spec = hu_Spec x, hu_UpstreamID = hu_UpstreamID x,
      hu_Health = hu_Health x, hu_Conditions = c \<rparr>) (\<lambda>r h. Some (copy_flat r h))"
    by (intro ext) (simp add: upstream_DeepCopyObject_def deepCopyConditions_def part_def split: prod.split)
  then show ?thesis
    using part_deep [OF flat.deep_copy_axioms, where of_t = "\<lambda>cr. ut_Conditions (gu_Status cr)" and get = hu_Conditions
        and put = "\<lambda>x c. \<lparr> hu_Meta = dci (hu_Meta x), hu_Spec = hu_Spec x, hu_UpstreamID = hu_UpstreamID x, hu_Health = hu_Health x, hu_Conditions = c \<rparr>"
        and Q = "\<lambda>x cr. hu_Meta x = gu_Meta cr \<and> hu_Spec x = gu_Spec cr \<and> hu_UpstreamID x = ut_UpstreamID (gu_Status cr) \<and>
          hu_Health x = ut_Health (gu_Status cr)", of conditions_of] assms
    by (simp add: reads_upstream_def [abs_def])
qed

lemma policy_deep:
  assumes "\<And>m. dci m = m"
  shows "deep_copy (policy_DeepCopyObject dci) reads_policy"
proof -
  have "policy_DeepCopyObject dci = part (\<lambda>x. (hq_CIDRs x, hq_Conditions x)) (\<lambda>x p. \<lparr> hq_Meta = dci (hq_Meta x), hq_Mode = hq_Mode x,
      hq_CIDRs = fst p, hq_Active = hq_Active x, hq_PolicyID = hq_PolicyID x, hq_Conditions = snd p \<rparr>)
      (both (\<lambda>r h. Some (copy_flat r h)) (\<lambda>r h. Some (copy_flat r h)))"
    by (intro ext) (simp add: policy_DeepCopyObject_def deepCopyConditions_def part_def both_def split: prod.split)
  then show ?thesis
    using part_deep [OF both_deep [OF flat.deep_copy_axioms flat.deep_copy_axioms],
        where of_t = "\<lambda>cr. (ps_CIDRs (hp_Spec cr), pt_Conditions (hp_Status cr))" and get = "\<lambda>x. (hq_CIDRs x, hq_Conditions x)"
        and put = "\<lambda>x p. \<lparr> hq_Meta = dci (hq_Meta x), hq_Mode = hq_Mode x, hq_CIDRs = fst p, hq_Active = hq_Active x,
          hq_PolicyID = hq_PolicyID x, hq_Conditions = snd p \<rparr>"
        and Q = "\<lambda>x cr. hq_Meta x = hp_Meta cr \<and> hq_Mode x = ps_Mode (hp_Spec cr) \<and> hq_Active x = ps_Active (hp_Spec cr) \<and>
          hq_PolicyID x = pt_PolicyID (hp_Status cr)", of strings_of conditions_of] assms
    by (simp add: reads_policy_def [abs_def])
qed

section \<open>The properties\<close>

text \<open>
  C38. The recursive copy of a configuration value always ends on a value that stands for a tree: with fuel
  above the size of the tree it returns, it appends to the heap without changing what was there, and the
  result stands for the same tree through the new cells alone.
\<close>
theorem deep_copy_terminates:
  assumes "reads 0 h v t" and "size t < n"
  shows "\<exists>v' h'. deepCopyAnyValue n v h = Some (v', h @ h') \<and> reads (length h) (h @ h') v' t"
  using any_value.copies [of n h v t] assms by (auto simp: reads_within_def)

text \<open>
  C39. A list of route resources is copied item by item into resources that share nothing with the originals:
  with enough fuel the copy ends, its items stand for the same resources, and after any writes to the
  cells of the copies the originals still do, and the other way round.
\<close>
theorem route_copies_isolated:
  assumes "\<And>m. dci m = m" and "list_all2 (reads_route n 0 h) xs crs"
  shows "\<exists>ys h'. routes_DeepCopyObject dci n xs h = Some (ys, h @ h') \<and> list_all2 (reads_route n (length h) (h @ h')) ys crs \<and>
    (\<forall>g. length g = length (h @ h') \<longrightarrow>
      ((\<forall>a < length h. g ! a = h ! a) \<longrightarrow> list_all2 (reads_route n 0 g) xs crs) \<and>
      ((\<forall>a. length h \<le> a \<and> a < length g \<longrightarrow> g ! a = (h @ h') ! a) \<longrightarrow> list_all2 (reads_route n (length h) g) ys crs))"
proof -
  note deep = route_deep [OF assms(1), of n]
  obtain ys h1 where y: "copy_seq (route_DeepCopyObject dci n) xs h = Some (ys, h @ h1)" "list_all2 (reads_route n (length h) (h @ h1)) ys crs"
    using deep_copy.copies_all [OF deep assms(2)] by blast
  moreover have "list_all2 (reads_route n 0 g) xs crs" if "length g = length (h @ h1)" "\<forall>a < length h. g ! a = h ! a" for g
    by (rule deep_copy.frame_all [OF deep assms(2)]) (use that in simp_all)
  moreover have "list_all2 (reads_route n (length h) g) ys crs"
    if "length g = length (h @ h1)" "\<forall>a. length h \<le> a \<and> a < length g \<longrightarrow> g ! a = (h @ h1) ! a" for g
    by (rule deep_copy.frame_all [OF deep y(2)]) (use that in simp_all)
  ultimately show ?thesis unfolding routes_DeepCopyObject_def by blast
qed

section \<open>The properties at work\<close>

text \<open>A map that holds a slice, and a route whose plugin is configured by it.\<close>

definition sample_heap :: heap where
  "sample_heap = [C_slice [H_int64 5], C_map [(''limits'', H_slice (Some 0))], C_plugins [(''route-rate-limit'', Some 1)]]"

definition sample_tree :: any where
  "sample_tree = AnyMap [(''limits'', AnySlice [AnyInt64 5])]"

lemma sample_reads: "reads 0 sample_heap (H_map (Some 1)) sample_tree"
proof -
  have "reads 0 sample_heap (H_slice (Some 0)) (AnySlice [AnyInt64 5])"
    by (rule reads.intros(8) [of _ _ _ "[H_int64 5]"]) (auto simp: sample_heap_def intro: reads.intros)
  then have "reads 0 sample_heap (H_map (Some 1)) (AnyMap (zip [''limits''] [AnySlice [AnyInt64 5]]))"
    by (intro reads.intros(10) [of _ _ _ "[(''limits'', H_slice (Some 0))]"]) (simp_all add: sample_heap_def)
  then show ?thesis by (simp add: sample_tree_def)
qed

theorem deep_copy_terminates_witness:
  "\<exists>v' h'. deepCopyAnyValue 20 (H_map (Some 1)) sample_heap = Some (v', sample_heap @ h') \<and> reads 3 (sample_heap @ h') v' sample_tree"
proof -
  have "size sample_tree < 20" and "length sample_heap = 3" by (simp_all add: sample_tree_def sample_heap_def)
  with deep_copy_terminates [OF sample_reads, of 20] show ?thesis by simp
qed

definition sample_hroute :: hRoute where
  "sample_hroute = \<lparr> hr_Meta = \<lparr> om_Name = ''web'', om_Namespace = ''default'', om_Generation = 1, om_DeletionTimestamp = None, om_Finalizers = [],
       om_ResourceVersion = ''1'' \<rparr>,
     hr_Spec = \<lparr> hs_Active = True, hs_Match = \<lparr> hm_Hosts = None, hm_Path = ''/'', hm_PathMode = '''', hm_Methods = None, hm_Headers = None \<rparr>,
       hs_UpstreamRef = ''api'', hs_Plugins = Some 2, hs_StripPath = False \<rparr>, hr_RouteID = '''', hr_Conditions = None \<rparr>"

definition sample_kroute :: GatewayRoute where
  "sample_kroute = \<lparr> gr_Meta = hr_Meta sample_hroute,
     gr_Spec = \<lparr> rs_Active = True, rs_Match = \<lparr> cm_Hosts = [], cm_Path = ''/'', cm_PathMode = '''', cm_Methods = [], cm_Headers = [] \<rparr>,
       rs_UpstreamRef = ''api'', rs_Plugins = [\<lparr> cp_Name = ''route-rate-limit'', cp_Config = [(''limits'', AnySlice [AnyInt64 5])] \<rparr>], rs_StripPath = False \<rparr>,
     gr_Status = \<lparr> rt_RouteID = '''', rt_Conditions = [] \<rparr> \<rparr>"

theorem route_copies_isolated_witness:
  "\<exists>ys h'. routes_DeepCopyObject (\<lambda>m. m) 20 [sample_hroute] sample_heap = Some (ys, sample_heap @ h') \<and>
     list_all2 (reads_route 20 3 (sample_heap @ h')) ys [sample_kroute]"
proof -
  have cells: "sample_heap ! 2 = C_plugins [(''route-rate-limit'', Some 1)]" "length sample_heap = 3" by (simp_all add: sample_heap_def)
  have "size (AnyMap [(''limits'', AnySlice [AnyInt64 5])]) \<le> 20" by simp
  with sample_reads have "reads_plugins 20 0 sample_heap (Some 2) (rs_Plugins (gr_Spec sample_kroute))"
    by (simp add: reads_plugins_def cells sample_kroute_def reads_plugin_def sample_tree_def)
  then have "list_all2 (reads_route 20 0 sample_heap) [sample_hroute] [sample_kroute]"
    by (simp add: reads_route_def reads_spec_def reads_match_def reads_ref_def sample_hroute_def sample_kroute_def)
  with route_copies_isolated [of "\<lambda>m. m" 20 sample_heap "[sample_hroute]" "[sample_kroute]"] cells(2) show ?thesis by auto
qed


end
