(* ===== verification/Spec2Isabelle.thy ===== *)
theory Spec2Isabelle
  imports World_Typing Gateway_Process Control_Plane Deep_Copy
begin

text \<open>
  A verification development for the Helix API gateway (Go). It models the gateway from its
  configuration store to its HTTP chain, the admin API with its client, and the Kubernetes operator, and
  proves what makes each part correct, or, where the code does not do what it means to, what it does instead.

  \<^bold>\<open>The program.\<close> A request enters the chain of global plugins (\<open>cmd/main.go\<close>), passes the multiplexer to the
  dynamic router (\<open>internal/router\<close>), which picks a route, runs the plugins of that route and hands the request
  to an upstream through a load balancer, a traffic split or a single reverse proxy; without a route it goes to
  the default backend (\<open>internal/proxy\<close>). Routes, upstreams, IP policies and API keys live in the configuration
  store (\<open>internal/store\<close>), which saves itself to a file and tells the router about changes: the router then
  rebuilds its table while requests go on. The admin API (\<open>internal/admin\<close>) changes the store; the operator
  (\<open>internal/operator\<close>) drives the admin API through the client (\<open>internal/admin/client\<close>). The two processes are
  \<open>cmd/main.go\<close> and \<open>cmd/operator/main.go\<close>.

  \<^bold>\<open>The theories.\<close>

  \<^item> \<open>Helix_Prelude\<close>: Go maps as association lists with the order of iteration as an argument, Go strings and
    the functions of package \<open>strings\<close>, 64-bit integers, run-time panics, values of type \<open>any\<close>.
  \<^item> \<open>Store\<close>: \<open>internal/store\<close> in full. Every operation takes the environment of one call (clock, new
    identifier, what the disk does, iteration orders). API keys are in a heap, since two maps share them.
    \<open>Store_Tables\<close> states the contract of the three tables as the locale \<open>crud_table\<close> and its extension
    \<open>toggle_table\<close>, interpreted for routes, upstreams and policies. \<open>Store_Correct\<close> has the invariant and
    reachability over operations and restarts, \<open>Store_Properties\<close> the properties: invariant, rollback, restart,
    notification, and the life of an API key.
  \<^item> \<open>Circuit_Breaker\<close>: the breaker as a state machine with interleaved requests (inductive step relation).
  \<^item> \<open>Load_Balancer\<close>: the three balancers of \<open>internal/lb\<close>, with the 64-bit counter and wrapping sums.
  \<^item> \<open>Observability\<close>: the audit log and the route tracker. \<open>Rate_Limit\<close>: the Lua scripts of both limiters over
    an interface of Redis, and the combined check. \<open>Health\<close>: probe rounds and the loop that repeats them, and that
    the health of an endpoint is what the last round that listed it found.
  \<^item> \<open>Http\<close>: requests, response writers with their wrapping layers, handlers over an explicit world, and the
    plugin interface. \<open>Net_IP\<close>: addresses and CIDR blocks. \<open>Request_Filter\<close>: the patterns of
    \<open>security.go\<close> as regular expressions with an executable matcher. \<open>Plugins\<close> and \<open>Plugins_Correct\<close>: the other
    built-in plugins and token validation. \<open>Plugin_Loader\<close>: external plugins and the watcher.
  \<^item> \<open>Router\<close> and \<open>Router_Correct\<close>: matching, building the route table, load balancing, traffic split, path
    stripping and the reverse proxies; the best matching route, exact split, released connections,
    forwarded identity.
  \<^item> \<open>Hot_Reload\<close>: the store and the router together, as a step relation over store operations whose writes may
    fail, requests, and reloads that take their mutex, read the upstreams, read the routes and publish. A router
    at rest serves by the store as it is, reloads come to rest, and a restart on the saved file keeps the routing.
  \<^item> \<open>Config\<close>, \<open>Proxy\<close>, \<open>Gateway\<close>, \<open>Gateway_Correct\<close>: configuration from the environment and the \<open>.env\<close> file, the
    default backend, the assembly of \<open>main\<close>; the locale \<open>confined\<close> says how far a plugin lets the handler behind
    it matter and is interpreted for each global plugin, which gives the properties of the whole chain.
    \<open>WebSocket_Tunnel\<close>: the hijacked connections and the two goroutines that copy between them.
  \<^item> \<open>World_Typing\<close>: a type system for the objects that handlers share (breakers, limiters, balancers, writer
    layers). The locale \<open>well_typed\<close> is what a plugin has to keep, interpreted for every built-in plugin; the
    gateway that \<open>build_gateway\<close> makes is well typed.
  \<^item> \<open>Gateway_Process\<close>: start-up with everything that may fail in it (\<open>telemetry\<close>, \<open>internal/tls\<close>, the plugin
    watcher, the servers), when it fails, and the process from the first request to the end of the shutdown.
  \<^item> \<open>Admin\<close>, \<open>Admin_Correct\<close>: every handler of the admin API, its routing table and Basic authentication; the
    locale \<open>endpoint\<close> ties each handler to the operation of the store that the request asks for. \<open>Admin_Client\<close>: the
    client, and that its calls are operations of the store behind the server.
  \<^item> \<open>Operator\<close>, \<open>Operator_Correct\<close>: the three reconcilers, over the Kubernetes client as a parameter; the
    locale \<open>wedge\<close> is about retries that cannot succeed. \<open>Deep_Copy\<close>: the deep copies of the resource types on
    an explicit heap, with the contract \<open>deep_copy\<close>. \<open>Operator_Process\<close>: flags, client, registration and start-up
    of the operator, its credentials, and what reconciling an upstream leaves in the store.
  \<^item> \<open>Control_Plane\<close>: all of it together. The admin server works on its part of the state of the running gateway
    (locale \<open>part_of\<close>), and every request to it is a step of \<open>Hot_Reload\<close>. What the API lists is what the router
    serves, and a resource that was reconciled reaches the router.

  \<^bold>\<open>State and effects.\<close> State is passed explicitly. A handler maps a request and a world to the header map,
  which handlers share, and the world after; the world has the response, the layers of wrapped writers, the
  state of every plugin and of the router, and the clock. Errors are values; a panic is a field of the world that
  callers propagate, so that deferred calls run. Where concurrency matters (circuit breaker, least connections,
  hot reload, the tunnel, shutdown) the operations are interleaved atomic steps; elsewhere requests run one after
  the other, which is what the locks of the sources provide for each operation.

  \<^bold>\<open>Parameters.\<close> Code that is not in the repository is an argument: Redis, the JWT library, SHA-256, regular
  expressions of routes, URL parsing, transports, sockets, JSON encoding, the trace exporter, the file watcher,
  the ACME library, the Kubernetes client and controller-runtime. What is assumed of it stands in the statement of
  the theorem that needs it.

  \<^bold>\<open>Bounds and fuel.\<close> Machine integers keep their width where a claim depends on it: the round-robin counter
  is a 64-bit word and Go's \<open>int\<close> wraps in the sums of weights. The only fuel is that of the recursive deep copy,
  which may meet a value that contains itself; any fuel above the size of the value is enough, which
  \<open>deep_copy_terminates\<close> proves. All other loops are structural or have a termination proof.

  \<^bold>\<open>Not modelled.\<close> Log lines, as nothing reads them. The static files of the admin user interface, and the file server
  over them, which is a parameter of \<open>serveUI\<close>. \<open>TLSConfig\<close>, which hands over to the ACME library. The
  timeouts of the servers are recorded but cut nothing off in the model. The interfaces of \<open>sdk\<close> have no behaviour.
\<close>

end
